theory Spec2Isabelle
  imports Complex_Main
begin

section \<open>Probabilistic active learning: the pool strategies of \<open>skactiveml/pool/_probal.py\<close>\<close>

text \<open>
  The development follows the Python source function by function. Python's unbounded
  integers are \<open>int\<close>, exceptions are values of the type \<open>py_error\<close> returned as
  \<open>Inl\<close>. The float arrays of the query strategy are lists (and lists of lists) of
  \<open>real\<close>, with the rounding idealised; the arrays of \<open>_cost_reduction\<close>, where
  factorials and exponentials leave the range of the floats, are lists of \<open>float64\<close>,
  with the infinities and \<open>nan\<close>.
\<close>

datatype py_error =
  TypeError | ValueError | IndexError | NotImplementedError | LinAlgError | ZeroDivisionError
  | AttributeError | UnboundLocalError

subsection \<open>Label vectors: \<open>_gen_l_vec_list\<close>\<close>

text \<open>
  \<^verbatim>\<open>label_vec_res = np.arange(m_approx + 1)\<close>: the integers \<open>0, ..., m_approx\<close>
  (empty when \<open>m_approx < 0\<close>).
\<close>

definition label_vec_res :: "int \<Rightarrow> int list" where
  "label_vec_res m_approx = [0..m_approx]"

text \<open>
  One round of the loop \<^verbatim>\<open>for i in range(n_classes - 1)\<close>: every vector of the
  list is extended by every \<open>newLabel\<close> of \<open>label_vec_res\<close> with
  \<^verbatim>\<open>newLabel - (m_approx - sum(labelVec)) <= 1.e-10\<close>, in the order of the two
  nested loops.
\<close>

definition extend_label_vecs :: "int \<Rightarrow> int list list \<Rightarrow> int list list" where
  "extend_label_vecs m_approx label_vec_list =
     concat (map (\<lambda>labelVec.
        map (\<lambda>newLabel. labelVec @ [newLabel])
          (filter (\<lambda>r. real_of_int (r - (m_approx - sum_list labelVec)) \<le> 1 / 10 ^ 10)
             (label_vec_res m_approx)))
       label_vec_list)"

text \<open>
  The whole function: \<open>n_classes - 1\<close> rounds from \<open>[[]]\<close> (none when
  \<open>n_classes \<le> 1\<close>, as \<^verbatim>\<open>range\<close> of a non-positive number is empty), then the
  last entry \<^verbatim>\<open>m_approx - sum(labelVec)\<close> is appended to every vector.
\<close>

definition gen_l_vec_list :: "int \<Rightarrow> int \<Rightarrow> int list list" where
  "gen_l_vec_list m_approx n_classes =
     map (\<lambda>labelVec. labelVec @ [m_approx - sum_list labelVec])
       ((extend_label_vecs m_approx ^^ nat (n_classes - 1)) [[]])"

subsection \<open>Arrays and the numpy operations the source uses\<close>

text \<open>
  A two-dimensional float array is a list of rows; all rows of an array have the same
  length (numpy arrays are rectangular). An argument that the source accepts either as a
  vector or as a matrix is an \<open>ndarray\<close>.
\<close>

type_synonym matrix = "real list list"

datatype ndarray = Arr1 "real list" | Arr2 "real list list"

text \<open>
  Python values that the source compares with each other: an integer and a tuple of
  integers. \<^verbatim>\<open>a.shape\<close> is a tuple; \<^verbatim>\<open>(n_classes)\<close> is the integer
  \<open>n_classes\<close> in parentheses, not a tuple. As in Python, a tuple never equals an
  integer.
\<close>

datatype py_obj = PyInt int | PyTuple "int list"

definition n_cols :: "matrix \<Rightarrow> nat" where
  "n_cols A = (case A of [] \<Rightarrow> 0 | r # _ \<Rightarrow> length r)"

definition shape :: "ndarray \<Rightarrow> py_obj" where
  "shape a = (case a of
      Arr1 v \<Rightarrow> PyTuple [int (length v)]
    | Arr2 A \<Rightarrow> PyTuple [int (length A), int (n_cols A)])"

text \<open>Sequencing of computations that may raise: the first error is the result.\<close>

definition py_bind :: "py_error + 'a \<Rightarrow> ('a \<Rightarrow> py_error + 'b) \<Rightarrow> py_error + 'b" where
  "py_bind m f = (case m of Inl e \<Rightarrow> Inl e | Inr a \<Rightarrow> f a)"

text \<open>
  \<^verbatim>\<open>A @ B\<close> for two-dimensional arrays: numpy raises \<open>ValueError\<close> unless the
  number of columns of \<open>A\<close> is the number of rows of \<open>B\<close>.
\<close>

definition matmul :: "matrix \<Rightarrow> matrix \<Rightarrow> py_error + matrix" where
  "matmul A B =
     (if n_cols A = length B
      then Inr (map (\<lambda>r. map (\<lambda>j. sum_list (map (\<lambda>k. r ! k * B ! k ! j) [0..<length B]))
                              [0..<n_cols B]) A)
      else Inl ValueError)"

text \<open>\<^verbatim>\<open>np.eye(n)\<close>, \<^verbatim>\<open>1 - np.eye(n)\<close>, \<^verbatim>\<open>a.reshape(-1, 1)\<close> and
  \<^verbatim>\<open>np.fill_diagonal(A, c)\<close> (which writes the entries \<open>(i, i)\<close> that exist).\<close>

definition eye :: "nat \<Rightarrow> matrix" where
  "eye n = map (\<lambda>i. map (\<lambda>j. if i = j then 1 else 0) [0..<n]) [0..<n]"

definition one_minus_eye :: "nat \<Rightarrow> matrix" where
  "one_minus_eye n = map (map (\<lambda>x. 1 - x)) (eye n)"

definition reshape_col :: "ndarray \<Rightarrow> matrix" where
  "reshape_col a = (case a of
      Arr1 v \<Rightarrow> map (\<lambda>x. [x]) v
    | Arr2 A \<Rightarrow> map (\<lambda>x. [x]) (concat A))"

definition fill_diagonal :: "matrix \<Rightarrow> real \<Rightarrow> matrix" where
  "fill_diagonal A c =
     map (\<lambda>i. map (\<lambda>j. if i = j then c else A ! i ! j) [0..<length (A ! i)]) [0..<length A]"

subsection \<open>Performance functions on a confusion matrix\<close>

text \<open>
  \<^verbatim>\<open>conf_matrix[-1, -1]\<close>, \<^verbatim>\<open>conf_matrix[-1, :]\<close> and
  \<^verbatim>\<open>conf_matrix[:, -1]\<close> read the last row and column. The functions are meant for
  a non-empty square confusion matrix with positive row sums; numpy's \<open>nan\<close> for
  \<open>0 / 0\<close> has no counterpart here, and no statement below evaluates them there.
\<close>

definition score_recall :: "matrix \<Rightarrow> real" where
  "score_recall conf_matrix = last (last conf_matrix) / sum_list (last conf_matrix)"

definition macro_accuracy_func :: "matrix \<Rightarrow> real" where
  "macro_accuracy_func conf_matrix =
     sum_list (map (\<lambda>i. conf_matrix ! i ! i / sum_list (conf_matrix ! i))
                 [0..<length conf_matrix])
       / real (length conf_matrix)"

definition score_accuracy :: "matrix \<Rightarrow> real" where
  "score_accuracy conf_matrix =
     sum_list (map (\<lambda>i. conf_matrix ! i ! i) [0..<length conf_matrix])
       / sum_list (concat conf_matrix)"

definition score_precision :: "matrix \<Rightarrow> real" where
  "score_precision conf_matrix =
     (let pos_pred = sum_list (map last conf_matrix)
      in if pos_pred > 0 then last (last conf_matrix) / pos_pred else 0)"

definition f1_score_func :: "matrix \<Rightarrow> real" where
  "f1_score_func conf_matrix =
     (let recall = score_recall conf_matrix;
          precision = score_precision conf_matrix;
          norm = recall + precision
      in if norm > 0 then 2 * recall * precision / norm else 0)"

subsection \<open>The metric transform: \<open>_transform_metric\<close>\<close>

text \<open>
  The parameters are in the order of the \<^verbatim>\<open>def\<close>:
  \<^verbatim>\<open>_transform_metric(metric, cost_matrix, cost_vector, perf_func, n_classes)\<close>.
  \<open>check_cost_matrix\<close> is the validation utility of \<open>skactiveml.utils\<close>, which is
  not part of these sources; it is a parameter. In the branch \<open>cost-vector\<close> the
  source tests \<^verbatim>\<open>cost_vector is None or cost_vector.shape != (n_classes)\<close>:
  the shape, a tuple, is compared with the integer \<open>n_classes\<close>.
\<close>

definition transform_metric ::
  "(ndarray \<Rightarrow> nat \<Rightarrow> py_error + unit) \<Rightarrow> string \<Rightarrow> ndarray option \<Rightarrow> ndarray option
     \<Rightarrow> (matrix \<Rightarrow> real) option \<Rightarrow> nat
     \<Rightarrow> py_error + (string \<times> ndarray option \<times> (matrix \<Rightarrow> real) option)" where
  "transform_metric check_cost_matrix metric cost_matrix cost_vector perf_func n_classes =
     (if metric = ''error'' then
        Inr (''misclassification-loss'', Some (Arr2 (one_minus_eye n_classes)), None)
      else if metric = ''cost-vector'' then
        (case cost_vector of
           None \<Rightarrow> Inl ValueError
         | Some cv \<Rightarrow>
             if shape cv \<noteq> PyInt (int n_classes) then Inl ValueError
             else py_bind (matmul (reshape_col cv) [replicate n_classes 1])
                    (\<lambda>cm. Inr (''misclassification-loss'', Some (Arr2 (fill_diagonal cm 0)), None)))
      else if metric = ''misclassification-loss'' then
        (case cost_matrix of
           None \<Rightarrow> Inl ValueError
         | Some cm \<Rightarrow>
             py_bind (check_cost_matrix cm n_classes)
               (\<lambda>_. Inr (''misclassification-loss'', Some cm, None)))
      else if metric = ''mean-abs-error'' then
        Inr (''misclassification-loss'',
             Some (Arr2 (map (\<lambda>i. map (\<lambda>j. \<bar>real i - real j\<bar>) [0..<n_classes]) [0..<n_classes])),
             None)
      else if metric = ''macro-accuracy'' then
        Inr (''custom'', None, Some macro_accuracy_func)
      else if metric = ''f1-score'' then
        Inr (''custom'', None, Some f1_score_func)
      else if metric = ''cohens-kappa'' then
        Inr (''custom'', None, perf_func)
      else Inl ValueError)"

subsection \<open>The optimal prior: \<open>calculate_optimal_prior\<close>\<close>

text \<open>
  \<^verbatim>\<open>len(x)\<close> raises \<open>TypeError\<close> on \<open>None\<close>; on an array it is the length of
  the first axis.
\<close>

definition py_len :: "ndarray option \<Rightarrow> py_error + nat" where
  "py_len x = (case x of
      None \<Rightarrow> Inl TypeError
    | Some (Arr1 v) \<Rightarrow> Inr (length v)
    | Some (Arr2 A) \<Rightarrow> Inr (length A))"

text \<open>\<^verbatim>\<open>np.full([n], 1. / n)\<close>: Python's float division raises on \<open>n = 0\<close>.\<close>

definition uniform_prior :: "nat \<Rightarrow> py_error + real list" where
  "uniform_prior n_classes =
     (if n_classes = 0 then Inl ZeroDivisionError
      else Inr (replicate n_classes (1 / real n_classes)))"

text \<open>
  \<open>linalg_inv\<close> stands for \<^verbatim>\<open>np.linalg.inv\<close> on a two-dimensional array, which
  raises \<open>LinAlgError\<close> on a matrix that is not square or is singular; on a
  one-dimensional array numpy raises \<open>LinAlgError\<close> as well. The source takes
  \<^verbatim>\<open>len(cost_matrix)\<close> in its first line, before the test
  \<^verbatim>\<open>cost_matrix is None\<close>.
\<close>

definition calculate_optimal_prior ::
  "(matrix \<Rightarrow> py_error + matrix) \<Rightarrow> ndarray option \<Rightarrow> py_error + real list" where
  "calculate_optimal_prior linalg_inv cost_matrix =
     py_bind (py_len cost_matrix) (\<lambda>n_classes.
       case cost_matrix of
         None \<Rightarrow> uniform_prior n_classes
       | Some (Arr1 v) \<Rightarrow> Inl LinAlgError
       | Some (Arr2 C) \<Rightarrow>
           py_bind (linalg_inv C) (\<lambda>Ci.
           py_bind (matmul [replicate (length C) 1] Ci) (\<lambda>M.
             case M of
               [] \<Rightarrow> Inl IndexError
             | M0 # _ \<Rightarrow>
                 if list_all (\<lambda>x. 0 \<le> x) M0
                 then Inr (map (\<lambda>x. x / sum_list (concat M)) M0)
                 else uniform_prior n_classes)))"

subsection \<open>Floating-point numbers\<close>

text \<open>
  The arrays of \<open>_cost_reduction\<close> hold IEEE binary64 numbers: a float is a finite
  real, an infinity or \<open>nan\<close>. An operation on finite operands rounds its exact
  result to an infinity from the overflow threshold \<open>2^1024 - 2^970\<close> on; a
  product, a quotient and an exponential round to zero up to the underflow threshold
  \<open>2^-1075\<close> (a sum of two floats does not underflow). Every other result is kept
  exact: the rounding inside the range is idealised. The zero carries no sign; the
  divisors in \<open>_cost_reduction\<close> are exponentials, products of factorials and positive
  integers, none of which is \<open>-0.0\<close>.
\<close>

datatype float64 = Fin real | PInf | NInf | NaN

definition overflow_threshold :: real where
  "overflow_threshold = 2 ^ 1024 - 2 ^ 970"

definition underflow_threshold :: real where
  "underflow_threshold = 1 / 2 ^ 1075"

definition round_sum :: "real \<Rightarrow> float64" where
  "round_sum x =
     (if overflow_threshold \<le> x then PInf
      else if x \<le> - overflow_threshold then NInf
      else Fin x)"

definition round_prod :: "real \<Rightarrow> float64" where
  "round_prod x = (if \<bar>x\<bar> \<le> underflow_threshold then Fin 0 else round_sum x)"

fun fadd :: "float64 \<Rightarrow> float64 \<Rightarrow> float64" where
  "fadd (Fin x) (Fin y) = round_sum (x + y)"
| "fadd NaN _ = NaN"
| "fadd _ NaN = NaN"
| "fadd PInf NInf = NaN"
| "fadd NInf PInf = NaN"
| "fadd PInf _ = PInf"
| "fadd _ PInf = PInf"
| "fadd NInf _ = NInf"
| "fadd _ NInf = NInf"

fun fneg :: "float64 \<Rightarrow> float64" where
  "fneg (Fin x) = Fin (- x)"
| "fneg PInf = NInf"
| "fneg NInf = PInf"
| "fneg NaN = NaN"

definition fsub :: "float64 \<Rightarrow> float64 \<Rightarrow> float64" where
  "fsub a b = fadd a (fneg b)"

definition signed_inf :: "bool \<Rightarrow> float64" where
  "signed_inf positive = (if positive then PInf else NInf)"

fun fmul :: "float64 \<Rightarrow> float64 \<Rightarrow> float64" where
  "fmul (Fin x) (Fin y) = round_prod (x * y)"
| "fmul NaN _ = NaN"
| "fmul _ NaN = NaN"
| "fmul (Fin x) PInf = (if x = 0 then NaN else signed_inf (0 < x))"
| "fmul (Fin x) NInf = (if x = 0 then NaN else signed_inf (x < 0))"
| "fmul PInf (Fin y) = (if y = 0 then NaN else signed_inf (0 < y))"
| "fmul NInf (Fin y) = (if y = 0 then NaN else signed_inf (y < 0))"
| "fmul PInf PInf = PInf"
| "fmul PInf NInf = NInf"
| "fmul NInf PInf = NInf"
| "fmul NInf NInf = PInf"

fun fdiv :: "float64 \<Rightarrow> float64 \<Rightarrow> float64" where
  "fdiv (Fin x) (Fin y) =
     (if y = 0 then (if x = 0 then NaN else signed_inf (0 < x)) else round_prod (x / y))"
| "fdiv NaN _ = NaN"
| "fdiv _ NaN = NaN"
| "fdiv (Fin x) _ = Fin 0"
| "fdiv PInf (Fin y) = signed_inf (0 \<le> y)"
| "fdiv NInf (Fin y) = signed_inf (y < 0)"
| "fdiv _ _ = NaN"

fun fexp :: "float64 \<Rightarrow> float64" where
  "fexp (Fin x) = round_prod (exp x)"
| "fexp PInf = PInf"
| "fexp NInf = Fin 0"
| "fexp NaN = NaN"

text \<open>The comparison \<open><\<close> of two floats; it is false as soon as one of them is \<open>nan\<close>.\<close>

fun fless :: "float64 \<Rightarrow> float64 \<Rightarrow> bool" where
  "fless (Fin x) (Fin y) = (x < y)"
| "fless NaN _ = False"
| "fless _ NaN = False"
| "fless NInf NInf = False"
| "fless NInf _ = True"
| "fless PInf _ = False"
| "fless _ PInf = True"
| "fless _ NInf = False"

text \<open>
  \<^verbatim>\<open>np.sum\<close>, a dot product and the accumulation of \<^verbatim>\<open>np.bincount\<close> add from the
  left, starting at \<open>0.0\<close>; \<^verbatim>\<open>np.prod\<close> multiplies from the left, starting at
  \<open>1.0\<close>. (numpy may add the terms of a sum in another order; the order matters only
  when a partial sum overflows.)
\<close>

definition fsum :: "float64 list \<Rightarrow> float64" where
  "fsum xs = foldl fadd (Fin 0) xs"

definition fprod :: "float64 list \<Rightarrow> float64" where
  "fprod xs = foldl fmul (Fin 1) xs"

definition fvec_add :: "float64 list \<Rightarrow> float64 list \<Rightarrow> float64 list" where
  "fvec_add a b = map (\<lambda>(x, y). fadd x y) (zip a b)"

primrec first_index :: "('a \<Rightarrow> bool) \<Rightarrow> 'a list \<Rightarrow> nat" where
  "first_index P [] = 0"
| "first_index P (x # xs) = (if P x then 0 else Suc (first_index P xs))"

text \<open>
  \<^verbatim>\<open>np.argmin\<close> on one row is the position of the first \<open>nan\<close> if there is one, and
  the first position of the minimum otherwise; \<^verbatim>\<open>np.max\<close> on one row is \<open>nan\<close> if
  the row holds one, and the maximum otherwise.
\<close>

definition np_argmin :: "float64 list \<Rightarrow> nat" where
  "np_argmin xs =
     (if NaN \<in> set xs then first_index (\<lambda>x. x = NaN) xs
      else first_index (\<lambda>x. list_all (\<lambda>y. \<not> fless y x) xs) xs)"

definition np_max :: "float64 list \<Rightarrow> float64" where
  "np_max xs =
     (if NaN \<in> set xs then NaN
      else foldl (\<lambda>m x. if fless m x then x else m) (hd xs) (tl xs))"

subsection \<open>The closed-form expected cost reduction: \<open>_cost_reduction\<close>\<close>

text \<open>
  \<open>euler_beta\<close> is \<^verbatim>\<open>np.exp(np.sum(gammaln(a)) - gammaln(np.sum(a)))\<close> on one row;
  \<open>gammaln\<close> (of \<open>scipy.special\<close>) is a parameter, a function on floats.
  \<open>multinomial\<close> is \<^verbatim>\<open>factorial(np.sum(a)) / np.prod(factorial(a))\<close> on one row of
  integers: scipy's \<open>factorial\<close> returns a float, \<open>0\<close> on a negative integer and the
  rounded factorial otherwise, which is \<open>inf\<close> from \<open>171\<close> on.
\<close>

definition euler_beta :: "(float64 \<Rightarrow> float64) \<Rightarrow> float64 list \<Rightarrow> float64" where
  "euler_beta gammaln a = fexp (fsub (fsum (map gammaln a)) (gammaln (fsum a)))"

definition py_factorial :: "int \<Rightarrow> float64" where
  "py_factorial n = (if n < 0 then Fin 0 else round_sum (fact (nat n)))"

definition multinomial :: "int list \<Rightarrow> float64" where
  "multinomial a = fdiv (py_factorial (sum_list a)) (fprod (map py_factorial a))"

text \<open>
  The argument \<open>prior\<close> is a float or a vector; \<^verbatim>\<open>prior * np.ones(n_classes)\<close>
  broadcasts it to \<open>n_classes\<close> entries (a product with \<open>1.0\<close> is exact) and raises
  \<open>ValueError\<close> on a vector of another length (a vector of length one is broadcast
  as well).
\<close>

datatype prior_arg = PriorScalar real | PriorVector "real list"

definition broadcast_prior :: "prior_arg \<Rightarrow> nat \<Rightarrow> py_error + real list" where
  "broadcast_prior prior n =
     (case prior of
        PriorScalar p \<Rightarrow> Inr (replicate n p)
      | PriorVector v \<Rightarrow>
          if length v = n then Inr v
          else if length v = 1 then Inr (replicate n (v ! 0))
          else Inl ValueError)"

text \<open>
  \<^verbatim>\<open>np.bincount(x, weights)\<close>: entry \<open>m\<close> of the result is the sum of the weights
  at the positions where \<open>x\<close> is \<open>m\<close>, for \<open>m\<close> from \<open>0\<close> to the maximum of \<open>x\<close>;
  \<open>ValueError\<close> on a negative entry of \<open>x\<close>.
\<close>

definition bincount :: "int list \<Rightarrow> float64 list \<Rightarrow> py_error + float64 list" where
  "bincount x weights =
     (if list_ex (\<lambda>m. m < 0) x then Inl ValueError
      else if x = [] then Inr []
      else Inr (map (\<lambda>m. fsum (map snd (filter (\<lambda>p. fst p = m) (zip x weights))))
                  [0..Max (set x)]))"

text \<open>A list comprehension whose elements may raise: the first error is the result.\<close>

primrec py_all :: "(py_error + 'a) list \<Rightarrow> py_error + 'a list" where
  "py_all [] = Inr []"
| "py_all (r # rs) = py_bind r (\<lambda>x. py_bind (py_all rs) (\<lambda>xs. Inr (x # xs)))"

text \<open>
  The function, statement by statement. The class-frequency vectors, the cost matrix
  and the prior are arrays of finite floats. \<^verbatim>\<open>k_vec_list[0]\<close> raises on an empty
  list; \<^verbatim>\<open>np.vstack\<close> raises on no arrays (\<open>m_max < 0\<close>); the product
  \<^verbatim>\<open>k_l_vec_list @ C\<close> needs \<open>C\<close> to have \<open>n_classes\<close> rows and
  \<^verbatim>\<open>np.argmin\<close> needs at least one column; \<^verbatim>\<open>np.max(gains, axis=1)\<close> raises on
  rows of length zero (\<open>m_max = 0\<close>). The rows of \<open>k_vec_list\<close> all have the length
  of the first one. \<^verbatim>\<open>np.sum(combs, axis=1)\<close> adds the three vectors of a
  combination in their order: the frequencies with the prior, the label vector, the
  unit vector.
\<close>

definition cost_reduction ::
  "(float64 \<Rightarrow> float64) \<Rightarrow> matrix \<Rightarrow> matrix option \<Rightarrow> int \<Rightarrow> prior_arg
     \<Rightarrow> py_error + float64 list" where
  "cost_reduction gammaln k_vec_list C_arg m_max prior_arg =
     (case k_vec_list of
        [] \<Rightarrow> Inl IndexError
      | k0 # _ \<Rightarrow>
         (let n_classes = length k0;
              n_samples = length k_vec_list;
              C = (case C_arg of None \<Rightarrow> one_minus_eye n_classes | Some C' \<Rightarrow> C')
          in if m_max < 0 then Inl ValueError
             else
              (let l_vec_list = concat (map (\<lambda>m. gen_l_vec_list m (int n_classes)) [0..m_max]);
                   m_list = map sum_list l_vec_list;
                   n_l_vecs = length l_vec_list;
                   float_l = (\<lambda>l. map (\<lambda>x. Fin (real_of_int x)) l);
                   k_l_vec_list =
                     map (\<lambda>k. map (\<lambda>l. fvec_add (map Fin k) (float_l l)) l_vec_list) k_vec_list
               in if length C \<noteq> n_classes \<or> n_cols C = 0 then Inl ValueError
                  else
                   (let y_hats =
                          map (map (\<lambda>kl. np_argmin
                                 (map (\<lambda>j. fsum (map (\<lambda>i. fmul (kl ! i) (Fin (C ! i ! j)))
                                                   [0..<n_classes]))
                                    [0..<n_cols C])))
                            k_l_vec_list
                    in py_bind (broadcast_prior prior_arg n_classes) (\<lambda>prior.
                        let k_vec_list = map (\<lambda>k. fvec_add (map Fin k) (map Fin prior)) k_vec_list;
                            factor_1 = map (\<lambda>k. fdiv (Fin 1) (euler_beta gammaln k)) k_vec_list;
                            factor_2 = map multinomial l_vec_list;
                            factor_3 =
                              map (\<lambda>k. map (\<lambda>l. map (\<lambda>e.
                                     euler_beta gammaln (fvec_add (fvec_add k (float_l l)) (map Fin e)))
                                   (eye n_classes)) l_vec_list) k_vec_list
                        in py_bind
                             (py_all (map (\<lambda>k_idx.
                                py_bind
                                  (bincount m_list
                                     (map (\<lambda>l_idx. fmul (factor_2 ! l_idx)
                                            (fsum (map (\<lambda>i. fmul (Fin (C ! i ! (y_hats ! k_idx ! l_idx)))
                                                                (factor_3 ! k_idx ! l_idx ! i))
                                                     [0..<n_classes])))
                                        [0..<n_l_vecs]))
                                  (\<lambda>b. Inr (map (\<lambda>x. fmul (factor_1 ! k_idx) x) b)))
                                [0..<n_samples]))
                             (\<lambda>m_sums.
                                if m_max = 0 then Inl ValueError
                                else Inr (map (\<lambda>ms. np_max (map
                                             (\<lambda>m. fdiv (fsub (fadd (Fin 0) (ms ! 0)) (ms ! nat m))
                                                       (Fin (real_of_int m)))
                                             [1..m_max]))
                                          m_sums)))))))"

subsection \<open>Indexing\<close>

text \<open>
  \<^verbatim>\<open>a[i]\<close> with an integer: a negative index counts from the end, an index out of
  range raises \<open>IndexError\<close>. \<^verbatim>\<open>a[idx]\<close> with a list of integers selects the rows
  at these indices; \<^verbatim>\<open>a[:, idx]\<close> selects columns. \<^verbatim>\<open>np.concatenate(..., axis=1)\<close>
  joins two matrices with the same number of rows side by side.
\<close>

definition np_index :: "'a list \<Rightarrow> int \<Rightarrow> py_error + 'a" where
  "np_index xs i =
     (if 0 \<le> i \<and> i < int (length xs) then Inr (xs ! nat i)
      else if - int (length xs) \<le> i \<and> i < 0 then Inr (xs ! nat (i + int (length xs)))
      else Inl IndexError)"

definition np_take :: "'a list \<Rightarrow> int list \<Rightarrow> py_error + 'a list" where
  "np_take xs idx = py_all (map (np_index xs) idx)"

definition np_take_cols :: "'a list list \<Rightarrow> int list \<Rightarrow> py_error + 'a list list" where
  "np_take_cols A idx = py_all (map (\<lambda>r. np_take r idx) A)"

definition hconcat :: "matrix \<Rightarrow> matrix \<Rightarrow> py_error + matrix" where
  "hconcat A B =
     (if length A = length B then Inr (map (\<lambda>(a, b). a @ b) (zip A B)) else Inl ValueError)"

subsection \<open>Collaborators outside these sources\<close>

text \<open>
  A label is a class index or the missing label (\<open>None\<close>). The classifier and the
  kernel-based frequency estimator \<open>PWC\<close> are not part of these sources; they enter as
  functions from the training data and the query to the answer:
  \<^item> a classifier maps training instances, labels, weights and query instances to the
    predicted class indices (\<^verbatim>\<open>clf.fit(X, y, w)\<close> followed by \<^verbatim>\<open>predict\<close>), one
    per query instance;
  \<^item> an estimator maps training instances, labels, weights and a precomputed kernel
    matrix (one row per query instance) to class probabilities
    (\<^verbatim>\<open>fit\<close> followed by \<^verbatim>\<open>predict_proba\<close>), or raises.
\<close>

type_synonym label = "int option"

type_synonym 'x classifier = "'x list \<Rightarrow> label list \<Rightarrow> real list option \<Rightarrow> 'x list \<Rightarrow> int list"

type_synonym 'x estimator = "'x list \<Rightarrow> label list \<Rightarrow> real list \<Rightarrow> matrix \<Rightarrow> py_error + matrix"

text \<open>
  \<open>BayesianPriorLearner\<close>: \<^verbatim>\<open>fit\<close> calls the fit of \<open>PWC\<close> and then checks the
  prior: without one, the fitted prior is zero; with one, its shape must be
  \<^verbatim>\<open>(n_classes,)\<close> or \<open>ValueError\<close> is raised. \<^verbatim>\<open>predict_freq\<close> adds the
  fitted prior to the frequencies of \<open>PWC\<close>; \<open>pwc\<close> stands for the probabilities that
  the base class derives from them, given the fitted prior.
\<close>

definition bayesian_prior_learner ::
  "(real list \<Rightarrow> 'x list \<Rightarrow> label list \<Rightarrow> real list \<Rightarrow> matrix \<Rightarrow> matrix)
     \<Rightarrow> real list option \<Rightarrow> nat \<Rightarrow> 'x estimator" where
  "bayesian_prior_learner pwc prior n_classes X y sample_weight K =
     (case prior of
        None \<Rightarrow> Inr (pwc (replicate n_classes 0) X y sample_weight K)
      | Some p \<Rightarrow>
          if length p \<noteq> n_classes then Inl ValueError
          else Inr (pwc p X y sample_weight K))"

subsection \<open>The performance difference: \<open>_dperf\<close>\<close>

text \<open>
  With a decomposable metric the difference is the sum, over the evaluation instances
  whose prediction changed, of the probability-weighted difference of the cost columns
  of the old and the new prediction, divided by the number of evaluation instances.
  \<^verbatim>\<open>cost_matrix.T[p]\<close> is the column \<open>p\<close> of the cost matrix; both index
  expressions are evaluated, for all changed instances, before the product. The
  product of the selected rows of \<open>probs\<close> with the differences of the columns
  broadcasts: the rows of \<open>probs\<close> must have as many entries as the cost matrix has
  rows, unless one of the two numbers is one; otherwise the product raises
  \<open>ValueError\<close>, also when no prediction changed. With a metric that is not
  decomposable, the probability-weighted confusion matrices of the old and the new
  predictions are built and the performance function is applied to both. The
  predictions and the rows of \<open>probs\<close> correspond one to one.

  The values are reals, which have no \<open>nan\<close>: with no evaluation instance at all the
  source divides \<open>0.0\<close> by \<open>0\<close> and returns \<open>nan\<close>, so the model describes the calls
  with at least one evaluation instance.
\<close>

definition column :: "matrix \<Rightarrow> int \<Rightarrow> py_error + real list" where
  "column C p =
     (if 0 \<le> p \<and> p < int (n_cols C) then Inr (map (\<lambda>r. r ! nat p) C)
      else if - int (n_cols C) \<le> p \<and> p < 0
      then Inr (map (\<lambda>r. r ! nat (p + int (n_cols C))) C)
      else Inl IndexError)"

definition broadcast_mul :: "real list \<Rightarrow> real list \<Rightarrow> real list" where
  "broadcast_mul a b =
     (if length a = length b then map (\<lambda>(x, y). x * y) (zip a b)
      else if length a = 1 then map (\<lambda>y. a ! 0 * y) b
      else map (\<lambda>x. x * b ! 0) a)"

definition conf_mat :: "matrix \<Rightarrow> int list \<Rightarrow> matrix" where
  "conf_mat probs pred =
     map (\<lambda>c. map (\<lambda>y_pred. sum_list (map (\<lambda>(row, p). if p = int y_pred then row ! c else 0)
                                           (zip probs pred)))
                 [0..<n_cols probs])
       [0..<n_cols probs]"

definition dperf ::
  "matrix \<Rightarrow> int list \<Rightarrow> int list \<Rightarrow> bool \<Rightarrow> matrix option \<Rightarrow> (matrix \<Rightarrow> real) option
     \<Rightarrow> py_error + real" where
  "dperf probs pred_old pred_new decomposable cost_matrix perf_func =
     (if decomposable then
        (case cost_matrix of
           None \<Rightarrow> Inl AttributeError
         | Some C \<Rightarrow>
             (let changed = filter (\<lambda>(row, p_old, p_new). p_new \<noteq> p_old)
                              (zip probs (zip pred_old pred_new))
              in py_bind (py_all (map (\<lambda>(row, p_old, p_new). column C p_old) changed)) (\<lambda>cols_old.
                 py_bind (py_all (map (\<lambda>(row, p_old, p_new). column C p_new) changed)) (\<lambda>cols_new.
                   if n_cols probs = length C \<or> n_cols probs = 1 \<or> length C = 1
                   then Inr (sum_list (map (\<lambda>(row, c_old, c_new).
                                 sum_list (broadcast_mul row (map (\<lambda>(a, b). a - b) (zip c_old c_new))))
                               (zip (map fst changed) (zip cols_old cols_new)))
                             / real (length probs))
                   else Inl ValueError))))
      else
        (case perf_func of
           None \<Rightarrow> Inl TypeError
         | Some f \<Rightarrow> Inr (f (conf_mat probs pred_new) - f (conf_mat probs pred_old))))"

subsection \<open>Joint probabilities of simulated labelings\<close>

text \<open>
  \<open>_get_y_sim_list\<close>: with \<open>all_sim_labels_equal\<close> one labeling per class, the class
  repeated for all instances; otherwise the Cartesian product of the classes, in the
  order of \<^verbatim>\<open>itertools.product\<close>.
\<close>

definition get_y_sim_list :: "nat \<Rightarrow> nat \<Rightarrow> bool \<Rightarrow> int list list" where
  "get_y_sim_list n_classes n_instances all_sim_labels_equal =
     (if all_sim_labels_equal
      then map (\<lambda>c. replicate n_instances (int c)) [0..<n_classes]
      else product_lists (replicate n_instances (map int [0..<n_classes])))"

text \<open>
  The independent case (inline in \<open>nonmyopic_gain\<close>):
  \<^verbatim>\<open>np.prod(prob_cand_y[range(len(cand_idx)), y_sim_list], axis=1)\<close> with
  \<^verbatim>\<open>prob_cand_y = prob_cand_X[cand_idx, :]\<close>.
\<close>

definition independent_cand_prob :: "matrix \<Rightarrow> int list \<Rightarrow> int list list \<Rightarrow> py_error + real list" where
  "independent_cand_prob prob_cand_X cand_idx y_sim_list =
     py_bind (np_take prob_cand_X cand_idx) (\<lambda>prob_cand_y.
       py_all (map (\<lambda>y_sim.
                  py_bind (py_all (map (\<lambda>(b, lab). py_bind (np_index prob_cand_y (int b))
                                                       (\<lambda>row. np_index row lab))
                                     (zip [0..<length cand_idx] y_sim)))
                    (\<lambda>ps. Inr (prod_list ps)))
             y_sim_list))"

text \<open>
  \<open>dependent_cand_prob\<close>, with its nine parameters
  \<^verbatim>\<open>(X_c, cand_idx, y_sim_list, X, y, sample_weight, prob_estimator, K_c_x, K_c_c)\<close>:
  for every labeling, the product over the positions \<open>i_y\<close> of the probability that
  the estimator, fitted on the training data and the first \<open>i_y\<close> instances of the
  subset with their simulated labels, gives to the label of instance \<open>i_y\<close>.
\<close>

definition dependent_factor ::
  "'x estimator \<Rightarrow> 'x list \<Rightarrow> int list \<Rightarrow> int list \<Rightarrow> 'x list \<Rightarrow> label list \<Rightarrow> real list
     \<Rightarrow> matrix \<Rightarrow> matrix \<Rightarrow> nat \<Rightarrow> py_error + real" where
  "dependent_factor prob_estimator X_c cand_idx y_sim X y sample_weight K_c_x K_c_c i_y =
     py_bind (np_take X_c (take i_y cand_idx)) (\<lambda>X_prev.
     py_bind (np_take K_c_x (take 1 (drop i_y cand_idx))) (\<lambda>K_x.
     py_bind (np_take K_c_c (take 1 (drop i_y cand_idx))) (\<lambda>K_c.
     py_bind (np_take_cols K_c (take i_y cand_idx)) (\<lambda>K_cc.
     py_bind (hconcat K_x K_cc) (\<lambda>K_c_cx.
     py_bind (prob_estimator (X @ X_prev) (y @ map Some (take i_y y_sim))
                (sample_weight @ replicate i_y 1) K_c_cx) (\<lambda>prob_cand_y.
     py_bind (np_index prob_cand_y 0) (\<lambda>row.
       np_index row (y_sim ! i_y))))))))"

definition dependent_cand_prob ::
  "'x list \<Rightarrow> int list \<Rightarrow> int list list \<Rightarrow> 'x list \<Rightarrow> label list \<Rightarrow> real list
     \<Rightarrow> 'x estimator \<Rightarrow> matrix \<Rightarrow> matrix \<Rightarrow> py_error + real list" where
  "dependent_cand_prob X_c cand_idx y_sim_list X y sample_weight prob_estimator K_c_x K_c_c =
     py_all (map (\<lambda>y_sim.
                py_bind (py_all (map (dependent_factor prob_estimator X_c cand_idx y_sim X y
                                        sample_weight K_c_x K_c_c)
                                   [0..<length y_sim]))
                  (\<lambda>ps. Inr (prod_list ps)))
           y_sim_list)"

text \<open>
  A call with positional arguments only, of a function without default values: Python
  raises \<open>TypeError\<close>, before the body runs, unless the number of arguments is the
  number of parameters.
\<close>

definition call_positional :: "nat \<Rightarrow> nat \<Rightarrow> py_error + 'a \<Rightarrow> py_error + 'a" where
  "call_positional n_params n_args body = (if n_args = n_params then body else Inl TypeError)"

subsection \<open>The gain of candidate index sets: \<open>nonmyopic_gain\<close>\<close>

text \<open>A \<^verbatim>\<open>for\<close> loop over a list whose body updates a state and may raise.\<close>

primrec for_each :: "'a list \<Rightarrow> ('a \<Rightarrow> 's \<Rightarrow> py_error + 's) \<Rightarrow> 's \<Rightarrow> py_error + 's" where
  "for_each [] body s = Inr s"
| "for_each (x # xs) body s = py_bind (body x s) (for_each xs body)"

datatype gain_mode = Nonmyopic | Batch

text \<open>
  The body of the loop over the subsets of one row (lines 533 to 573), for one subset
  \<open>cand_idx\<close>: the training data extended by the subset, the kernel rows of the
  evaluation target, the joint probabilities of the simulated labelings, and, for every
  labeling, the product of the performance difference after refitting with the
  probability of the labeling. The result is the list of these products, which the
  source adds up in \<^verbatim>\<open>tmp_utilities[i_org_cand_idx, i_cand_idx]\<close>. The arguments
  after \<open>nonmyopic_independence\<close> are local variables of \<open>nonmyopic_gain\<close>.

  In the dependent case the source calls \<open>dependent_cand_prob\<close>, which has nine
  parameters, with ten positional arguments (the flag \<open>nonmyopic_independence\<close> is
  the tenth).
\<close>

definition subset_terms ::
  "'x classifier \<Rightarrow> 'x list \<Rightarrow> 'x list \<Rightarrow> label list \<Rightarrow> real list \<Rightarrow> 'x estimator \<Rightarrow> matrix
     \<Rightarrow> matrix \<Rightarrow> 'x estimator \<Rightarrow> 'x list option \<Rightarrow> matrix option \<Rightarrow> (matrix \<Rightarrow> real) option
     \<Rightarrow> bool \<Rightarrow> matrix \<Rightarrow> int list list list \<Rightarrow> 'x list \<Rightarrow> matrix \<Rightarrow> real list \<Rightarrow> int list
     \<Rightarrow> int list \<Rightarrow> bool \<Rightarrow> int list \<Rightarrow> py_error + real list" where
  "subset_terms clf X_c X y sample_weight prob_estimator_cand K_c_x K_c_c prob_estimator_eval
       X_eval cost_matrix perf_func nonmyopic_independence
       prob_cand_X y_sim_lists X_all K_e_cx_all sample_weight_all idx_lbld pred_old_cand
       decomposable cand_idx =
     (let idx_new = cand_idx @ idx_lbld in
      py_bind (np_take X_all idx_new) (\<lambda>X_new.
      py_bind (case X_eval of
                 None \<Rightarrow> py_bind (np_take K_e_cx_all cand_idx)
                           (\<lambda>rows. np_take_cols rows idx_new)
               | Some X_e \<Rightarrow> np_take_cols K_e_cx_all idx_new) (\<lambda>K_new.
      py_bind (np_take sample_weight_all idx_new) (\<lambda>sample_weight_new.
      py_bind (np_index y_sim_lists (int (length cand_idx) - 1)) (\<lambda>y_sim_list.
      py_bind (if nonmyopic_independence
               then independent_cand_prob prob_cand_X cand_idx y_sim_list
               else call_positional 9 10
                      (dependent_cand_prob X_c cand_idx y_sim_list X y sample_weight
                         prob_estimator_cand K_c_x K_c_c)) (\<lambda>prob_y_sim.
        py_all (map (\<lambda>(i_y_sim, y_sim).
           let y_new = map Some y_sim @ y in
           py_bind (prob_estimator_eval X_new y_new sample_weight_new K_new)
             (\<lambda>prob_eval.
           py_bind (case X_eval of
                      None \<Rightarrow>
                        py_bind (np_take X_c cand_idx) (\<lambda>X_q.
                        py_bind (np_take pred_old_cand cand_idx) (\<lambda>pred_old.
                          Inr (clf X_new y_new (Some sample_weight_new) X_q, pred_old)))
                    | Some X_e \<Rightarrow>
                        Inr (clf X_new y_new (Some sample_weight_new) X_e, pred_old_cand))
             (\<lambda>(pred_new, pred_old).
           py_bind (dperf prob_eval pred_old pred_new decomposable cost_matrix perf_func)
             (\<lambda>d.
           py_bind (np_index prob_y_sim (int i_y_sim)) (\<lambda>p. Inr (d * p))))))
         (enumerate 0 y_sim_list))))))))"

text \<open>
  The function in the order of its statements. \<open>cand_idx_set\<close> is a two-dimensional
  integer array, given by its rows, which all have the same length; built from no rows
  it is one-dimensional, and \<^verbatim>\<open>cand_idx_set.shape[1]\<close> raises. \<open>np_empty\<close> gives
  the content of the uninitialised array \<^verbatim>\<open>np.empty(...)\<close>. The argument
  \<open>gain_mode\<close> is one of the two strings that the callers pass. \<open>prob_cand_X\<close> is
  assigned only with \<open>nonmyopic_independence\<close> and read only then; the empty matrix
  stands for the unassigned variable.

  The division \<^verbatim>\<open>tmp_utilities /= np.arange(1, tmp_utilities.shape[1] + 1)\<close> stands
  in the body of the loop over the rows of \<open>cand_idx_set\<close>, after the loop over the
  subsets of a row, and divides the whole array.
\<close>

definition nonmyopic_gain ::
  "(nat \<Rightarrow> nat \<Rightarrow> real) \<Rightarrow> 'x classifier \<Rightarrow> 'x list \<Rightarrow> int list list \<Rightarrow> 'x list \<Rightarrow> label list
     \<Rightarrow> real list option \<Rightarrow> 'x estimator \<Rightarrow> matrix \<Rightarrow> matrix \<Rightarrow> 'x estimator \<Rightarrow> matrix \<Rightarrow> matrix
     \<Rightarrow> 'x list option \<Rightarrow> nat \<Rightarrow> string \<Rightarrow> matrix option \<Rightarrow> (matrix \<Rightarrow> real) option
     \<Rightarrow> gain_mode \<Rightarrow> bool \<Rightarrow> bool \<Rightarrow> py_error + matrix" where
  "nonmyopic_gain np_empty clf X_c cand_idx_set X y sample_weight_arg
       prob_estimator_cand K_c_x K_c_c prob_estimator_eval K_e_x K_e_c X_eval n_classes
       metric cost_matrix perf_func gain_mode nonmyopic_independence all_sim_labels_equal =
     (let pred_old_cand =
            (case X_eval of
               None \<Rightarrow> clf X y sample_weight_arg X_c
             | Some X_e \<Rightarrow> clf X y sample_weight_arg X_e);
          sample_weight =
            (case sample_weight_arg of None \<Rightarrow> replicate (length X) 1 | Some w \<Rightarrow> w);
          n_rows = length cand_idx_set;
          n_columns = (case cand_idx_set of [] \<Rightarrow> 0 | r # _ \<Rightarrow> length r);
          tmp_utilities =
            (case gain_mode of
               Nonmyopic \<Rightarrow> map (\<lambda>i. map (np_empty i) [0..<n_columns]) [0..<n_rows]
             | Batch \<Rightarrow> map (\<lambda>i. [np_empty i 0]) [0..<n_rows])
      in
      py_bind (if nonmyopic_independence
               then prob_estimator_cand X y sample_weight K_c_x
               else Inr []) (\<lambda>prob_cand_X.
      py_bind (if cand_idx_set = [] then Inl IndexError
               else Inr (map (\<lambda>n. get_y_sim_list n_classes n all_sim_labels_equal)
                           [1..<n_columns + 1])) (\<lambda>y_sim_lists.
      py_bind (hconcat K_c_c K_c_x) (\<lambda>K_c_cx_all.
      py_bind (hconcat K_e_c K_e_x) (\<lambda>K_e_cx_all.
        let X_all = X_c @ X;
            sample_weight_all = replicate (length X_c) 1 @ sample_weight;
            idx_lbld = map int [length X_c..<length X_c + length X];
            decomposable = (metric = ''misclassification-loss'')
        in
        for_each (enumerate 0 cand_idx_set) (\<lambda>(i_org_cand_idx, org_cand_idx) tmp_utilities.
          let cand_idx_subsets =
                (case gain_mode of
                   Nonmyopic \<Rightarrow> map (\<lambda>i. take (i + 1) org_cand_idx) [0..<length org_cand_idx]
                 | Batch \<Rightarrow> [org_cand_idx])
          in
          py_bind
            (for_each (enumerate 0 cand_idx_subsets) (\<lambda>(i_cand_idx, cand_idx) tmp_utilities.
               py_bind (subset_terms clf X_c X y sample_weight prob_estimator_cand K_c_x K_c_c
                          prob_estimator_eval X_eval cost_matrix perf_func
                          nonmyopic_independence prob_cand_X y_sim_lists X_all K_e_cx_all
                          sample_weight_all idx_lbld pred_old_cand decomposable cand_idx)
                 (\<lambda>terms.
                    Inr (tmp_utilities[i_org_cand_idx :=
                           (tmp_utilities ! i_org_cand_idx)[i_cand_idx := sum_list terms]])))
               tmp_utilities)
            (\<lambda>tmp_utilities.
               Inr (case gain_mode of
                      Nonmyopic \<Rightarrow>
                        map (\<lambda>row. map (\<lambda>(j, u). u / real (j + 1)) (enumerate 0 row))
                          tmp_utilities
                    | Batch \<Rightarrow> tmp_utilities)))
          tmp_utilities)))))"

subsection \<open>The query strategy \<open>XPAL\<close>\<close>

text \<open>The attributes of the strategy object that \<open>query\<close> reads.\<close>

record xpal =
  self_metric :: string
  self_cost_vector :: "ndarray option"
  self_cost_matrix :: "ndarray option"
  self_custom_perf_func :: "(matrix \<Rightarrow> real) option"
  self_prior_cand :: real
  self_prior_eval :: real
  self_batch_mode :: string
  self_all_sim_labels_equal :: bool
  self_nonmyopic_look_ahead :: int
  self_nonmyopic_neighbors :: string
  self_nonmyopic_independence :: bool

text \<open>
  What \<open>query\<close> uses and these sources do not contain: the classifier \<open>self.clf\<close>,
  the base class \<open>PWC\<close> of the estimators, \<open>pairwise_kernels\<close> with the metric of
  the strategy (it may raise), \<open>rand_argmax\<close>, numpy's \<open>argsort\<close>, \<open>linalg.inv\<close>
  and \<open>empty\<close>, \<open>check_cost_matrix\<close>, the number of classes that the label encoder
  finds, the integer that numpy stores when \<open>nan\<close> is written into an integer array
  (\<^verbatim>\<open>np.full([batch_size], np.nan, dtype=int)\<close>; the value depends on the platform),
  and a real number in place of the float \<open>nan\<close> where a float array is filled with it.
\<close>

record 'x env =
  env_clf :: "'x classifier"
  env_pwc :: "real list \<Rightarrow> 'x list \<Rightarrow> label list \<Rightarrow> real list \<Rightarrow> matrix \<Rightarrow> matrix"
  env_pairwise_kernels :: "'x list \<Rightarrow> 'x list \<Rightarrow> py_error + matrix"
  env_rand_argmax :: "real list \<Rightarrow> nat"
  env_argsort :: "real list \<Rightarrow> nat list"
  env_linalg_inv :: "matrix \<Rightarrow> py_error + matrix"
  env_check_cost_matrix :: "ndarray \<Rightarrow> nat \<Rightarrow> py_error + unit"
  env_n_classes :: nat
  env_nan_as_int :: int
  env_nan :: real
  env_np_empty :: "nat \<Rightarrow> nat \<Rightarrow> real"

text \<open>
  The statements of \<open>_validate_input\<close> on the batch size, on their own (lines 268 to
  276: \<open>check_scalar\<close> with \<open>min_val = 1\<close>, then the comparison with the number of
  candidates): the batch size in effect, and the warnings issued. The method as a
  whole is not modelled: in \<open>query\<close> its call is commented out, and its earlier
  statements read \<open>self._classes\<close> and \<open>self._missing_label\<close>, attributes that
  \<open>XPAL.__init__\<close> does not set.
\<close>

datatype warning = BatchSizeLargerThanCandidates int nat

definition validate_batch_size :: "nat \<Rightarrow> int \<Rightarrow> py_error + int \<times> warning list" where
  "validate_batch_size n_cand batch_size =
     (if batch_size < 1 then Inl ValueError
      else if int n_cand < batch_size
      then Inr (int n_cand, [BatchSizeLargerThanCandidates batch_size n_cand])
      else Inr (batch_size, []))"

text \<open>\<^verbatim>\<open>a[mask]\<close> with a boolean mask, which must have the length of \<open>a\<close>.\<close>

definition np_mask :: "'a list \<Rightarrow> bool list \<Rightarrow> py_error + 'a list" where
  "np_mask xs bool_mask =
     (if length bool_mask = length xs then Inr (map fst (filter snd (zip xs bool_mask)))
      else Inl IndexError)"

text \<open>\<^verbatim>\<open>xs[:M]\<close>: a negative bound counts from the end.\<close>

definition py_take :: "int \<Rightarrow> 'a list \<Rightarrow> 'a list" where
  "py_take M xs = (if 0 \<le> M then take (nat M) xs else take (length xs - nat (- M)) xs)"

text \<open>
  \<open>_get_nonmyopic_cand_set\<close>. With \<open>same\<close> each candidate is repeated \<open>M\<close> times
  (\<^verbatim>\<open>np.tile\<close> raises on a negative count). With \<open>nearest\<close> the source indexes
  \<open>sim_cand\<close> by \<open>cand_idx\<close> in both axes, sorts every row by decreasing similarity
  and keeps the first \<open>M\<close> positions of the sorted order.
\<close>

definition get_nonmyopic_cand_set ::
  "(real list \<Rightarrow> nat list) \<Rightarrow> string \<Rightarrow> int list \<Rightarrow> matrix \<Rightarrow> int \<Rightarrow> py_error + int list list" where
  "get_nonmyopic_cand_set argsort neighbors cand_idx sim_cand M =
     (if neighbors = ''same'' then
        (if M < 0 then Inl ValueError else Inr (map (\<lambda>c. replicate (nat M) c) cand_idx))
      else if neighbors = ''nearest'' then
        py_bind (np_take sim_cand cand_idx) (\<lambda>rows.
        py_bind (np_take_cols rows cand_idx) (\<lambda>sub.
          Inr (map (\<lambda>row. py_take M (map int (argsort (map uminus row)))) sub)))
      else Inl ValueError)"

text \<open>
  \<^verbatim>\<open>itertools.permutations(range(n), r)\<close>: the \<open>r\<close>-length arrangements of distinct
  positions, in lexicographic order of the positions.
\<close>

fun permutations :: "'a list \<Rightarrow> nat \<Rightarrow> 'a list list" where
  "permutations xs 0 = [[]]"
| "permutations xs (Suc r) =
     concat (map (\<lambda>i. map (\<lambda>p. xs ! i # p) (permutations (take i xs @ drop (Suc i) xs) r))
               [0..<length xs])"

text \<open>\<^verbatim>\<open>np.nanmax(a, axis=1)\<close> raises on rows of length zero.\<close>

definition nanmax_rows :: "matrix \<Rightarrow> py_error + real list" where
  "nanmax_rows A = py_all (map (\<lambda>row. if row = [] then Inl ValueError else Inr (Max (set row))) A)"

text \<open>
  What \<open>query\<close> has computed when it reaches the test of \<open>batch_mode\<close> (line 378): the
  resolved metric, the labeled training data, the kernel matrices and the two
  estimators.
\<close>

record 'x prepared =
  p_metric :: string
  p_cost_matrix :: "ndarray option"
  p_perf_func :: "(matrix \<Rightarrow> real) option"
  p_X :: "'x list"
  p_y :: "label list"
  p_sample_weight :: "real list"
  p_sim_c_x :: matrix
  p_sim_c_c :: matrix
  p_sim_e_x :: matrix
  p_sim_e_c :: matrix
  p_prob_estimator_cand :: "'x estimator"
  p_prob_estimator_eval :: "'x estimator"

text \<open>
  Lines 304 to 376. The call of \<open>_transform_metric\<close> passes \<open>self.cost_vector\<close> in
  the second position and \<open>self.cost_matrix\<close> in the third, while the parameters of
  the function are \<open>cost_matrix\<close> and then \<open>cost_vector\<close>. \<open>is_labeled\<close> marks the
  labels that are not missing; when no label is present the first mask entry is set.
  Both estimators are built with \<open>self._prior_cand\<close>. The metric dictionary is set to
  \<^verbatim>\<open>{}\<close> when it is \<open>None\<close>, so the bandwidth branch is not taken.
\<close>

definition query_setup ::
  "'x env \<Rightarrow> xpal \<Rightarrow> 'x list \<Rightarrow> 'x list \<Rightarrow> label list \<Rightarrow> 'x list option \<Rightarrow> int
     \<Rightarrow> real list option \<Rightarrow> py_error + 'x prepared" where
  "query_setup env self X_cand X y X_eval batch_size sample_weight_arg =
     py_bind (transform_metric (env_check_cost_matrix env) (self_metric self)
                (self_cost_vector self) (self_cost_matrix self) (self_custom_perf_func self)
                (env_n_classes env)) (\<lambda>(metric, cost_matrix, perf_func).
       let sample_weight =
             (case sample_weight_arg of None \<Rightarrow> replicate (length X) 1 | Some w \<Rightarrow> w)
       in
       py_bind (calculate_optimal_prior (env_linalg_inv env) cost_matrix) (\<lambda>prior.
         let prior_cand = map (\<lambda>p. self_prior_cand self * p) prior;
             prior_eval = map (\<lambda>p. self_prior_eval self * p) prior;
             K = env_pairwise_kernels env;
             is_labeled = map (\<lambda>l. l \<noteq> None) y
         in
         py_bind (if list_ex (\<lambda>b. b) is_labeled then Inr is_labeled
                  else if is_labeled = [] then Inl IndexError
                  else Inr (is_labeled[0 := True])) (\<lambda>mask_lbld.
         py_bind (np_mask X mask_lbld) (\<lambda>X_lbld.
         py_bind (np_mask y mask_lbld) (\<lambda>y_lbld.
         py_bind (np_mask sample_weight mask_lbld) (\<lambda>sample_weight_lbld.
         py_bind (K X_cand X_lbld) (\<lambda>sim_c_x.
         py_bind (case X_eval of
                    None \<Rightarrow> py_bind (K X_cand X_cand) (\<lambda>sim_e_c. Inr (sim_c_x, sim_e_c))
                  | Some X_e \<Rightarrow>
                      py_bind (K X_e X_lbld) (\<lambda>sim_e_x.
                      py_bind (K X_e X_cand) (\<lambda>sim_e_c. Inr (sim_e_x, sim_e_c))))
           (\<lambda>(sim_e_x, sim_e_c).
         py_bind (if batch_size > 1 \<or> self_nonmyopic_look_ahead self > 1
                  then K X_cand X_cand
                  else Inr (replicate (length X_cand) (replicate (length X_cand) (env_nan env))))
           (\<lambda>sim_c_c.
           Inr \<lparr> p_metric = metric, p_cost_matrix = cost_matrix, p_perf_func = perf_func,
                 p_X = X_lbld, p_y = y_lbld, p_sample_weight = sample_weight_lbld,
                 p_sim_c_x = sim_c_x, p_sim_c_c = sim_c_c,
                 p_sim_e_x = sim_e_x, p_sim_e_c = sim_e_c,
                 p_prob_estimator_cand =
                   bayesian_prior_learner (env_pwc env) (Some prior_cand) (env_n_classes env),
                 p_prob_estimator_eval =
                   bayesian_prior_learner (env_pwc env) (Some prior_cand) (env_n_classes env)
               \<rparr>)))))))))"

text \<open>
  The cost matrix that reaches \<open>nonmyopic_gain\<close> is two-dimensional or absent: with a
  one-dimensional array the prior derivation has raised before.
\<close>

definition as_matrix :: "ndarray option \<Rightarrow> matrix option" where
  "as_matrix a = (case a of Some (Arr2 C) \<Rightarrow> Some C | _ \<Rightarrow> None)"

text \<open>
  The set of candidates that a greedy step evaluates. The source creates
  \<open>best_indices\<close> anew, filled with \<open>nan\<close> cast to an integer, at the start of every
  step (line 419) and then removes its entries from the candidate indices
  (\<^verbatim>\<open>np.setdiff1d\<close>, line 420).
\<close>

definition fresh_best_indices :: "int \<Rightarrow> int \<Rightarrow> int list" where
  "fresh_best_indices nan_as_int batch_size = replicate (nat batch_size) nan_as_int"

definition unlabeled_cand_idx_of :: "nat \<Rightarrow> int list \<Rightarrow> int list" where
  "unlabeled_cand_idx_of n_cand best_indices =
     filter (\<lambda>i. i \<notin> set best_indices) (map int [0..<n_cand])"

text \<open>The result of \<open>query\<close>: the selected indices and the utilities, where \<open>None\<close>
  is an entry that holds \<open>nan\<close>.\<close>

datatype int_array = IArr1 "int list" | IArr2 "int list list"

type_synonym query_result = "int_array \<times> real option list list"

text \<open>One step of the greedy loop (lines 417 to 458); the state of the previous step
  is overwritten.\<close>

definition greedy_step ::
  "'x env \<Rightarrow> xpal \<Rightarrow> 'x prepared \<Rightarrow> 'x list \<Rightarrow> 'x list option \<Rightarrow> int \<Rightarrow> nat
     \<Rightarrow> query_result option \<Rightarrow> py_error + query_result option" where
  "greedy_step env self p X_cand X_eval batch_size i_greedy previous =
     (let utilities = replicate (nat batch_size) (replicate (length X_cand) None);
          best_indices = fresh_best_indices (env_nan_as_int env) batch_size;
          unlabeled_cand_idx = unlabeled_cand_idx_of (length X_cand) best_indices
      in
      py_bind (np_take (p_sim_c_c p) unlabeled_cand_idx) (\<lambda>rows.
      py_bind (np_take_cols rows unlabeled_cand_idx) (\<lambda>sim_cand.
      py_bind (get_nonmyopic_cand_set (env_argsort env) (self_nonmyopic_neighbors self)
                 unlabeled_cand_idx sim_cand (self_nonmyopic_look_ahead self)) (\<lambda>cand_idx_set.
        let cand_idx_set = map (\<lambda>c. take i_greedy best_indices @ c) cand_idx_set in
        py_bind (nonmyopic_gain (env_np_empty env) (env_clf env) X_cand cand_idx_set
                   (p_X p) (p_y p) (Some (p_sample_weight p))
                   (p_prob_estimator_cand p) (p_sim_c_x p) (p_sim_c_c p)
                   (p_prob_estimator_eval p) (p_sim_e_x p) (p_sim_e_c p)
                   X_eval (env_n_classes env) (p_metric p) (as_matrix (p_cost_matrix p))
                   (p_perf_func p) Nonmyopic
                   (self_nonmyopic_independence self) (self_all_sim_labels_equal self))
          (\<lambda>tmp_utilities.
        py_bind (nanmax_rows tmp_utilities) (\<lambda>tmp_utilities.
          let cur_best_idx = env_rand_argmax env tmp_utilities in
          py_bind (np_index unlabeled_cand_idx (int cur_best_idx)) (\<lambda>best.
            let best_indices = best_indices[i_greedy := best];
                utilities = utilities[i_greedy :=
                  map (\<lambda>c. map_option (\<lambda>k. tmp_utilities ! k)
                              (if int c \<in> set unlabeled_cand_idx
                               then Some (first_index (\<lambda>u. u = int c) unlabeled_cand_idx)
                               else None))
                    [0..<length X_cand]]
            in Inr (Some (IArr1 best_indices, utilities)))))))))"

text \<open>
  Lines 378 to 466: the choice by \<open>batch_mode\<close>. In the mode \<open>full\<close> the test of
  \<open>nonmyopic_look_ahead\<close> comes first; \<^verbatim>\<open>itertools.permutations\<close> raises on a
  negative length. In the mode \<open>greedy\<close> the names \<open>best_indices\<close> and \<open>utilities\<close>
  are bound in the loop only.
\<close>

definition query_select ::
  "'x env \<Rightarrow> xpal \<Rightarrow> 'x list \<Rightarrow> 'x list option \<Rightarrow> int \<Rightarrow> 'x prepared
     \<Rightarrow> py_error + query_result" where
  "query_select env self X_cand X_eval batch_size p =
     (if self_batch_mode self = ''full'' then
        (if self_nonmyopic_look_ahead self > 1 then Inl NotImplementedError
         else if batch_size < 0 then Inl ValueError
         else
          (let cand_idx_set =
                 map (map int) (permutations [0..<length X_cand] (nat batch_size))
           in
           py_bind (nonmyopic_gain (env_np_empty env) (env_clf env) X_cand cand_idx_set
                      (p_X p) (p_y p) (Some (p_sample_weight p))
                      (p_prob_estimator_cand p) (p_sim_c_x p) (p_sim_c_c p)
                      (p_prob_estimator_eval p) (p_sim_e_x p) (p_sim_e_c p)
                      X_eval (env_n_classes env) (p_metric p) (as_matrix (p_cost_matrix p))
                      (p_perf_func p) Batch
                      (self_nonmyopic_independence self) (self_all_sim_labels_equal self))
             (\<lambda>batch_utilities.
              let utilities = replicate (nat batch_size) (replicate (length X_cand) None) in
              py_bind (nanmax_rows batch_utilities) (\<lambda>tmp_utilities.
                let cur_best_idx = env_rand_argmax env tmp_utilities in
                py_bind (np_take cand_idx_set [int cur_best_idx]) (\<lambda>best_indices.
                  Inr (IArr2 best_indices, utilities))))))
      else if self_batch_mode self = ''greedy'' then
        py_bind (for_each [0..<nat batch_size]
                   (greedy_step env self p X_cand X_eval batch_size) None)
          (\<lambda>final. case final of
                      None \<Rightarrow> Inl UnboundLocalError
                    | Some r \<Rightarrow> Inr r)
      else Inl ValueError)"

text \<open>\<open>XPAL.query\<close>: the preparation, then the selection.\<close>

definition query ::
  "'x env \<Rightarrow> xpal \<Rightarrow> 'x list \<Rightarrow> 'x list \<Rightarrow> label list \<Rightarrow> 'x list option \<Rightarrow> int
     \<Rightarrow> real list option \<Rightarrow> py_error + query_result" where
  "query env self X_cand X y X_eval batch_size sample_weight =
     py_bind (query_setup env self X_cand X y X_eval batch_size sample_weight)
       (query_select env self X_cand X_eval batch_size)"

subsection \<open>Collaborators for the evaluations at concrete inputs\<close>

text \<open>
  A majority-vote classifier, a frequency estimator that adds the prior to the class
  counts, a constant kernel, the first maximum, a stable \<open>argsort\<close>, the inverse of the
  two-class error matrix, and \<open>nan\<close> cast to a 64-bit integer on x86-64.
\<close>

definition example_clf :: "nat classifier" where
  "example_clf X y w X_q =
     map (\<lambda>_. if length (filter (\<lambda>l. l = Some 1) y) > length (filter (\<lambda>l. l = Some 0) y)
               then 1 else 0) X_q"

definition example_pwc :: "real list \<Rightarrow> nat list \<Rightarrow> label list \<Rightarrow> real list \<Rightarrow> matrix \<Rightarrow> matrix" where
  "example_pwc prior X y w K =
     (let freq = map (\<lambda>c. prior ! c + real (length (filter (\<lambda>l. l = Some (int c)) y)))
                   [0..<length prior]
      in map (\<lambda>_. map (\<lambda>f. f / sum_list freq) freq) K)"

definition example_env :: "nat env" where
  "example_env =
     \<lparr> env_clf = example_clf,
       env_pwc = example_pwc,
       env_pairwise_kernels = (\<lambda>A B. Inr (replicate (length A) (replicate (length B) 1))),
       env_rand_argmax = (\<lambda>u. first_index (\<lambda>x. x = Max (set u)) u),
       env_argsort = (\<lambda>row. map snd (sort_key fst (zip row [0..<length row]))),
       env_linalg_inv = (\<lambda>C. if C = [[0, 1], [1, 0]] then Inr C else Inl LinAlgError),
       env_check_cost_matrix = (\<lambda>_ _. Inr ()),
       env_n_classes = 2,
       env_nan_as_int = - 9223372036854775808,
       env_nan = 0,
       env_np_empty = (\<lambda>_ _. 0) \<rparr>"

definition example_xpal :: xpal where
  "example_xpal =
     \<lparr> self_metric = ''error'', self_cost_vector = None, self_cost_matrix = None,
       self_custom_perf_func = None, self_prior_cand = 1 / 1000, self_prior_eval = 1 / 1000,
       self_batch_mode = ''greedy'', self_all_sim_labels_equal = True,
       self_nonmyopic_look_ahead = 1, self_nonmyopic_neighbors = ''nearest'',
       self_nonmyopic_independence = True \<rparr>"

definition example_est :: "nat estimator" where
  "example_est = bayesian_prior_learner example_pwc (Some [1 / 2000, 1 / 2000]) 2"

definition ones_matrix :: "nat \<Rightarrow> nat \<Rightarrow> matrix" where
  "ones_matrix r c = replicate r (replicate c 1)"

text \<open>
  Log-gamma at the positive integers, \<open>ln ((x - 1)!)\<close>, as a real function and as the
  function on floats that returns it at the finite arguments.
\<close>

definition lgamma_int :: "real \<Rightarrow> real" where
  "lgamma_int x = ln (fact (nat \<lfloor>x\<rfloor> - 1))"

definition gammaln_int :: "float64 \<Rightarrow> float64" where
  "gammaln_int a =
     (case a of Fin x \<Rightarrow> Fin (lgamma_int x) | PInf \<Rightarrow> PInf | NInf \<Rightarrow> PInf | NaN \<Rightarrow> NaN)"

subsection \<open>Reference notions used in the statements\<close>

text \<open>
  The vectors of length \<open>i\<close> with non-negative entries whose sum does not exceed \<open>m\<close>
  (what the rounds of \<open>_gen_l_vec_list\<close> hold after \<open>i\<close> rounds), and the label
  vectors proper: length \<open>n\<close>, non-negative entries, sum exactly \<open>m\<close>.
\<close>

definition bounded_vecs :: "int \<Rightarrow> nat \<Rightarrow> int list set" where
  "bounded_vecs m i = {v. length v = i \<and> (\<forall>x\<in>set v. 0 \<le> x) \<and> sum_list v \<le> m}"

definition label_vecs :: "int \<Rightarrow> nat \<Rightarrow> int list set" where
  "label_vecs m n = {v. length v = n \<and> (\<forall>x\<in>set v. 0 \<le> x) \<and> sum_list v = m}"

text \<open>The column sums of a matrix (of the inverse cost matrix, in the statement on the prior).\<close>

definition col_sums :: "matrix \<Rightarrow> real list" where
  "col_sums A = map (\<lambda>j. sum_list (map (\<lambda>r. r ! j) A)) [0..<n_cols A]"

text \<open>
  The closed form as the specification words it, over the reals. \<open>beta_fn\<close> is
  \<open>B(a) = exp(\<Sum>i. logGamma(a\<^sub>i) - logGamma(\<Sum>i. a\<^sub>i))\<close> for a log-gamma function \<open>lg\<close>,
  \<open>multinomial_coeff\<close> is \<open>(\<Sum>i. l\<^sub>i)! / \<Prod>i. (l\<^sub>i!)\<close>. \<open>y_hat\<close> is the cost-optimal
  decision for the counts \<open>k + l\<close> (without the prior), \<open>outcome_cost\<close> the
  contribution \<open>Multinomial(l) * (\<Sum>j. C[j, y_hat] * B(k + prior + l + e\<^sub>j))\<close> of one label
  vector, \<open>expected_cost\<close> the expected cost after \<open>m\<close> hypothetical labels:
  \<open>1 / B(k + prior)\<close> times the sum of the contributions of all label vectors that sum
  to \<open>m\<close>; \<open>max_normalized_gain\<close> is the largest gain per acquired label over
  \<open>m = 1, ..., m_max\<close>.
\<close>

definition vec_add :: "real list \<Rightarrow> real list \<Rightarrow> real list" where
  "vec_add a b = map (\<lambda>(x, y). x + y) (zip a b)"

definition argmin :: "real list \<Rightarrow> nat" where
  "argmin xs = first_index (\<lambda>x. x = Min (set xs)) xs"

definition beta_fn :: "(real \<Rightarrow> real) \<Rightarrow> real list \<Rightarrow> real" where
  "beta_fn lg a = exp (sum_list (map lg a) - lg (sum_list a))"

definition multinomial_coeff :: "int list \<Rightarrow> real" where
  "multinomial_coeff l = fact (nat (sum_list l)) / prod_list (map (\<lambda>x. fact (nat x)) l)"

definition unit_vec :: "nat \<Rightarrow> nat \<Rightarrow> real list" where
  "unit_vec n j = map (\<lambda>i. if j = i then 1 else 0) [0..<n]"

definition y_hat :: "matrix \<Rightarrow> real list \<Rightarrow> int list \<Rightarrow> nat" where
  "y_hat C k l =
     argmin (map (\<lambda>j. \<Sum>i<length k. (k ! i + real_of_int (l ! i)) * C ! i ! j) [0..<n_cols C])"

definition posterior :: "real list \<Rightarrow> real list \<Rightarrow> int list \<Rightarrow> nat \<Rightarrow> real list" where
  "posterior k prior l j =
     vec_add (vec_add (vec_add k prior) (map real_of_int l)) (unit_vec (length k) j)"

definition outcome_cost ::
  "(real list \<Rightarrow> real) \<Rightarrow> matrix \<Rightarrow> real list \<Rightarrow> real list \<Rightarrow> int list \<Rightarrow> real" where
  "outcome_cost B C k prior l =
     multinomial_coeff l * (\<Sum>j<length k. C ! j ! y_hat C k l * B (posterior k prior l j))"

definition expected_cost ::
  "(real list \<Rightarrow> real) \<Rightarrow> matrix \<Rightarrow> real list \<Rightarrow> real list \<Rightarrow> int \<Rightarrow> real" where
  "expected_cost B C k prior m =
     1 / B (vec_add k prior) * (\<Sum>l \<in> label_vecs m (length k). outcome_cost B C k prior l)"

definition max_normalized_gain ::
  "(real list \<Rightarrow> real) \<Rightarrow> matrix \<Rightarrow> real list \<Rightarrow> real list \<Rightarrow> int \<Rightarrow> real" where
  "max_normalized_gain B C k prior m_max =
     Max ((\<lambda>m. (expected_cost B C k prior 0 - expected_cost B C k prior m) / real_of_int m)
            ` {1..m_max})"

text \<open>
  The floating-point range. A real is \<open>in_range\<close> when its magnitude is at most
  the largest float, \<open>normal_or_zero\<close> when it is zero or has the magnitude of a
  normal float; the terms of a sum are \<open>sum_in_range\<close> when their magnitudes add up
  to at most the largest float, so that no partial sum overflows in whatever order
  they are added.
\<close>

definition float_max :: real where
  "float_max = 2 ^ 1024 - 2 ^ 971"

definition min_normal :: real where
  "min_normal = 1 / 2 ^ 1022"

definition in_range :: "real \<Rightarrow> bool" where
  "in_range x \<longleftrightarrow> \<bar>x\<bar> \<le> float_max"

definition normal_or_zero :: "real \<Rightarrow> bool" where
  "normal_or_zero x \<longleftrightarrow> x = 0 \<or> (min_normal \<le> \<bar>x\<bar> \<and> \<bar>x\<bar> \<le> float_max)"

definition sum_in_range :: "real list \<Rightarrow> bool" where
  "sum_in_range xs \<longleftrightarrow> sum_list (map abs xs) \<le> float_max"

text \<open>
  The evaluation of \<open>euler_beta\<close> at a row \<open>a\<close> stays in the range: \<open>gammaln\<close>
  returns the finite values \<open>lg\<close> at the entries and at their sum, the two sums and
  the difference do not overflow, and the exponential is zero or normal.
\<close>

definition beta_in_range :: "(float64 \<Rightarrow> float64) \<Rightarrow> (real \<Rightarrow> real) \<Rightarrow> real list \<Rightarrow> bool" where
  "beta_in_range gammaln lg a \<longleftrightarrow>
     (\<forall>x\<in>set a. gammaln (Fin x) = Fin (lg x)) \<and>
     gammaln (Fin (sum_list a)) = Fin (lg (sum_list a)) \<and>
     sum_in_range a \<and> sum_in_range (map lg a) \<and>
     in_range (sum_list (map lg a) - lg (sum_list a)) \<and>
     normal_or_zero (beta_fn lg a)"

text \<open>
  The decision for the counts \<open>k + l\<close> stays in the range: the sums \<open>k + l\<close>, the
  products with the entries of \<open>C\<close> and their sums over the classes.
\<close>

definition decision_in_range :: "matrix \<Rightarrow> real list \<Rightarrow> int list \<Rightarrow> bool" where
  "decision_in_range C k l \<longleftrightarrow>
     (\<forall>i<length k. in_range (k ! i + real_of_int (l ! i))) \<and>
     (\<forall>j<n_cols C.
        (\<forall>i<length k. normal_or_zero ((k ! i + real_of_int (l ! i)) * C ! i ! j)) \<and>
        sum_in_range (map (\<lambda>i. (k ! i + real_of_int (l ! i)) * C ! i ! j) [0..<length k]))"

text \<open>
  The contribution of one label vector stays in the range: the sums of the three
  vectors of a combination, the values of \<open>B\<close>, their products with the costs, the
  sum of these products and its product with the multinomial coefficient.
\<close>

definition outcome_in_range ::
  "(float64 \<Rightarrow> float64) \<Rightarrow> (real \<Rightarrow> real) \<Rightarrow> matrix \<Rightarrow> real list \<Rightarrow> real list \<Rightarrow> int list \<Rightarrow> bool" where
  "outcome_in_range gammaln lg C k prior l \<longleftrightarrow>
     (\<forall>i<length k. in_range (vec_add k prior ! i + real_of_int (l ! i))) \<and>
     (\<forall>j<length k.
        (\<forall>i<length k. in_range (posterior k prior l j ! i)) \<and>
        beta_in_range gammaln lg (posterior k prior l j) \<and>
        normal_or_zero (C ! j ! y_hat C k l * beta_fn lg (posterior k prior l j))) \<and>
     sum_in_range (map (\<lambda>j. C ! j ! y_hat C k l * beta_fn lg (posterior k prior l j))
                     [0..<length k]) \<and>
     normal_or_zero (outcome_cost (beta_fn lg) C k prior l)"

text \<open>
  The whole evaluation for one candidate \<open>k\<close> stays in the range: no factorial
  overflows (\<open>m_max \<le> 170\<close>), \<open>k + prior\<close> and \<open>1 / B(k + prior)\<close> are in the range,
  and so are, for every depth, the decisions and the contributions of the label
  vectors, their sum, the expected cost, and the gain before and after the division
  by the depth.
\<close>

definition cost_reduction_in_range ::
  "(float64 \<Rightarrow> float64) \<Rightarrow> (real \<Rightarrow> real) \<Rightarrow> matrix \<Rightarrow> real list \<Rightarrow> real list \<Rightarrow> int \<Rightarrow> bool" where
  "cost_reduction_in_range gammaln lg C k prior m_max \<longleftrightarrow>
     m_max \<le> 170 \<and>
     (\<forall>i<length k. in_range (k ! i + prior ! i)) \<and>
     beta_in_range gammaln lg (vec_add k prior) \<and>
     normal_or_zero (1 / beta_fn lg (vec_add k prior)) \<and>
     (\<forall>m\<in>{0..m_max}.
        (\<forall>l\<in>label_vecs m (length k).
           decision_in_range C k l \<and> outcome_in_range gammaln lg C k prior l) \<and>
        (\<Sum>l\<in>label_vecs m (length k). \<bar>outcome_cost (beta_fn lg) C k prior l\<bar>) \<le> float_max \<and>
        normal_or_zero (expected_cost (beta_fn lg) C k prior m)) \<and>
     (\<forall>m\<in>{1..m_max}.
        in_range (expected_cost (beta_fn lg) C k prior 0 - expected_cost (beta_fn lg) C k prior m) \<and>
        normal_or_zero
          ((expected_cost (beta_fn lg) C k prior 0 - expected_cost (beta_fn lg) C k prior m)
             / real_of_int m))"

text \<open>The error that a computation raises, if any.\<close>

definition raised :: "py_error + 'a \<Rightarrow> py_error option" where
  "raised r = (case r of Inl e \<Rightarrow> Some e | Inr _ \<Rightarrow> None)"

text \<open>
  The division of a row of utilities by the depths \<open>1, 2, ...\<close> of its entries, and
  the rounds of the loop over the rows of \<open>cand_idx_set\<close> once the utilities of all
  subsets are known: round \<open>i\<close> stores the utilities of row \<open>i\<close> and then divides
  every row.
\<close>

definition by_depth :: "real list \<Rightarrow> real list" where
  "by_depth row = map (\<lambda>(j, u). u / real (j + 1)) (enumerate 0 row)"

definition rounds :: "nat \<Rightarrow> real list list \<Rightarrow> matrix \<Rightarrow> matrix" where
  "rounds k uss T = foldl (\<lambda>T (i, us). map by_depth (T[i := us])) T (zip [k..<k + length uss] uss)"

section \<open>Properties\<close>

subsection \<open>The enumeration of label vectors\<close>

lemma tolerance_on_integers: "(real_of_int a \<le> 1 / 10 ^ 10) = (a \<le> 0)"
proof
  assume "real_of_int a \<le> 1 / 10 ^ 10"
  then have "real_of_int a < 1" by (simp add: field_simps)
  then have "a < 1" by linarith
  then show "a \<le> 0" by simp
next
  assume "a \<le> 0" then have "real_of_int a \<le> 0" by simp
  then show "real_of_int a \<le> 1 / 10 ^ 10" by (simp add: field_simps)
qed

lemma extend_label_vecs_int:
  "extend_label_vecs m L =
     concat (map (\<lambda>v. map (\<lambda>r. v @ [r]) (filter (\<lambda>r. r \<le> m - sum_list v) [0..m])) L)"
proof -
  have "(real_of_int (r - (m - sum_list v)) \<le> 1 / 10 ^ 10) = (r \<le> m - sum_list v)" for r v
    by (simp only: tolerance_on_integers) linarith
  then show ?thesis
    by (simp only: extend_label_vecs_def label_vec_res_def)
qed

lemma set_extend_label_vecs:
  "set (extend_label_vecs m L) =
     {v @ [r] | v r. v \<in> set L \<and> 0 \<le> r \<and> r \<le> m \<and> r \<le> m - sum_list v}"
  by (auto simp: extend_label_vecs_int)

lemma sum_list_snoc_split:
  fixes w :: "int list"
  assumes "w \<noteq> []"
  shows "sum_list w = sum_list (butlast w) + last w"
proof -
  have "sum_list (butlast w @ [last w]) = sum_list (butlast w) + last w" by simp
  then show ?thesis using assms by simp
qed

lemma bounded_vecs_Suc:
  "{v @ [r] | v r. v \<in> bounded_vecs m i \<and> 0 \<le> r \<and> r \<le> m \<and> r \<le> m - sum_list v}
     = bounded_vecs m (Suc i)"
proof (intro equalityI subsetI)
  fix w
  assume "w \<in> {v @ [r] | v r. v \<in> bounded_vecs m i \<and> 0 \<le> r \<and> r \<le> m \<and> r \<le> m - sum_list v}"
  then show "w \<in> bounded_vecs m (Suc i)" by (auto simp: bounded_vecs_def)
next
  fix w assume w: "w \<in> bounded_vecs m (Suc i)"
  then have ne: "w \<noteq> []" by (auto simp: bounded_vecs_def)
  then have eq: "w = butlast w @ [last w]" by simp
  have nn: "\<forall>x\<in>set w. 0 \<le> x" and s: "sum_list w \<le> m" and l: "length w = Suc i"
    using w by (auto simp: bounded_vecs_def)
  note s2 = sum_list_snoc_split[OF ne]
  have nb: "\<forall>x\<in>set (butlast w). 0 \<le> x" using nn by (meson in_set_butlastD)
  then have sb: "0 \<le> sum_list (butlast w)" by (simp add: sum_list_nonneg)
  have lw: "0 \<le> last w" using nn ne by simp
  have "butlast w \<in> bounded_vecs m i" using nb l s s2 lw by (simp add: bounded_vecs_def)
  moreover have "last w \<le> m" using s s2 sb by linarith
  moreover have "last w \<le> m - sum_list (butlast w)" using s s2 by linarith
  ultimately show
    "w \<in> {v @ [r] | v r. v \<in> bounded_vecs m i \<and> 0 \<le> r \<and> r \<le> m \<and> r \<le> m - sum_list v}"
    using eq lw by blast
qed

lemma distinct_extend_label_vecs:
  assumes "distinct L" "\<forall>v\<in>set L. sum_list v \<le> m" "0 \<le> m"
  shows "distinct (extend_label_vecs m L)"
  unfolding extend_label_vecs_int
proof (rule distinct_concat)
  let ?f = "\<lambda>v. map (\<lambda>r. v @ [r]) (filter (\<lambda>r. r \<le> m - sum_list v) [0..m])"
  have z: "v @ [0] \<in> set (?f v)" if "v \<in> set L" for v
    using that assms(2,3) by auto
  have "inj_on ?f (set L)"
  proof (rule inj_onI)
    fix a b assume a: "a \<in> set L" and b: "b \<in> set L" and e: "?f a = ?f b"
    from z[OF a] e have "a @ [0] \<in> set (?f b)" by simp
    then show "a = b" by auto
  qed
  then show "distinct (map ?f L)" using assms(1) by (simp add: distinct_map)
next
  fix ys
  assume "ys \<in> set (map (\<lambda>v. map (\<lambda>r. v @ [r]) (filter (\<lambda>r. r \<le> m - sum_list v) [0..m])) L)"
  then show "distinct ys"
    by (auto simp: distinct_map intro!: inj_onI)
next
  fix ys zs
  assume "ys \<in> set (map (\<lambda>v. map (\<lambda>r. v @ [r]) (filter (\<lambda>r. r \<le> m - sum_list v) [0..m])) L)"
     "zs \<in> set (map (\<lambda>v. map (\<lambda>r. v @ [r]) (filter (\<lambda>r. r \<le> m - sum_list v) [0..m])) L)"
     "ys \<noteq> zs"
  then show "set ys \<inter> set zs = {}" by auto
qed

text \<open>After \<open>i\<close> rounds the list enumerates \<open>bounded_vecs m i\<close> without repetition.\<close>

lemma rounds_invariant:
  assumes "0 \<le> m"
  shows "distinct ((extend_label_vecs m ^^ i) [[]])
       \<and> set ((extend_label_vecs m ^^ i) [[]]) = bounded_vecs m i"
proof (induction i)
  case 0
  show ?case using assms by (auto simp: bounded_vecs_def)
next
  case (Suc i)
  have d: "distinct (extend_label_vecs m ((extend_label_vecs m ^^ i) [[]]))"
    using Suc assms by (intro distinct_extend_label_vecs) (auto simp: bounded_vecs_def)
  have s: "set (extend_label_vecs m ((extend_label_vecs m ^^ i) [[]])) = bounded_vecs m (Suc i)"
    using Suc by (simp add: set_extend_label_vecs bounded_vecs_Suc)
  show ?case using d s by simp
qed

lemma gen_l_vec_list_set:
  assumes "0 \<le> m" "1 \<le> n"
  shows "set (gen_l_vec_list m n) = label_vecs m (nat n)"
proof -
  obtain i where i: "nat (n - 1) = i" and ni: "nat n = Suc i" using assms(2)
    by (metis Suc_nat_eq_nat_zadd1 add.commute diff_add_cancel diff_ge_0_iff_ge)
  have inv: "set ((extend_label_vecs m ^^ i) [[]]) = bounded_vecs m i"
    using rounds_invariant[OF assms(1)] by simp
  have "(\<lambda>v. v @ [m - sum_list v]) ` bounded_vecs m i = label_vecs m (Suc i)"
  proof (intro equalityI subsetI)
    fix w assume "w \<in> (\<lambda>v. v @ [m - sum_list v]) ` bounded_vecs m i"
    then show "w \<in> label_vecs m (Suc i)" by (auto simp: bounded_vecs_def label_vecs_def)
  next
    fix w assume w: "w \<in> label_vecs m (Suc i)"
    then have ne: "w \<noteq> []" by (auto simp: label_vecs_def)
    then have eq: "w = butlast w @ [last w]" by simp
    have nn: "\<forall>x\<in>set w. 0 \<le> x" and s: "sum_list w = m" and l: "length w = Suc i"
      using w by (auto simp: label_vecs_def)
    note s2 = sum_list_snoc_split[OF ne]
    have nb: "\<forall>x\<in>set (butlast w). 0 \<le> x" using nn by (meson in_set_butlastD)
    have lw: "0 \<le> last w" using nn ne by simp
    have b: "butlast w \<in> bounded_vecs m i" using nb l s s2 lw by (simp add: bounded_vecs_def)
    have "last w = m - sum_list (butlast w)" using s s2 by linarith
    then have "w = butlast w @ [m - sum_list (butlast w)]" using eq by simp
    then show "w \<in> (\<lambda>v. v @ [m - sum_list v]) ` bounded_vecs m i" using b by blast
  qed
  then show ?thesis by (simp add: gen_l_vec_list_def i ni inv)
qed

lemma gen_l_vec_list_distinct:
  assumes "0 \<le> m"
  shows "distinct (gen_l_vec_list m n)"
proof -
  have "inj_on (\<lambda>v. v @ [m - sum_list v]) A" for A :: "int list set"
    by (rule inj_onI) simp
  then show ?thesis
    using rounds_invariant[OF assms] by (simp add: gen_l_vec_list_def distinct_map)
qed

text \<open>Stars and bars, carried over from lists of naturals to lists of integers.\<close>

lemma card_label_vecs:
  assumes "0 \<le> m"
  shows "card (label_vecs m n) = (nat m + n - 1) choose (nat m)"
proof -
  have "bij_betw (map int) {l::nat list. length l = n \<and> sum_list l = nat m} (label_vecs m n)"
  proof (rule bij_betw_byWitness[where f' = "map nat"])
    show "\<forall>a\<in>{l. length l = n \<and> sum_list l = nat m}. map nat (map int a) = a"
      by (simp add: comp_def)
    show "\<forall>a'\<in>label_vecs m n. map int (map nat a') = a'"
      by (auto simp: label_vecs_def comp_def intro!: map_idI)
    show "map int ` {l. length l = n \<and> sum_list l = nat m} \<subseteq> label_vecs m n"
    proof
      fix w assume "w \<in> map int ` {l. length l = n \<and> sum_list l = nat m}"
      then obtain l where l: "w = map int l" "length l = n" "sum_list l = nat m" by auto
      have "sum_list (map int l) = int (sum_list l)" by (induction l) auto
      then show "w \<in> label_vecs m n" using l assms by (auto simp: label_vecs_def)
    qed
    show "map nat ` label_vecs m n \<subseteq> {l. length l = n \<and> sum_list l = nat m}"
    proof
      fix l assume "l \<in> map nat ` label_vecs m n"
      then obtain w where w: "l = map nat w" "length w = n" "\<forall>x\<in>set w. 0 \<le> x" "sum_list w = m"
        by (auto simp: label_vecs_def)
      have "(\<forall>x\<in>set v. 0 \<le> x) \<Longrightarrow> sum_list (map nat v) = nat (sum_list v)" for v :: "int list"
        by (induction v) (auto simp: nat_add_distrib sum_list_nonneg)
      then show "l \<in> {l. length l = n \<and> sum_list l = nat m}" using w by simp
    qed
  qed
  then have "card (label_vecs m n) = card {l::nat list. length l = n \<and> sum_list l = nat m}"
    by (simp add: bij_betw_same_card)
  then show ?thesis by (simp add: card_length_sum_list)
qed

lemma gen_l_vec_list_length:
  assumes "0 \<le> m" "1 \<le> n"
  shows "length (gen_l_vec_list m n) = (nat m + nat n - 1) choose (nat n - 1)"
proof -
  have "length (gen_l_vec_list m n) = card (set (gen_l_vec_list m n))"
    using gen_l_vec_list_distinct[OF assms(1)] by (simp add: distinct_card)
  also have "\<dots> = (nat m + nat n - 1) choose (nat m)"
    using assms by (simp add: gen_l_vec_list_set card_label_vecs)
  also have "\<dots> = (nat m + nat n - 1) choose (nat n - 1)"
  proof -
    have "nat m \<le> nat m + nat n - 1" using assms(2) by simp
    from binomial_symmetric[OF this] show ?thesis
      using assms(2) by (simp add: algebra_simps)
  qed
  finally show ?thesis .
qed

text \<open>
  Claim C4. For every \<open>m \<ge> 0\<close> and \<open>n_classes \<ge> 1\<close>, \<open>_gen_l_vec_list\<close> returns
  exactly \<open>C(m + n_classes - 1, n_classes - 1)\<close> vectors, each of length \<open>n_classes\<close>,
  each with non-negative integer entries that sum exactly to \<open>m\<close>, and no vector
  occurs twice.
\<close>

theorem gen_l_vec_list_stars_and_bars:
  assumes "0 \<le> m_approx" and "1 \<le> n_classes"
  shows "length (gen_l_vec_list m_approx n_classes)
           = (nat m_approx + nat n_classes - 1) choose (nat n_classes - 1)
       \<and> (\<forall>l \<in> set (gen_l_vec_list m_approx n_classes).
             length l = nat n_classes \<and> (\<forall>x \<in> set l. 0 \<le> x) \<and> sum_list l = m_approx)
       \<and> distinct (gen_l_vec_list m_approx n_classes)"
proof (intro conjI)
  show "length (gen_l_vec_list m_approx n_classes)
           = (nat m_approx + nat n_classes - 1) choose (nat n_classes - 1)"
    by (rule gen_l_vec_list_length[OF assms])
  show "\<forall>l \<in> set (gen_l_vec_list m_approx n_classes).
             length l = nat n_classes \<and> (\<forall>x \<in> set l. 0 \<le> x) \<and> sum_list l = m_approx"
    unfolding gen_l_vec_list_set[OF assms] by (simp add: label_vecs_def)
  show "distinct (gen_l_vec_list m_approx n_classes)"
    by (rule gen_l_vec_list_distinct[OF assms(1)])
qed

theorem gen_l_vec_list_stars_and_bars_witness:
  "(0::int) \<le> 2 \<and> (1::int) \<le> 3
     \<and> length (gen_l_vec_list 2 3) = 6
     \<and> list_all (\<lambda>l. length l = 3 \<and> list_all (\<lambda>x. 0 \<le> x) l \<and> sum_list l = 2)
          (gen_l_vec_list 2 3)
     \<and> distinct (gen_l_vec_list 2 3)"
proof -
  have g: "gen_l_vec_list 2 3
             = [[0, 0, 2], [0, 1, 1], [0, 2, 0], [1, 0, 1], [1, 1, 0], [2, 0, 0]]"
    by code_simp
  have h: "(0::int) \<le> 2" "(1::int) \<le> 3" by simp_all
  note t = gen_l_vec_list_stars_and_bars[OF h]
  have "distinct (gen_l_vec_list 2 3)" using t by blast
  moreover have "length (gen_l_vec_list 2 3) = 6" unfolding g by simp
  moreover have "list_all (\<lambda>l. length l = 3 \<and> list_all (\<lambda>x. 0 \<le> x) l \<and> sum_list l = 2)
          (gen_l_vec_list 2 3)" unfolding g by simp
  ultimately show ?thesis by simp
qed

subsection \<open>The optimal prior\<close>

lemma sum_list_upt_sum: "sum_list (map f [0..<n]) = sum f {..<n}"
  by (simp add: interv_sum_list_conv_sum_set_nat atLeast0LessThan)

lemma sum_list_nth_sum: "sum_list (map f xs) = (\<Sum>k<length xs. f (xs ! k))"
proof -
  have "map f xs = map (\<lambda>k. f (xs ! k)) [0..<length xs]"
    by (rule nth_equalityI) simp_all
  then show ?thesis by (simp only: sum_list_upt_sum)
qed

lemma ones_matmul:
  assumes "length Ci = n"
  shows "matmul [replicate n 1] Ci = Inr [col_sums Ci]"
proof -
  have "sum_list (map (\<lambda>k. replicate n 1 ! k * Ci ! k ! j) [0..<length Ci])
        = sum_list (map (\<lambda>r. r ! j) Ci)" for j
    using assms by (simp add: sum_list_upt_sum sum_list_nth_sum)
  then show ?thesis using assms by (simp add: matmul_def n_cols_def col_sums_def)
qed

lemma n_cols_square:
  assumes "length A = n" "list_all (\<lambda>r. length r = n) A" "0 < n"
  shows "n_cols A = n"
  using assms by (cases A) (auto simp: n_cols_def)

lemma col_sums_times:
  assumes lC: "length C = n" and lCi: "length Ci = n" and rCi: "list_all (\<lambda>r. length r = n) Ci"
    and rC: "list_all (\<lambda>r. length r = n) C"
    and li: "matmul Ci C = Inr (eye n)" and n: "0 < n" and j: "j < n"
  shows "(\<Sum>k<n. col_sums Ci ! k * C ! k ! j) = 1"
proof -
  have nc: "n_cols Ci = n" by (rule n_cols_square[OF lCi rCi n])
  have ncC: "n_cols C = n" by (rule n_cols_square[OF lC rC n])
  have prod: "map (\<lambda>r. map (\<lambda>j. sum_list (map (\<lambda>k. r ! k * C ! k ! j) [0..<n])) [0..<n]) Ci = eye n"
    using li nc ncC lC by (simp add: matmul_def)
  have entry: "(\<Sum>k<n. Ci ! i ! k * C ! k ! j) = (if i = j then 1 else 0)" if "i < n" for i
  proof -
    have "map (\<lambda>r. map (\<lambda>j. sum_list (map (\<lambda>k. r ! k * C ! k ! j) [0..<n])) [0..<n]) Ci ! i ! j = eye n ! i ! j"
      by (simp only: prod)
    then show ?thesis using that j lCi by (simp add: eye_def sum_list_upt_sum)
  qed
  have cs: "col_sums Ci ! k = (\<Sum>i<n. Ci ! i ! k)" if "k < n" for k
    using that nc lCi by (simp add: col_sums_def sum_list_nth_sum)
  have "(\<Sum>k<n. col_sums Ci ! k * C ! k ! j) = (\<Sum>k<n. (\<Sum>i<n. Ci ! i ! k) * C ! k ! j)"
    by (rule sum.cong) (simp_all add: cs)
  also have "\<dots> = (\<Sum>k<n. \<Sum>i<n. Ci ! i ! k * C ! k ! j)"
    by (simp add: sum_distrib_right)
  also have "\<dots> = (\<Sum>i<n. \<Sum>k<n. Ci ! i ! k * C ! k ! j)"
    by (rule sum.swap)
  also have "\<dots> = (\<Sum>i<n. if i = j then 1 else 0)"
    by (rule sum.cong) (simp_all add: entry)
  also have "\<dots> = 1" using j by simp
  finally show ?thesis .
qed

lemma col_sums_positive:
  assumes lC: "length C = n" and lCi: "length Ci = n" and rCi: "list_all (\<lambda>r. length r = n) Ci"
    and rC: "list_all (\<lambda>r. length r = n) C"
    and li: "matmul Ci C = Inr (eye n)" and n: "0 < n"
    and nn: "list_all (\<lambda>x. 0 \<le> x) (col_sums Ci)"
  shows "0 < sum_list (col_sums Ci)"
proof (rule ccontr)
  assume "\<not> 0 < sum_list (col_sums Ci)"
  moreover have "0 \<le> sum_list (col_sums Ci)"
    using nn by (simp add: list_all_iff sum_list_nonneg)
  ultimately have z: "sum_list (col_sums Ci) = 0" by simp
  have "\<forall>x\<in>set (col_sums Ci). x = 0"
    using z nn by (simp add: list_all_iff sum_list_nonneg_eq_0_iff)
  moreover have "length (col_sums Ci) = n"
    using n_cols_square[OF lCi rCi n] by (simp add: col_sums_def)
  ultimately have "col_sums Ci ! k = 0" if "k < n" for k using that by simp
  then have "(\<Sum>k<n. col_sums Ci ! k * C ! k ! 0) = 0" by simp
  with col_sums_times[OF lC lCi rCi rC li n n] show False by simp
qed

text \<open>
  Claim C9. For a square invertible cost matrix \<open>C\<close> (\<open>n \<ge> 1\<close> classes, \<open>Ci\<close> the
  inverse that \<open>np.linalg.inv\<close> returns): when all column sums of the inverse are
  non-negative, \<open>calculate_optimal_prior\<close> returns a vector with entries \<open>\<ge> 0\<close> that
  sums to \<open>1\<close>; when some column sum is negative, it returns the uniform vector
  \<open>[1/n, ..., 1/n]\<close>. Arithmetic is exact (reals).
\<close>

theorem calculate_optimal_prior_simplex:
  assumes "linalg_inv C = Inr Ci"
    and "length C = n" and "list_all (\<lambda>r. length r = n) C"
    and "length Ci = n" and "list_all (\<lambda>r. length r = n) Ci"
    and "matmul Ci C = Inr (eye n)"
    and "0 < n"
  shows "(list_all (\<lambda>x. 0 \<le> x) (col_sums Ci) \<longrightarrow>
            (\<exists>p. calculate_optimal_prior linalg_inv (Some (Arr2 C)) = Inr p
                 \<and> length p = n \<and> list_all (\<lambda>x. 0 \<le> x) p \<and> sum_list p = 1))
       \<and> (\<not> list_all (\<lambda>x. 0 \<le> x) (col_sums Ci) \<longrightarrow>
            calculate_optimal_prior linalg_inv (Some (Arr2 C)) = Inr (replicate n (1 / real n)))"
proof (intro conjI impI)
  assume nn: "list_all (\<lambda>x. 0 \<le> x) (col_sums Ci)"
  let ?S = "sum_list (col_sums Ci)"
  let ?p = "map (\<lambda>x. x / ?S) (col_sums Ci)"
  have pos: "0 < ?S" by (rule col_sums_positive[OF assms(2,4,5,3,6,7) nn])
  have res: "calculate_optimal_prior linalg_inv (Some (Arr2 C)) = Inr ?p"
    using assms(1,2,4) nn
    by (simp add: calculate_optimal_prior_def py_len_def py_bind_def ones_matmul)
  have len: "length ?p = n"
    using n_cols_square[OF assms(4,5,7)] by (simp add: col_sums_def)
  have ge: "list_all (\<lambda>x. 0 \<le> x) ?p"
    using nn pos by (simp add: list_all_iff)
  have "sum_list (map (\<lambda>x. x / c) xs) = sum_list xs / c" for c :: real and xs
    by (induction xs) (simp_all add: add_divide_distrib)
  then have "sum_list ?p = ?S / ?S" by simp
  then have one: "sum_list ?p = 1" using pos by simp
  show "\<exists>p. calculate_optimal_prior linalg_inv (Some (Arr2 C)) = Inr p
            \<and> length p = n \<and> list_all (\<lambda>x. 0 \<le> x) p \<and> sum_list p = 1"
    using res len ge one by blast
next
  assume "\<not> list_all (\<lambda>x. 0 \<le> x) (col_sums Ci)"
  then show "calculate_optimal_prior linalg_inv (Some (Arr2 C)) = Inr (replicate n (1 / real n))"
    using assms(1,2,4,7)
    by (simp add: calculate_optimal_prior_def py_len_def py_bind_def ones_matmul uniform_prior_def)
qed


theorem calculate_optimal_prior_simplex_witness:
  "(\<exists>p. calculate_optimal_prior (\<lambda>C. Inr [[0, 1], [1, 0]]) (Some (Arr2 [[0, 1], [1, 0]])) = Inr p
        \<and> length p = 2 \<and> list_all (\<lambda>x. 0 \<le> x) p \<and> sum_list p = 1)
   \<and> calculate_optimal_prior (\<lambda>C. Inr [[1, - 2], [0, 1]]) (Some (Arr2 [[1, 2], [0, 1]]))
       = Inr (replicate 2 (1 / real 2))"
proof -
  have e2: "eye 2 = [[1, 0], [0, 1]]" by code_simp
  have m1: "matmul [[0, 1], [1, 0]] [[0, 1], [1, 0]] = Inr (eye 2)"
    unfolding e2 by code_simp
  have m2: "matmul [[1, - 2], [0, 1]] [[1, 2], [0, 1]] = Inr (eye 2)"
    unfolding e2 by code_simp
  have c1: "col_sums [[0, 1], [1, 0]] = [1, 1]" by code_simp
  have c2: "col_sums [[1, - 2], [0, 1]] = [1, - 1]" by code_simp
  have a: "list_all (\<lambda>x. 0 \<le> x) (col_sums [[0, 1], [1, 0]])" unfolding c1 by simp
  have b: "\<not> list_all (\<lambda>x. 0 \<le> x) (col_sums [[1, - 2], [0, 1]])" unfolding c2 by simp
  have "\<exists>p. calculate_optimal_prior (\<lambda>C. Inr [[0, 1], [1, 0]]) (Some (Arr2 [[0, 1], [1, 0]])) = Inr p
        \<and> length p = 2 \<and> list_all (\<lambda>x. 0 \<le> x) p \<and> sum_list p = 1"
    using calculate_optimal_prior_simplex
      [of "\<lambda>C. Inr [[0, 1], [1, 0]]" "[[0, 1], [1, 0]]" "[[0, 1], [1, 0]]" 2] m1 a
    by simp
  moreover have "calculate_optimal_prior (\<lambda>C. Inr [[1, - 2], [0, 1]]) (Some (Arr2 [[1, 2], [0, 1]]))
       = Inr (replicate 2 (1 / real 2))"
    using calculate_optimal_prior_simplex
      [of "\<lambda>C. Inr [[1, - 2], [0, 1]]" "[[1, 2], [0, 1]]" "[[1, - 2], [0, 1]]" 2] m2 b
    by simp
  ultimately show ?thesis by blast
qed

text \<open>
  Claim C10. Called with \<open>None\<close>, \<open>calculate_optimal_prior\<close> raises (the length of
  \<open>None\<close> is taken before the test for \<open>None\<close>), so the branch that would return the
  uniform prior for a missing cost matrix is never taken. The function returns only for
  a two-dimensional array that \<open>np.linalg.inv\<close> inverts, and it does return for each
  of them.
\<close>

theorem calculate_optimal_prior_None_raises:
  "calculate_optimal_prior linalg_inv None = Inl TypeError
   \<and> (\<forall>cm p. calculate_optimal_prior linalg_inv cm = Inr p
         \<longrightarrow> (\<exists>C Ci. cm = Some (Arr2 C) \<and> linalg_inv C = Inr Ci))
   \<and> (\<forall>C Ci. linalg_inv C = Inr Ci \<and> length Ci = length C
         \<longrightarrow> (\<exists>p. calculate_optimal_prior linalg_inv (Some (Arr2 C)) = Inr p))"
proof (intro conjI allI impI)
  show "calculate_optimal_prior linalg_inv None = Inl TypeError"
    by (simp add: calculate_optimal_prior_def py_len_def py_bind_def)
next
  fix cm p assume r: "calculate_optimal_prior linalg_inv cm = Inr p"
  show "\<exists>C Ci. cm = Some (Arr2 C) \<and> linalg_inv C = Inr Ci"
  proof (cases cm)
    case None
    with r show ?thesis by (simp add: calculate_optimal_prior_def py_len_def py_bind_def)
  next
    case (Some a)
    show ?thesis
    proof (cases a)
      case (Arr1 v)
      with Some r show ?thesis
        by (simp add: calculate_optimal_prior_def py_len_def py_bind_def)
    next
      case (Arr2 C)
      with Some r obtain Ci where "linalg_inv C = Inr Ci"
        by (cases "linalg_inv C") (simp_all add: calculate_optimal_prior_def py_len_def py_bind_def)
      with Some Arr2 show ?thesis by blast
    qed
  qed
next
  fix C Ci assume h: "linalg_inv C = Inr Ci \<and> length Ci = length C"
  show "\<exists>p. calculate_optimal_prior linalg_inv (Some (Arr2 C)) = Inr p"
  proof (cases "list_all (\<lambda>x. 0 \<le> x) (col_sums Ci)")
    case True
    with h show ?thesis
      by (simp add: calculate_optimal_prior_def py_len_def py_bind_def ones_matmul)
  next
    case False
    then have "col_sums Ci \<noteq> []" by auto
    then have "n_cols Ci \<noteq> 0" by (simp add: col_sums_def)
    then have "Ci \<noteq> []" by (auto simp: n_cols_def)
    with h have "length C \<noteq> 0" by auto
    with h False show ?thesis
      by (simp add: calculate_optimal_prior_def py_len_def py_bind_def ones_matmul
          uniform_prior_def)
  qed
qed

theorem calculate_optimal_prior_None_raises_witness:
  "calculate_optimal_prior (\<lambda>C. Inr [[0, 1], [1, 0]]) None = Inl TypeError
   \<and> calculate_optimal_prior (\<lambda>C. Inr [[0, 1], [1, 0]]) (Some (Arr2 [[0, 1], [1, 0]]))
       = Inr [1 / 2, 1 / 2]
   \<and> (\<exists>C Ci. Some (Arr2 [[0, 1], [1, 0]]) = Some (Arr2 C)
               \<and> (Inr [[0, 1], [1, 0]] :: py_error + matrix) = Inr Ci)"
proof -
  have v: "calculate_optimal_prior (\<lambda>C. Inr [[0, 1], [1, 0]]) (Some (Arr2 [[0, 1], [1, 0]]))
       = Inr [1 / 2, 1 / 2]"
    by code_simp
  from calculate_optimal_prior_None_raises[of "\<lambda>C. Inr [[0, 1], [1, 0]]"] v
  show ?thesis by blast
qed

subsection \<open>The expected cost reduction\<close>

text \<open>Inside the range, the floating-point operations return the exact results.\<close>

lemma float_thresholds:
  "float_max < overflow_threshold" "underflow_threshold < min_normal"
  "0 < float_max" "0 < underflow_threshold" "min_normal \<le> 1" "1 \<le> float_max"
  unfolding float_max_def overflow_threshold_def underflow_threshold_def min_normal_def
  by simp_all

lemma round_sum_exact: "in_range x \<Longrightarrow> round_sum x = Fin x"
  using float_thresholds(1) unfolding in_range_def round_sum_def by (simp add: abs_le_iff)

lemma round_prod_exact: "normal_or_zero x \<Longrightarrow> round_prod x = Fin x"
proof -
  assume a: "normal_or_zero x"
  show ?thesis
  proof (cases "x = 0")
    case True
    then show ?thesis using float_thresholds(3,4) by (simp add: round_prod_def round_sum_exact in_range_def)
  next
    case False
    with a have b: "min_normal \<le> \<bar>x\<bar>" "\<bar>x\<bar> \<le> float_max" by (simp_all add: normal_or_zero_def)
    then have "\<not> \<bar>x\<bar> \<le> underflow_threshold" using float_thresholds(2) by linarith
    moreover have "round_sum x = Fin x" using b(2) by (simp add: round_sum_exact in_range_def)
    ultimately show ?thesis by (simp add: round_prod_def)
  qed
qed

lemma normal_or_zero_in_range: "normal_or_zero x \<Longrightarrow> in_range x"
  using float_thresholds(3) by (auto simp: normal_or_zero_def in_range_def)

lemma fadd_exact: "in_range (x + y) \<Longrightarrow> fadd (Fin x) (Fin y) = Fin (x + y)"
  by (simp add: round_sum_exact)

lemma fsub_exact: "in_range (x - y) \<Longrightarrow> fsub (Fin x) (Fin y) = Fin (x - y)"
  by (simp add: fsub_def round_sum_exact)

lemma fmul_exact: "normal_or_zero (x * y) \<Longrightarrow> fmul (Fin x) (Fin y) = Fin (x * y)"
  by (simp add: round_prod_exact)

lemma fdiv_exact: "y \<noteq> 0 \<Longrightarrow> normal_or_zero (x / y) \<Longrightarrow> fdiv (Fin x) (Fin y) = Fin (x / y)"
  by (simp add: round_prod_exact)

lemma fexp_exact: "normal_or_zero (exp x) \<Longrightarrow> fexp (Fin x) = Fin (exp x)"
  by (simp add: round_prod_exact)

lemma foldl_fadd_exact:
  "\<bar>acc\<bar> + sum_list (map abs xs) \<le> float_max
     \<Longrightarrow> foldl fadd (Fin acc) (map Fin xs) = Fin (acc + sum_list xs)"
proof (induction xs arbitrary: acc)
  case Nil
  then show ?case by simp
next
  case (Cons x xs)
  have nn: "0 \<le> sum_list (map abs xs)" by (rule sum_list_nonneg) auto
  have "\<bar>acc + x\<bar> \<le> \<bar>acc\<bar> + \<bar>x\<bar>" by (rule abs_triangle_ineq)
  with Cons.prems nn have r: "in_range (acc + x)" and
    s: "\<bar>acc + x\<bar> + sum_list (map abs xs) \<le> float_max"
    by (simp_all add: in_range_def)
  show ?case using Cons.IH[OF s] by (simp add: round_sum_exact[OF r] add.assoc)
qed

lemma fsum_exact: "sum_in_range xs \<Longrightarrow> fsum (map Fin xs) = Fin (sum_list xs)"
  using foldl_fadd_exact[of 0 xs] by (simp add: fsum_def sum_in_range_def)

lemma fvec_add_exact:
  assumes "length a = length b" "\<forall>i<length a. in_range (a ! i + b ! i)"
  shows "fvec_add (map Fin a) (map Fin b) = map Fin (vec_add a b)"
proof (rule nth_equalityI)
  show "length (fvec_add (map Fin a) (map Fin b)) = length (map Fin (vec_add a b))"
    by (simp add: fvec_add_def vec_add_def)
next
  fix i assume "i < length (fvec_add (map Fin a) (map Fin b))"
  then have i: "i < length a" "i < length b" using assms(1) by (simp_all add: fvec_add_def)
  then show "fvec_add (map Fin a) (map Fin b) ! i = map Fin (vec_add a b) ! i"
    using assms(2) by (simp add: fvec_add_def vec_add_def round_sum_exact)
qed

lemma first_index_map: "first_index P (map f xs) = first_index (\<lambda>x. P (f x)) xs"
  by (induction xs) simp_all

lemma first_index_cong:
  "(\<And>x. x \<in> set xs \<Longrightarrow> P x = Q x) \<Longrightarrow> first_index P xs = first_index Q xs"
  by (induction xs) simp_all

lemma np_argmin_exact: "np_argmin (map Fin xs) = argmin xs"
proof -
  have n: "NaN \<notin> set (map Fin xs)" by auto
  have "first_index (\<lambda>x. list_all (\<lambda>y. \<not> fless y (Fin x)) (map Fin xs)) xs
      = first_index (\<lambda>x. x = Min (set xs)) xs"
  proof (rule first_index_cong)
    fix x assume x: "x \<in> set xs"
    have "list_all (\<lambda>y. \<not> fless y (Fin x)) (map Fin xs) \<longleftrightarrow> (\<forall>y\<in>set xs. x \<le> y)"
      by (auto simp: list_all_iff not_less)
    also have "\<dots> \<longleftrightarrow> x = Min (set xs)"
      using x by (metis List.finite_set Min_eqI Min_le Min_in empty_iff)
    finally show "list_all (\<lambda>y. \<not> fless y (Fin x)) (map Fin xs) = (x = Min (set xs))" .
  qed
  then show ?thesis
    unfolding np_argmin_def argmin_def using n by (simp only: if_False first_index_map)
qed

lemma foldl_fmax_exact:
  "foldl (\<lambda>m x. if fless m x then x else m) (Fin a) (map Fin xs) = Fin (foldl max a xs)"
  by (induction xs arbitrary: a) (simp_all add: max_def not_less)

lemma np_max_exact: "xs \<noteq> [] \<Longrightarrow> np_max (map Fin xs) = Fin (Max (set xs))"
proof -
  assume "xs \<noteq> []"
  then obtain a ys where xs: "xs = a # ys" by (cases xs) auto
  have n: "NaN \<notin> set (map Fin xs)" by auto
  have c: "(\<lambda>x m. max m x) = (max :: real \<Rightarrow> real \<Rightarrow> real)"
    by (intro ext) (simp add: max.commute)
  have "foldl max a ys = Max (set (a # ys))"
    by (simp only: Max.set_eq_fold foldl_conv_fold c)
  then show ?thesis
    unfolding np_max_def using n by (simp add: xs foldl_fmax_exact)
qed

lemma euler_beta_exact:
  assumes "beta_in_range gammaln lg a"
  shows "euler_beta gammaln (map Fin a) = Fin (beta_fn lg a)"
proof -
  from assms have g: "\<And>x. x \<in> set a \<Longrightarrow> gammaln (Fin x) = Fin (lg x)"
    and gs: "gammaln (Fin (sum_list a)) = Fin (lg (sum_list a))"
    and s1: "sum_in_range a" and s2: "sum_in_range (map lg a)"
    and d: "in_range (sum_list (map lg a) - lg (sum_list a))"
    and e: "normal_or_zero (beta_fn lg a)"
    by (simp_all add: beta_in_range_def)
  have "map gammaln (map Fin a) = map Fin (map lg a)" using g by simp
  then have a1: "fsum (map gammaln (map Fin a)) = Fin (sum_list (map lg a))"
    by (simp only: fsum_exact[OF s2])
  have a2: "gammaln (fsum (map Fin a)) = Fin (lg (sum_list a))"
    by (simp only: fsum_exact[OF s1] gs)
  show ?thesis
    unfolding euler_beta_def
    using e by (simp only: a1 a2 fsub_exact[OF d] beta_fn_def fexp_exact)
qed

text \<open>The factorials up to \<open>170!\<close> are floats, \<open>171!\<close> is not; a multinomial
  coefficient of a label vector that sums to at most \<open>170\<close> is computed exactly, and
  \<open>nan\<close> absorbs every later operation.\<close>

lemma fact_170_in_range: "(fact 170 :: real) \<le> float_max"
  unfolding float_max_def by (simp add: fact_numeral)

lemma fact_171_overflow: "overflow_threshold \<le> (fact 171 :: real)"
  unfolding overflow_threshold_def by (simp add: fact_numeral)

lemma py_factorial_exact:
  assumes "0 \<le> x" "x \<le> 170"
  shows "py_factorial x = Fin (fact (nat x))"
proof -
  have "nat x \<le> 170" using assms by simp
  then have "(fact (nat x) :: real) \<le> fact 170" by (rule fact_mono)
  then have "in_range (fact (nat x))"
    using fact_170_in_range by (simp add: in_range_def)
  then show ?thesis using assms(1) by (simp add: py_factorial_def round_sum_exact)
qed

lemma py_factorial_overflow:
  assumes "171 \<le> x"
  shows "py_factorial x = PInf"
proof -
  have "171 \<le> nat x" using assms by simp
  then have "(fact 171 :: real) \<le> fact (nat x)" by (rule fact_mono)
  then have "overflow_threshold \<le> fact (nat x)" using fact_171_overflow by linarith
  then show ?thesis using assms by (simp add: py_factorial_def round_sum_def)
qed

lemma one_le_mult: "1 \<le> a \<Longrightarrow> 1 \<le> b \<Longrightarrow> 1 \<le> a * (b::real)"
proof -
  assume "1 \<le> a" "1 \<le> b"
  then have "1 * 1 \<le> a * b" by (intro mult_mono) simp_all
  then show ?thesis by simp
qed

lemma one_le_prod_list: "\<forall>x\<in>set xs. 1 \<le> x \<Longrightarrow> 1 \<le> prod_list (xs :: real list)"
  by (induction xs) (simp_all add: one_le_mult)

lemma foldl_fmul_exact:
  assumes "\<forall>x\<in>set xs. 1 \<le> x" "1 \<le> p" "p * prod_list xs \<le> float_max"
  shows "foldl fmul (Fin p) (map Fin xs) = Fin (p * prod_list xs)"
  using assms
proof (induction xs arbitrary: p)
  case Nil
  then show ?case by simp
next
  case (Cons x xs)
  have x1: "1 \<le> x" and rest: "\<forall>y\<in>set xs. 1 \<le> y" using Cons.prems(1) by simp_all
  have pl: "1 \<le> prod_list xs" using rest by (rule one_le_prod_list)
  have px: "1 \<le> p * x" using Cons.prems(2) x1 by (rule one_le_mult)
  have "p * x * 1 \<le> p * x * prod_list xs" using px pl by (intro mult_left_mono) simp_all
  also have "\<dots> \<le> float_max" using Cons.prems(3) by (simp add: mult.assoc)
  finally have le: "p * x \<le> float_max" by simp
  have "normal_or_zero (p * x)"
    using px le float_thresholds(5) by (simp add: normal_or_zero_def)
  then have r: "round_prod (p * x) = Fin (p * x)" by (rule round_prod_exact)
  have "foldl fmul (Fin (p * x)) (map Fin xs) = Fin (p * x * prod_list xs)"
    using Cons.prems(3) by (intro Cons.IH rest px) (simp add: mult.assoc)
  then show ?case by (simp add: r mult.assoc)
qed

lemma prod_fact_le:
  assumes "\<forall>x\<in>set l. (0::int) \<le> x"
  shows "prod_list (map (\<lambda>x. fact (nat x)) l) \<le> (fact (nat (sum_list l)) :: real)"
  using assms
proof (induction l)
  case Nil
  then show ?case by simp
next
  case (Cons a l)
  have s: "0 \<le> sum_list l" using Cons.prems by (intro sum_list_nonneg) simp
  have "(fact (nat a) * fact (nat (sum_list l)) :: nat) dvd fact (nat a + nat (sum_list l))"
    by (rule fact_fact_dvd_fact)
  then have "(fact (nat a) * fact (nat (sum_list l)) :: nat) \<le> fact (nat a + nat (sum_list l))"
    by (rule dvd_imp_le) simp
  then have "(of_nat (fact (nat a) * fact (nat (sum_list l))) :: real)
               \<le> of_nat (fact (nat a + nat (sum_list l)))"
    by (simp only: of_nat_le_iff)
  then have b: "(fact (nat a) * fact (nat (sum_list l)) :: real) \<le> fact (nat (a + sum_list l))"
    using Cons.prems s by (simp add: nat_add_distrib)
  have "fact (nat a) * prod_list (map (\<lambda>x. fact (nat x)) l)
          \<le> (fact (nat a) * fact (nat (sum_list l)) :: real)"
    using Cons by (intro mult_left_mono) simp_all
  from this b have "fact (nat a) * prod_list (map (\<lambda>x. fact (nat x)) l)
          \<le> (fact (nat (a + sum_list l)) :: real)"
    by (rule order_trans)
  then show ?case by simp
qed

lemma multinomial_exact:
  assumes nn: "\<forall>x\<in>set l. 0 \<le> x" and le: "sum_list l \<le> 170"
  shows "multinomial l = Fin (multinomial_coeff l)"
proof -
  let ?P = "prod_list (map (\<lambda>x. fact (nat x)) l) :: real"
  let ?F = "fact (nat (sum_list l)) :: real"
  have s0: "0 \<le> sum_list l" using nn by (intro sum_list_nonneg) simp
  have each: "x \<le> 170" if "x \<in> set l" for x
  proof -
    have "x \<le> sum_list l" using nn that by (simp add: member_le_sum_list)
    then show ?thesis using le by simp
  qed
  have m: "map py_factorial l = map Fin (map (\<lambda>x. fact (nat x)) l)"
    using nn each by (simp add: py_factorial_exact)
  have PF: "?P \<le> ?F" by (rule prod_fact_le[OF nn])
  have F170: "?F \<le> float_max"
  proof -
    have "nat (sum_list l) \<le> 170" using le by simp
    then have "?F \<le> fact 170" by (rule fact_mono)
    then show ?thesis using fact_170_in_range by linarith
  qed
  have ge1: "\<forall>x\<in>set (map (\<lambda>x. fact (nat x) :: real) l). 1 \<le> x" by auto
  have P1: "1 \<le> ?P" using ge1 by (rule one_le_prod_list)
  have "fprod (map py_factorial l) = Fin (1 * ?P)"
    unfolding fprod_def m using PF F170 by (intro foldl_fmul_exact ge1) simp_all
  then have p: "fprod (map py_factorial l) = Fin ?P" by simp
  have q1: "1 \<le> ?F / ?P" using P1 PF by (simp add: le_divide_eq)
  have q2: "?F / ?P \<le> ?F" using P1 by (simp add: divide_le_eq mult_le_cancel_left1)
  have "normal_or_zero (?F / ?P)"
  proof -
    have "0 \<le> ?F / ?P" using q1 by linarith
    then have a: "\<bar>?F / ?P\<bar> = ?F / ?P" by (rule abs_of_nonneg)
    have "min_normal \<le> ?F / ?P" using q1 float_thresholds(5) by linarith
    moreover have "?F / ?P \<le> float_max" using q2 F170 by linarith
    ultimately show ?thesis unfolding normal_or_zero_def a by blast
  qed
  then have "fdiv (Fin ?F) (Fin ?P) = Fin (?F / ?P)"
    using P1 by (intro fdiv_exact) simp_all
  then show ?thesis
    unfolding multinomial_def multinomial_coeff_def
    by (simp only: p py_factorial_exact[OF s0 le])
qed

lemma fadd_NaN [simp]: "fadd a NaN = NaN"
  by (cases a) simp_all

lemma fmul_NaN [simp]: "fmul a NaN = NaN"
  by (cases a) simp_all

lemma fsub_NaN [simp]: "fsub a NaN = NaN"
  by (simp add: fsub_def)

lemma foldl_fadd_NaN: "foldl fadd NaN xs = NaN"
  by (induction xs) simp_all

lemma foldl_fadd_has_NaN: "NaN \<in> set xs \<Longrightarrow> foldl fadd a xs = NaN"
  by (induction xs arbitrary: a) (auto simp: foldl_fadd_NaN)

lemma fsum_NaN: "NaN \<in> set xs \<Longrightarrow> fsum xs = NaN"
  by (simp add: fsum_def foldl_fadd_has_NaN)

lemma foldl_fmul_ones: "foldl fmul (Fin 1) (replicate j (Fin 1)) = Fin 1"
proof -
  have "round_prod 1 = Fin 1"
    using float_thresholds(5,6) by (intro round_prod_exact) (simp add: normal_or_zero_def)
  then show ?thesis by (induction j) simp_all
qed

lemma multinomial_overflow:
  assumes "171 \<le> m"
  shows "multinomial (replicate j 0 @ [m]) = NaN"
proof -
  have z: "py_factorial 0 = Fin 1" using py_factorial_exact[of 0] by simp
  have s: "sum_list (replicate j 0 @ [m]) = m" by (simp add: sum_list_replicate)
  have "fprod (map py_factorial (replicate j 0 @ [m])) = PInf"
    by (simp add: fprod_def z py_factorial_overflow[OF assms] foldl_fmul_ones signed_inf_def)
  then show ?thesis
    unfolding multinomial_def s by (simp add: py_factorial_overflow[OF assms])
qed

text \<open>The structure of the function: the label vectors grouped by their sums.\<close>

lemma py_all_Inr: "py_all (map (\<lambda>x. Inr (f x)) xs) = Inr (map f xs)"
  by (induction xs) (simp_all add: py_bind_def)

lemma map_nth_fun: "map (\<lambda>i. f (xs ! i)) [0..<length xs] = map f xs"
  by (rule nth_equalityI) simp_all

lemma filter_concat_key:
  assumes "\<forall>m'\<in>set ms. \<forall>l\<in>set (G m'). key l = m'" "distinct ms" "m \<in> set ms"
  shows "filter (\<lambda>l. key l = m) (concat (map G ms)) = G m"
  using assms
proof (induction ms)
  case Nil
  then show ?case by simp
next
  case (Cons a ms)
  have none: "filter (\<lambda>l. key l = m) (G m') = []" if "m' \<in> set (a # ms)" "m' \<noteq> m" for m'
    using Cons.prems(1) that by (auto simp: filter_empty_conv)
  have full: "filter (\<lambda>l. key l = m) (G m) = G m"
    using Cons.prems(1,3) by (auto simp: filter_id_conv)
  show ?case
  proof (cases "a = m")
    case True
    then have "m \<notin> set ms" using Cons.prems(2) by simp
    then have "filter (\<lambda>l. key l = m) (concat (map G ms)) = []"
      using none by (auto simp: filter_empty_conv)
    with True full show ?thesis by simp
  next
    case False
    then have "m \<in> set ms" using Cons.prems(3) by simp
    with Cons have "filter (\<lambda>l. key l = m) (concat (map G ms)) = G m" by simp
    moreover have "filter (\<lambda>l. key l = m) (G a) = []" using none[of a] False by simp
    ultimately show ?thesis by simp
  qed
qed

lemma bincount_grouped:
  assumes "\<forall>l\<in>set L. 0 \<le> key l" "L \<noteq> []"
  shows "bincount (map key L) (map W L)
           = Inr (map (\<lambda>m. fsum (map W (filter (\<lambda>l. key l = m) L))) [0..Max (set (map key L))])"
proof -
  have z: "zip (map key L) (map W L) = map (\<lambda>l. (key l, W l)) L"
    by (induction L) simp_all
  have "map snd (filter (\<lambda>p. fst p = m) (map (\<lambda>l. (key l, W l)) L))
          = map W (filter (\<lambda>l. key l = m) L)" for m
    by (induction L) simp_all
  then show ?thesis
    using assms by (simp add: bincount_def z list_ex_iff not_less)
qed

lemma gen_l_vec_list_sum:
  assumes "0 \<le> m" "1 \<le> n" "l \<in> set (gen_l_vec_list m n)"
  shows "sum_list l = m" "length l = nat n"
  using assms by (simp_all add: gen_l_vec_list_set label_vecs_def)

lemma gen_l_vec_list_nonempty:
  assumes "0 \<le> m" "1 \<le> n"
  shows "gen_l_vec_list m n \<noteq> []"
proof -
  have "replicate (nat n - 1) 0 @ [m] \<in> label_vecs m (nat n)"
    using assms by (simp add: label_vecs_def sum_list_replicate)
  then show ?thesis using gen_l_vec_list_set[OF assms] by auto
qed

lemma all_l_vecs:
  fixes n :: int
  assumes "0 \<le> m_max" "1 \<le> n"
  defines "L \<equiv> concat (map (\<lambda>m. gen_l_vec_list m n) [0..m_max])"
  shows "L \<noteq> []" "\<forall>l\<in>set L. 0 \<le> sum_list l" "Max (set (map sum_list L)) = m_max"
    "\<And>m. 0 \<le> m \<Longrightarrow> m \<le> m_max \<Longrightarrow> filter (\<lambda>l. sum_list l = m) L = gen_l_vec_list m n"
proof -
  have key: "\<forall>m'\<in>set [0..m_max]. \<forall>l\<in>set (gen_l_vec_list m' n). sum_list l = m'"
    using assms(2) by (auto simp: gen_l_vec_list_sum)
  have "0 \<in> set [0..m_max]" using assms(1) by simp
  then show ne: "L \<noteq> []"
    using gen_l_vec_list_nonempty[OF order_refl assms(2)]
    unfolding L_def by (simp del: set_upto) blast
  show nn: "\<forall>l\<in>set L. 0 \<le> sum_list l"
    using key unfolding L_def by auto
  show f: "filter (\<lambda>l. sum_list l = m) L = gen_l_vec_list m n" if "0 \<le> m" "m \<le> m_max" for m
    unfolding L_def by (rule filter_concat_key[OF key]) (use that in simp_all)
  have s: "set (map sum_list L) = {0..m_max}"
  proof (intro equalityI subsetI)
    fix x assume "x \<in> set (map sum_list L)"
    then show "x \<in> {0..m_max}" using key unfolding L_def by auto
  next
    fix x assume x: "x \<in> {0..m_max}"
    then obtain l where "l \<in> set (gen_l_vec_list x n)"
      using gen_l_vec_list_nonempty[of x n] assms(2) by (cases "gen_l_vec_list x n") auto
    moreover have "sum_list l = x" using calculation x assms(2) by (simp add: gen_l_vec_list_sum)
    ultimately have "l \<in> set L" "sum_list l = x" using x unfolding L_def by auto
    then show "x \<in> set (map sum_list L)" by auto
  qed
  show "Max (set (map sum_list L)) = m_max"
    unfolding s using assms(1) by (intro Max_eqI) auto
qed

lemma py_all_rows:
  assumes "\<And>i. i < n \<Longrightarrow> f i = Inr (g i)"
  shows "py_all (map f [0..<n]) = Inr (map g [0..<n])"
proof -
  have "map f [0..<n] = map (\<lambda>i. Inr (g i)) [0..<n]"
    using assms by (intro map_cong refl) simp
  then show ?thesis by (simp only: py_all_Inr)
qed

lemma sum_list_gen_l_vec_list:
  assumes "0 \<le> m" "0 < n"
  shows "sum_list (map f (gen_l_vec_list m (int n))) = sum f (label_vecs m n)"
proof -
  have "sum_list (map f (gen_l_vec_list m (int n))) = sum f (set (gen_l_vec_list m (int n)))"
    by (rule sum_list_distinct_conv_sum_set) (rule gen_l_vec_list_distinct[OF assms(1)])
  then show ?thesis using assms by (simp add: gen_l_vec_list_set)
qed

text \<open>The weights that one row passes to \<open>np.bincount\<close>, as a function of the label vector.\<close>

lemma weights_row:
  assumes "k_idx < length KS" "length E = n"
  shows "map (\<lambda>l_idx. comb ((map mult L) ! l_idx)
            (agg (map (\<lambda>i. h (C ! i ! ((map (map Y) (map (\<lambda>k. map (\<lambda>l. V k l) L) KS)) ! k_idx ! l_idx))
                              ((map (\<lambda>k. map (\<lambda>l. map (\<lambda>e. F k l e) E) L) (map P KS)) ! k_idx ! l_idx ! i))
                        [0..<n])))
           [0..<length L]
       = map (\<lambda>l. comb (mult l)
            (agg (map (\<lambda>i. h (C ! i ! Y (V (KS ! k_idx) l)) (F (P (KS ! k_idx)) l (E ! i))) [0..<n]))) L"
    (is "map ?f [0..<length L] = map ?g L")
proof -
  have "?f l_idx = ?g (L ! l_idx)" if l: "l_idx < length L" for l_idx
  proof -
    have a: "(map mult L) ! l_idx = mult (L ! l_idx)" using l by simp
    have b: "(map (map Y) (map (\<lambda>k. map (\<lambda>l. V k l) L) KS)) ! k_idx ! l_idx
               = Y (V (KS ! k_idx) (L ! l_idx))"
      using l assms(1) by simp
    have c: "(map (\<lambda>k. map (\<lambda>l. map (\<lambda>e. F k l e) E) L) (map P KS)) ! k_idx ! l_idx ! i
               = F (P (KS ! k_idx)) (L ! l_idx) (E ! i)" if "i < n" for i
      using l assms that by simp
    have "map (\<lambda>i. h (C ! i ! ((map (map Y) (map (\<lambda>k. map (\<lambda>l. V k l) L) KS)) ! k_idx ! l_idx))
                              ((map (\<lambda>k. map (\<lambda>l. map (\<lambda>e. F k l e) E) L) (map P KS)) ! k_idx ! l_idx ! i))
                        [0..<n]
        = map (\<lambda>i. h (C ! i ! Y (V (KS ! k_idx) (L ! l_idx)))
                              (F (P (KS ! k_idx)) (L ! l_idx) (E ! i))) [0..<n]"
      by (rule map_cong[OF refl]) (simp only: b c set_upt atLeastLessThan_iff)
    then show ?thesis by (simp only: a)
  qed
  then have "map ?f [0..<length L] = map (\<lambda>l_idx. ?g (L ! l_idx)) [0..<length L]"
    by (intro map_cong refl) simp
  also have "\<dots> = map ?g L" by (rule map_nth_fun)
  finally show ?thesis .
qed

text \<open>One row of \<open>m_sums\<close>: for each depth, the product of \<open>factor_1\<close> with the sum of the
  weights of the label vectors of that depth.\<close>

lemma m_sums_row:
  fixes C :: matrix and prior :: "real list" and n :: nat and k_vec_list :: matrix
    and gammaln :: "float64 \<Rightarrow> float64"
  assumes kidx: "k_idx < length k_vec_list" and n: "0 < n" and m: "0 \<le> m_max"
  defines "L \<equiv> concat (map (\<lambda>m. gen_l_vec_list m (int n)) [0..m_max])"
    and "Y \<equiv> \<lambda>kl. np_argmin (map (\<lambda>j. fsum (map (\<lambda>i. fmul (kl ! i) (Fin (C ! i ! j))) [0..<n]))
                                [0..<n_cols C])"
    and "V \<equiv> \<lambda>k l. fvec_add (map Fin k) (map (\<lambda>x. Fin (real_of_int x)) l)"
    and "P \<equiv> \<lambda>k. fvec_add (map Fin k) (map Fin prior)"
    and "F \<equiv> \<lambda>k l e. euler_beta gammaln
                        (fvec_add (fvec_add k (map (\<lambda>x. Fin (real_of_int x)) l)) (map Fin e))"
  shows "(case bincount (map sum_list L)
            (map (\<lambda>l_idx. fmul (map multinomial L ! l_idx)
                (fsum (map (\<lambda>i. fmul (Fin (C ! i !
                          (map (map Y) (map (\<lambda>k. map (\<lambda>l. V k l) L) k_vec_list) ! k_idx ! l_idx)))
                        (map (\<lambda>k. map (\<lambda>l. map (\<lambda>e. F k l e) (eye n)) L) (map P k_vec_list)
                           ! k_idx ! l_idx ! i))
                  [0..<n])))
              [0..<length L]) of
          Inl x \<Rightarrow> Inl x
        | Inr a \<Rightarrow> Inr (map (fmul (map (\<lambda>k. fdiv (Fin 1) (euler_beta gammaln k))
                                      (map P k_vec_list) ! k_idx)) a))
       = Inr (map (\<lambda>m. fmul (fdiv (Fin 1) (euler_beta gammaln (P (k_vec_list ! k_idx))))
                          (fsum (map (\<lambda>l. fmul (multinomial l)
                                   (fsum (map (\<lambda>i. fmul (Fin (C ! i ! Y (V (k_vec_list ! k_idx) l)))
                                                       (F (P (k_vec_list ! k_idx)) l (eye n ! i)))
                                            [0..<n])))
                                  (gen_l_vec_list m (int n)))))
                [0..m_max])"
proof -
  let ?k = "k_vec_list ! k_idx"
  let ?W = "\<lambda>l. fmul (multinomial l)
                 (fsum (map (\<lambda>i. fmul (Fin (C ! i ! Y (V ?k l))) (F (P ?k) l (eye n ! i))) [0..<n]))"
  have n1: "1 \<le> int n" using n by simp
  note Lf = all_l_vecs[OF m n1, folded L_def]
  have weights: "map (\<lambda>l_idx. fmul (map multinomial L ! l_idx)
                (fsum (map (\<lambda>i. fmul (Fin (C ! i !
                          (map (map Y) (map (\<lambda>k. map (\<lambda>l. V k l) L) k_vec_list) ! k_idx ! l_idx)))
                        (map (\<lambda>k. map (\<lambda>l. map (\<lambda>e. F k l e) (eye n)) L) (map P k_vec_list)
                           ! k_idx ! l_idx ! i))
                  [0..<n])))
              [0..<length L] = map ?W L"
    by (rule weights_row[where comb = fmul and agg = fsum and h = "\<lambda>c f. fmul (Fin c) f", OF kidx])
       (simp add: eye_def)
  have "bincount (map sum_list L) (map ?W L)
          = Inr (map (\<lambda>m. fsum (map ?W (filter (\<lambda>l. sum_list l = m) L))) [0..m_max])"
    using bincount_grouped[OF Lf(2) Lf(1), of ?W] by (simp only: Lf(3))
  also have "map (\<lambda>m. fsum (map ?W (filter (\<lambda>l. sum_list l = m) L))) [0..m_max]
          = map (\<lambda>m. fsum (map ?W (gen_l_vec_list m (int n)))) [0..m_max]"
  proof (intro map_cong refl)
    fix m' assume "m' \<in> set [0..m_max]"
    then have b: "0 \<le> m'" "m' \<le> m_max" by simp_all
    show "fsum (map ?W (filter (\<lambda>l. sum_list l = m') L)) = fsum (map ?W (gen_l_vec_list m' (int n)))"
      by (simp only: Lf(4)[OF b])
  qed
  finally have bc: "bincount (map sum_list L) (map ?W L)
          = Inr (map (\<lambda>m. fsum (map ?W (gen_l_vec_list m (int n)))) [0..m_max])" .
  have f1: "map (\<lambda>k. fdiv (Fin 1) (euler_beta gammaln k)) (map P k_vec_list) ! k_idx
          = fdiv (Fin 1) (euler_beta gammaln (P ?k))"
    using kidx by simp
  show ?thesis
    apply (simp only: weights)
    apply (simp only: bc sum.case f1)
    apply (simp only: map_map comp_def)
    done
qed

lemma upto_map_nth:
  assumes "m \<in> set [1..m_max]"
  shows "map ec [0..m_max] ! nat m = ec m"
proof -
  have "nat m < length [0..m_max]" using assms by simp
  moreover have "[0..m_max] ! nat m = m" using assms by (simp add: nth_upto)
  ultimately show ?thesis by (simp del: length_upto)
qed

lemma upto_map_nth0:
  assumes "0 \<le> m_max"
  shows "map ec [0..m_max] ! 0 = ec 0"
proof -
  have "0 < length [0..m_max]" using assms by simp
  moreover have "[0..m_max] ! 0 = 0" using assms by (simp add: nth_upto)
  ultimately show ?thesis by (simp del: length_upto)
qed

text \<open>The function as a composition: for each candidate, the largest of the gains per
  label, each formed from two entries of the candidate's row of \<open>m_sums\<close>.\<close>

lemma cost_reduction_rows:
  fixes C :: matrix and prior :: "real list" and n :: nat and k_vec_list :: matrix
    and gammaln :: "float64 \<Rightarrow> float64"
  assumes ne: "k_vec_list \<noteq> []"
    and rect: "list_all (\<lambda>k. length k = n) k_vec_list" and n: "0 < n"
    and C: "C = (case C_arg of None \<Rightarrow> one_minus_eye n | Some C' \<Rightarrow> C')"
    and lC: "length C = n" and cC: "0 < n_cols C"
    and m: "1 \<le> m_max"
    and pr: "broadcast_prior prior_arg n = Inr prior"
  defines "Y \<equiv> \<lambda>kl. np_argmin (map (\<lambda>j. fsum (map (\<lambda>i. fmul (kl ! i) (Fin (C ! i ! j))) [0..<n]))
                                [0..<n_cols C])"
    and "V \<equiv> \<lambda>k l. fvec_add (map Fin k) (map (\<lambda>x. Fin (real_of_int x)) l)"
    and "P \<equiv> \<lambda>k. fvec_add (map Fin k) (map Fin prior)"
    and "F \<equiv> \<lambda>k l e. euler_beta gammaln
                        (fvec_add (fvec_add k (map (\<lambda>x. Fin (real_of_int x)) l)) (map Fin e))"
  shows "cost_reduction gammaln k_vec_list C_arg m_max prior_arg =
     Inr (map (\<lambda>k. np_max (map (\<lambda>m.
            fdiv (fsub (fadd (Fin 0)
                    (fmul (fdiv (Fin 1) (euler_beta gammaln (P k)))
                          (fsum (map (\<lambda>l. fmul (multinomial l)
                                   (fsum (map (\<lambda>i. fmul (Fin (C ! i ! Y (V k l))) (F (P k) l (eye n ! i)))
                                            [0..<n])))
                                  (gen_l_vec_list 0 (int n))))))
                    (fmul (fdiv (Fin 1) (euler_beta gammaln (P k)))
                          (fsum (map (\<lambda>l. fmul (multinomial l)
                                   (fsum (map (\<lambda>i. fmul (Fin (C ! i ! Y (V k l))) (F (P k) l (eye n ! i)))
                                            [0..<n])))
                                  (gen_l_vec_list m (int n))))))
                 (Fin (real_of_int m)))
          [1..m_max])) k_vec_list)"
proof -
  obtain k0 ks where k: "k_vec_list = k0 # ks" using ne by (cases k_vec_list) auto
  have l0: "length k0 = n" using rect k by simp
  have c1: "\<not> m_max < 0" "m_max \<noteq> 0" and m0: "0 \<le> m_max" using m by simp_all
  have c2: "\<not> (length C \<noteq> n \<or> n_cols C = 0)" using lC cC by simp
  show ?thesis
    unfolding cost_reduction_def Let_def
    apply (simp only: k list.case l0 C[symmetric] c1 c2 if_False pr py_bind_def sum.case)
    apply (simp only: k[symmetric])
    apply (subst py_all_rows)
     apply (rule m_sums_row[OF _ n m0])
     apply assumption
    apply (simp only: sum.case map_map comp_def upto_map_nth0[OF m0])
    apply (simp only: upto_map_nth cong: map_cong)
    apply (simp only: Y_def V_def P_def F_def)
    apply (rule arg_cong[where f = Inr])
    apply (rule map_nth_fun)
    done
qed

text \<open>
  From \<open>m_max = 171\<close> on, every utility is \<open>nan\<close>: the factorial of \<open>m_max\<close> is
  \<open>inf\<close>, the multinomial coefficient of the label vector \<open>(0, ..., 0, m_max)\<close> is
  \<open>inf / inf\<close>, and the \<open>nan\<close> reaches the expected cost at depth \<open>m_max\<close>, the
  gain at that depth and the maximum of the gains.
\<close>

lemma np_max_NaN: "NaN \<in> set xs \<Longrightarrow> np_max xs = NaN"
  by (simp add: np_max_def)

lemma overflow_vec:
  assumes "171 \<le> m" "0 < n"
  shows "replicate (n - 1) 0 @ [m] \<in> set (gen_l_vec_list m (int n))"
    "multinomial (replicate (n - 1) 0 @ [m]) = NaN"
proof -
  have "replicate (n - 1) 0 @ [m] \<in> label_vecs m n"
    using assms by (simp add: label_vecs_def sum_list_replicate)
  then show "replicate (n - 1) 0 @ [m] \<in> set (gen_l_vec_list m (int n))"
    using gen_l_vec_list_set[of m "int n"] assms by simp
  show "multinomial (replicate (n - 1) 0 @ [m]) = NaN"
    by (rule multinomial_overflow[OF assms(1)])
qed

lemma gain_NaN:
  assumes "171 \<le> m_max" "0 < n"
  shows "np_max (map (\<lambda>m.
            fdiv (fsub a (fmul f (fsum (map (\<lambda>l. fmul (multinomial l) (w l))
                                        (gen_l_vec_list m (int n))))))
                 (Fin (real_of_int m)))
          [1..m_max]) = NaN"
proof -
  let ?l = "replicate (n - 1) 0 @ [m_max]"
  have "fmul (multinomial ?l) (w ?l) = NaN"
    by (simp only: overflow_vec(2)[OF assms] fmul.simps)
  then have "NaN \<in> set (map (\<lambda>l. fmul (multinomial l) (w l)) (gen_l_vec_list m_max (int n)))"
    using overflow_vec(1)[OF assms] by (metis (no_types, lifting) image_eqI list.set_map)
  then have "fsum (map (\<lambda>l. fmul (multinomial l) (w l)) (gen_l_vec_list m_max (int n))) = NaN"
    by (rule fsum_NaN)
  then have "fdiv (fsub a (fmul f (fsum (map (\<lambda>l. fmul (multinomial l) (w l))
                                        (gen_l_vec_list m_max (int n))))))
                 (Fin (real_of_int m_max)) = NaN"
    by simp
  moreover have "m_max \<in> set [1..m_max]" using assms(1) by simp
  ultimately have "NaN \<in> set (map (\<lambda>m.
            fdiv (fsub a (fmul f (fsum (map (\<lambda>l. fmul (multinomial l) (w l))
                                        (gen_l_vec_list m (int n))))))
                 (Fin (real_of_int m)))
          [1..m_max])"
    by (metis (no_types, lifting) image_eqI list.set_map)
  then show ?thesis by (rule np_max_NaN)
qed

lemma cost_reduction_overflow:
  fixes C :: matrix
  assumes ne: "k_vec_list \<noteq> []"
    and rect: "list_all (\<lambda>k. length k = n) k_vec_list" and n: "0 < n"
    and C: "C = (case C_arg of None \<Rightarrow> one_minus_eye n | Some C' \<Rightarrow> C')"
    and lC: "length C = n" and cC: "0 < n_cols C"
    and m: "171 \<le> m_max"
    and pr: "broadcast_prior prior_arg n = Inr prior"
  shows "cost_reduction gammaln k_vec_list C_arg m_max prior_arg
           = Inr (replicate (length k_vec_list) NaN)"
proof -
  have m1: "1 \<le> m_max" using m by simp
  show ?thesis
    by (simp only: cost_reduction_rows[OF ne rect n C lC cC m1 pr] gain_NaN[OF m n]
          map_replicate_const)
qed

lemma vec_add_nth: "i < length a \<Longrightarrow> i < length b \<Longrightarrow> vec_add a b ! i = a ! i + b ! i"
  by (simp add: vec_add_def)

lemma vec_add_length: "length a = length b \<Longrightarrow> length (vec_add a b) = length a"
  by (simp add: vec_add_def)

lemma eye_nth: "i < n \<Longrightarrow> eye n ! i = unit_vec n i"
  by (simp add: eye_def unit_vec_def)

lemma unit_vec_length: "length (unit_vec n j) = n"
  by (simp add: unit_vec_def)

lemma float_of_ints: "map (\<lambda>x. Fin (real_of_int x)) l = map Fin (map real_of_int l)"
  by simp

lemma broadcast_prior_length: "broadcast_prior p n = Inr prior \<Longrightarrow> length prior = n"
  by (auto simp: broadcast_prior_def split: prior_arg.splits if_splits)

text \<open>In the range, the decision of the source is the cost-optimal decision.\<close>

lemma decision_exact:
  assumes lk: "length k = n" and ll: "length l = n" and d: "decision_in_range C k l"
  shows "np_argmin (map (\<lambda>j. fsum (map (\<lambda>i.
            fmul (fvec_add (map Fin k) (map (\<lambda>x. Fin (real_of_int x)) l) ! i) (Fin (C ! i ! j)))
              [0..<n])) [0..<n_cols C]) = y_hat C k l"
proof -
  from d have r1: "\<forall>i<length k. in_range (k ! i + map real_of_int l ! i)"
    using lk ll by (simp add: decision_in_range_def)
  have v: "fvec_add (map Fin k) (map (\<lambda>x. Fin (real_of_int x)) l)
             = map Fin (vec_add k (map real_of_int l))"
    unfolding float_of_ints by (rule fvec_add_exact) (use lk ll r1 in simp_all)
  have col: "fsum (map (\<lambda>i. fmul (map Fin (vec_add k (map real_of_int l)) ! i) (Fin (C ! i ! j)))
                     [0..<n])
           = Fin (\<Sum>i<length k. (k ! i + real_of_int (l ! i)) * C ! i ! j)"
    if j: "j < n_cols C" for j
  proof -
    from d j have p: "\<forall>i<n. normal_or_zero ((k ! i + real_of_int (l ! i)) * C ! i ! j)"
      and s: "sum_in_range (map (\<lambda>i. (k ! i + real_of_int (l ! i)) * C ! i ! j) [0..<n])"
      using lk by (simp_all add: decision_in_range_def)
    have "map (\<lambda>i. fmul (map Fin (vec_add k (map real_of_int l)) ! i) (Fin (C ! i ! j))) [0..<n]
        = map Fin (map (\<lambda>i. (k ! i + real_of_int (l ! i)) * C ! i ! j) [0..<n])"
      using p lk ll by (simp add: vec_add_def round_prod_exact)
    then show ?thesis
      by (simp only: fsum_exact[OF s] sum_list_upt_sum lk)
  qed
  have "map (\<lambda>j. fsum (map (\<lambda>i. fmul (map Fin (vec_add k (map real_of_int l)) ! i) (Fin (C ! i ! j)))
                     [0..<n])) [0..<n_cols C]
      = map Fin (map (\<lambda>j. \<Sum>i<length k. (k ! i + real_of_int (l ! i)) * C ! i ! j) [0..<n_cols C])"
    using col by simp
  then show ?thesis
    by (simp only: v np_argmin_exact y_hat_def)
qed

text \<open>In the range, the weight of a label vector is its contribution to the expected cost.\<close>

lemma outcome_exact:
  assumes lk: "length k = n" and ll: "length l = n" and lp: "length prior = n"
    and nn: "\<forall>x\<in>set l. 0 \<le> x" and le: "sum_list l \<le> 170"
    and kp: "\<forall>i<length k. in_range (k ! i + prior ! i)"
    and d: "decision_in_range C k l" and o: "outcome_in_range gammaln lg C k prior l"
  shows "fmul (multinomial l)
           (fsum (map (\<lambda>i. fmul
              (Fin (C ! i ! np_argmin (map (\<lambda>j. fsum (map (\<lambda>i.
                    fmul (fvec_add (map Fin k) (map (\<lambda>x. Fin (real_of_int x)) l) ! i) (Fin (C ! i ! j)))
                      [0..<n])) [0..<n_cols C])))
              (euler_beta gammaln
                 (fvec_add (fvec_add (fvec_add (map Fin k) (map Fin prior))
                              (map (\<lambda>x. Fin (real_of_int x)) l))
                    (map Fin (eye n ! i)))))
            [0..<n]))
       = Fin (outcome_cost (beta_fn lg) C k prior l)"
proof -
  let ?k' = "vec_add k prior"
  let ?y = "y_hat C k l"
  have lk': "length ?k' = n" using lk lp by (simp add: vec_add_def)
  have p: "fvec_add (map Fin k) (map Fin prior) = map Fin ?k'"
    by (rule fvec_add_exact) (use lk lp kp in simp_all)
  from o have r1: "\<forall>i<length ?k'. in_range (?k' ! i + map real_of_int l ! i)"
    using lk lk' ll by (simp add: outcome_in_range_def)
  have kl: "fvec_add (map Fin ?k') (map (\<lambda>x. Fin (real_of_int x)) l)
              = map Fin (vec_add ?k' (map real_of_int l))"
    unfolding float_of_ints by (rule fvec_add_exact) (use lk' ll r1 in simp_all)
  have lkl: "length (vec_add ?k' (map real_of_int l)) = n"
    using lk' ll by (simp add: vec_add_def)
  have tm: "fmul (Fin (C ! i ! ?y))
                (euler_beta gammaln
                   (fvec_add (map Fin (vec_add ?k' (map real_of_int l))) (map Fin (eye n ! i))))
            = Fin (C ! i ! ?y * beta_fn lg (posterior k prior l i))"
    if i: "i < n" for i
  proof -
    from o i have a: "\<forall>i'<n. in_range (posterior k prior l i ! i')"
      and b: "beta_in_range gammaln lg (posterior k prior l i)"
      and c: "normal_or_zero (C ! i ! ?y * beta_fn lg (posterior k prior l i))"
      using lk by (simp_all add: outcome_in_range_def)
    have e: "eye n ! i = unit_vec n i" using i by (rule eye_nth)
    have "\<forall>i'<length (vec_add ?k' (map real_of_int l)).
            in_range (vec_add ?k' (map real_of_int l) ! i' + unit_vec n i ! i')"
    proof (intro allI impI)
      fix i' assume "i' < length (vec_add ?k' (map real_of_int l))"
      then have i': "i' < n" using lkl by simp
      have eq: "posterior k prior l i ! i' = vec_add ?k' (map real_of_int l) ! i' + unit_vec n i ! i'"
        unfolding posterior_def lk using i' lkl
        by (intro vec_add_nth) (simp_all add: unit_vec_length)
      from a i' have "in_range (posterior k prior l i ! i')" by blast
      then show "in_range (vec_add ?k' (map real_of_int l) ! i' + unit_vec n i ! i')"
        by (simp only: eq)
    qed
    then have "fvec_add (map Fin (vec_add ?k' (map real_of_int l))) (map Fin (unit_vec n i))
             = map Fin (posterior k prior l i)"
      unfolding posterior_def lk
      by (intro fvec_add_exact) (simp_all add: lkl unit_vec_length)
    then show ?thesis
      by (simp only: e euler_beta_exact[OF b] fmul_exact[OF c])
  qed
  from o have s: "sum_in_range (map (\<lambda>j. C ! j ! ?y * beta_fn lg (posterior k prior l j)) [0..<n])"
    and fin: "normal_or_zero (outcome_cost (beta_fn lg) C k prior l)"
    using lk by (simp_all add: outcome_in_range_def)
  have "map (\<lambda>i. fmul (Fin (C ! i ! ?y))
                (euler_beta gammaln
                   (fvec_add (map Fin (vec_add ?k' (map real_of_int l))) (map Fin (eye n ! i)))))
          [0..<n]
      = map Fin (map (\<lambda>j. C ! j ! ?y * beta_fn lg (posterior k prior l j)) [0..<n])"
    using tm by simp
  then have dot: "fsum (map (\<lambda>i. fmul (Fin (C ! i ! ?y))
                (euler_beta gammaln
                   (fvec_add (map Fin (vec_add ?k' (map real_of_int l))) (map Fin (eye n ! i)))))
          [0..<n])
      = Fin (\<Sum>j<length k. C ! j ! ?y * beta_fn lg (posterior k prior l j))"
    by (simp only: fsum_exact[OF s] sum_list_upt_sum lk)
  have fin': "normal_or_zero (multinomial_coeff l *
                 (\<Sum>j<length k. C ! j ! ?y * beta_fn lg (posterior k prior l j)))"
    using fin by (simp only: outcome_cost_def)
  show ?thesis
    by (simp only: decision_exact[OF lk ll d] p kl dot multinomial_exact[OF nn le]
          fmul_exact[OF fin'] outcome_cost_def)
qed

text \<open>In the range, an entry of \<open>m_sums\<close> is the expected cost at its depth.\<close>

lemma expected_exact:
  assumes lk: "length k = n" and lp: "length prior = n" and n: "0 < n"
    and m: "0 \<le> m" "m \<le> m_max"
    and rng: "cost_reduction_in_range gammaln lg C k prior m_max"
  shows "(fmul (fdiv (Fin 1) (euler_beta gammaln (fvec_add (map Fin k) (map Fin prior))))
           (fsum (map (\<lambda>l. fmul (multinomial l)
              (fsum (map (\<lambda>i. fmul
                 (Fin (C ! i ! np_argmin (map (\<lambda>j. fsum (map (\<lambda>i.
                       fmul (fvec_add (map Fin k) (map (\<lambda>x. Fin (real_of_int x)) l) ! i) (Fin (C ! i ! j)))
                         [0..<n])) [0..<n_cols C])))
                 (euler_beta gammaln
                    (fvec_add (fvec_add (fvec_add (map Fin k) (map Fin prior))
                                 (map (\<lambda>x. Fin (real_of_int x)) l))
                       (map Fin (eye n ! i)))))
               [0..<n])))
                   (gen_l_vec_list m (int n)))))
       = Fin (expected_cost (beta_fn lg) C k prior m)"
proof -
  let ?oc = "outcome_cost (beta_fn lg) C k prior"
  let ?k' = "vec_add k prior"
  have n1: "1 \<le> int n" using n by simp
  have mm: "m \<in> {0..m_max}" using m by simp
  from rng have m170: "m_max \<le> 170"
    and kp: "\<forall>i<length k. in_range (k ! i + prior ! i)"
    and bk: "beta_in_range gammaln lg ?k'"
    and f1: "normal_or_zero (1 / beta_fn lg ?k')"
    by (simp_all add: cost_reduction_in_range_def)
  from rng mm have each: "\<forall>l\<in>label_vecs m (length k).
           decision_in_range C k l \<and> outcome_in_range gammaln lg C k prior l"
    and tot: "(\<Sum>l\<in>label_vecs m (length k). \<bar>?oc l\<bar>) \<le> float_max"
    and ec: "normal_or_zero (expected_cost (beta_fn lg) C k prior m)"
    unfolding cost_reduction_in_range_def by blast+
  have w: "(\<lambda>l. fmul (multinomial l)
              (fsum (map (\<lambda>i. fmul
                 (Fin (C ! i ! np_argmin (map (\<lambda>j. fsum (map (\<lambda>i.
                       fmul (fvec_add (map Fin k) (map (\<lambda>x. Fin (real_of_int x)) l) ! i) (Fin (C ! i ! j)))
                         [0..<n])) [0..<n_cols C])))
                 (euler_beta gammaln
                    (fvec_add (fvec_add (fvec_add (map Fin k) (map Fin prior))
                                 (map (\<lambda>x. Fin (real_of_int x)) l))
                       (map Fin (eye n ! i)))))
               [0..<n]))) l = Fin (?oc l)"
    if l: "l \<in> set (gen_l_vec_list m (int n))" for l
  proof -
    from l have lv: "l \<in> label_vecs m n"
      using gen_l_vec_list_set[OF m(1) n1] by simp
    then have ll: "length l = n" and nn: "\<forall>x\<in>set l. 0 \<le> x" and sl: "sum_list l = m"
      by (simp_all add: label_vecs_def)
    have le: "sum_list l \<le> 170" using sl m(2) m170 by simp
    from each lv have d: "decision_in_range C k l" and o: "outcome_in_range gammaln lg C k prior l"
      using lk by simp_all
    show ?thesis by (rule outcome_exact[OF lk ll lp nn le kp d o])
  qed
  have ws: "map (\<lambda>l. fmul (multinomial l)
              (fsum (map (\<lambda>i. fmul
                 (Fin (C ! i ! np_argmin (map (\<lambda>j. fsum (map (\<lambda>i.
                       fmul (fvec_add (map Fin k) (map (\<lambda>x. Fin (real_of_int x)) l) ! i) (Fin (C ! i ! j)))
                         [0..<n])) [0..<n_cols C])))
                 (euler_beta gammaln
                    (fvec_add (fvec_add (fvec_add (map Fin k) (map Fin prior))
                                 (map (\<lambda>x. Fin (real_of_int x)) l))
                       (map Fin (eye n ! i)))))
               [0..<n]))) (gen_l_vec_list m (int n))
          = map Fin (map ?oc (gen_l_vec_list m (int n)))"
    unfolding map_map comp_def by (rule map_cong[OF refl]) (rule w)
  have "sum_list (map abs (map ?oc (gen_l_vec_list m (int n))))
          = (\<Sum>l\<in>label_vecs m n. \<bar>?oc l\<bar>)"
    unfolding map_map comp_def by (rule sum_list_gen_l_vec_list[OF m(1) n])
  then have sr: "sum_in_range (map ?oc (gen_l_vec_list m (int n)))"
    using tot lk by (simp add: sum_in_range_def)
  have total: "fsum (map Fin (map ?oc (gen_l_vec_list m (int n))))
          = Fin (\<Sum>l\<in>label_vecs m (length k). ?oc l)"
    by (simp only: fsum_exact[OF sr] sum_list_gen_l_vec_list[OF m(1) n] lk)
  have p: "fvec_add (map Fin k) (map Fin prior) = map Fin ?k'"
    by (rule fvec_add_exact) (use lk lp kp in simp_all)
  have b0: "beta_fn lg ?k' \<noteq> 0" by (simp add: beta_fn_def)
  have fac: "fdiv (Fin 1) (euler_beta gammaln (map Fin ?k')) = Fin (1 / beta_fn lg ?k')"
    by (simp only: euler_beta_exact[OF bk] fdiv_exact[OF b0 f1])
  have ec': "normal_or_zero (1 / beta_fn lg ?k' * (\<Sum>l\<in>label_vecs m (length k). ?oc l))"
    using ec by (simp only: expected_cost_def)
  show ?thesis
    apply (simp only: ws total)
    apply (simp only: p fac fmul_exact[OF ec'] expected_cost_def)
    done
qed

lemma gain_exact:
  assumes "e0 = Fin a" "em = Fin b" "normal_or_zero a" "in_range (a - b)"
    "1 \<le> m" "normal_or_zero ((a - b) / real_of_int m)"
  shows "fdiv (fsub (fadd (Fin 0) e0) em) (Fin (real_of_int m)) = Fin ((a - b) / real_of_int m)"
proof -
  have "in_range (0 + a)" using assms(3) by (simp add: normal_or_zero_in_range)
  then have z: "fadd (Fin 0) (Fin a) = Fin a" using fadd_exact[of 0 a] by simp
  have m0: "real_of_int m \<noteq> 0" using assms(5) by simp
  show ?thesis
    by (simp only: assms(1,2) z fsub_exact[OF assms(4)] fdiv_exact[OF m0 assms(6)])
qed

text \<open>In the range, the utility of a candidate is the largest gain per label.\<close>

lemma utility_exact:
  assumes lk: "length k = n" and lp: "length prior = n" and n: "0 < n"
    and m: "1 \<le> m_max"
    and rng: "cost_reduction_in_range gammaln lg C k prior m_max"
  shows "np_max (map (\<lambda>m.
            fdiv (fsub (fadd (Fin 0)
                    (fmul (fdiv (Fin 1) (euler_beta gammaln (fvec_add (map Fin k) (map Fin prior))))
           (fsum (map (\<lambda>l. fmul (multinomial l)
              (fsum (map (\<lambda>i. fmul
                 (Fin (C ! i ! np_argmin (map (\<lambda>j. fsum (map (\<lambda>i.
                       fmul (fvec_add (map Fin k) (map (\<lambda>x. Fin (real_of_int x)) l) ! i) (Fin (C ! i ! j)))
                         [0..<n])) [0..<n_cols C])))
                 (euler_beta gammaln
                    (fvec_add (fvec_add (fvec_add (map Fin k) (map Fin prior))
                                 (map (\<lambda>x. Fin (real_of_int x)) l))
                       (map Fin (eye n ! i)))))
               [0..<n])))
                   (gen_l_vec_list 0 (int n))))))
                    (fmul (fdiv (Fin 1) (euler_beta gammaln (fvec_add (map Fin k) (map Fin prior))))
           (fsum (map (\<lambda>l. fmul (multinomial l)
              (fsum (map (\<lambda>i. fmul
                 (Fin (C ! i ! np_argmin (map (\<lambda>j. fsum (map (\<lambda>i.
                       fmul (fvec_add (map Fin k) (map (\<lambda>x. Fin (real_of_int x)) l) ! i) (Fin (C ! i ! j)))
                         [0..<n])) [0..<n_cols C])))
                 (euler_beta gammaln
                    (fvec_add (fvec_add (fvec_add (map Fin k) (map Fin prior))
                                 (map (\<lambda>x. Fin (real_of_int x)) l))
                       (map Fin (eye n ! i)))))
               [0..<n])))
                   (gen_l_vec_list m (int n))))))
                 (Fin (real_of_int m)))
          [1..m_max])
       = Fin (max_normalized_gain (beta_fn lg) C k prior m_max)"
proof -
  let ?ec = "expected_cost (beta_fn lg) C k prior"
  have m0: "(0::int) \<le> 0" "0 \<le> m_max" using m by simp_all
  note e0 = expected_exact[OF lk lp n m0 rng]
  from rng m0 have z: "normal_or_zero (?ec 0)"
    by (simp add: cost_reduction_in_range_def)
  have g: "fdiv (fsub (fadd (Fin 0)
                    (fmul (fdiv (Fin 1) (euler_beta gammaln (fvec_add (map Fin k) (map Fin prior))))
           (fsum (map (\<lambda>l. fmul (multinomial l)
              (fsum (map (\<lambda>i. fmul
                 (Fin (C ! i ! np_argmin (map (\<lambda>j. fsum (map (\<lambda>i.
                       fmul (fvec_add (map Fin k) (map (\<lambda>x. Fin (real_of_int x)) l) ! i) (Fin (C ! i ! j)))
                         [0..<n])) [0..<n_cols C])))
                 (euler_beta gammaln
                    (fvec_add (fvec_add (fvec_add (map Fin k) (map Fin prior))
                                 (map (\<lambda>x. Fin (real_of_int x)) l))
                       (map Fin (eye n ! i)))))
               [0..<n])))
                   (gen_l_vec_list 0 (int n))))))
                    (fmul (fdiv (Fin 1) (euler_beta gammaln (fvec_add (map Fin k) (map Fin prior))))
           (fsum (map (\<lambda>l. fmul (multinomial l)
              (fsum (map (\<lambda>i. fmul
                 (Fin (C ! i ! np_argmin (map (\<lambda>j. fsum (map (\<lambda>i.
                       fmul (fvec_add (map Fin k) (map (\<lambda>x. Fin (real_of_int x)) l) ! i) (Fin (C ! i ! j)))
                         [0..<n])) [0..<n_cols C])))
                 (euler_beta gammaln
                    (fvec_add (fvec_add (fvec_add (map Fin k) (map Fin prior))
                                 (map (\<lambda>x. Fin (real_of_int x)) l))
                       (map Fin (eye n ! i)))))
               [0..<n])))
                   (gen_l_vec_list m' (int n))))))
                 (Fin (real_of_int m'))
         = Fin ((?ec 0 - ?ec m') / real_of_int m')"
    if m': "m' \<in> set [1..m_max]" for m'
  proof -
    from m' have b: "0 \<le> m'" "m' \<le> m_max" "1 \<le> m'" "m' \<in> {1..m_max}" by simp_all
    from rng b(4) have d: "in_range (?ec 0 - ?ec m')"
      and q: "normal_or_zero ((?ec 0 - ?ec m') / real_of_int m')"
      unfolding cost_reduction_in_range_def by blast+
    show ?thesis
      by (rule gain_exact[OF e0 expected_exact[OF lk lp n b(1,2) rng] z d b(3) q])
  qed
  have gains: "map (\<lambda>m.
            fdiv (fsub (fadd (Fin 0)
                    (fmul (fdiv (Fin 1) (euler_beta gammaln (fvec_add (map Fin k) (map Fin prior))))
           (fsum (map (\<lambda>l. fmul (multinomial l)
              (fsum (map (\<lambda>i. fmul
                 (Fin (C ! i ! np_argmin (map (\<lambda>j. fsum (map (\<lambda>i.
                       fmul (fvec_add (map Fin k) (map (\<lambda>x. Fin (real_of_int x)) l) ! i) (Fin (C ! i ! j)))
                         [0..<n])) [0..<n_cols C])))
                 (euler_beta gammaln
                    (fvec_add (fvec_add (fvec_add (map Fin k) (map Fin prior))
                                 (map (\<lambda>x. Fin (real_of_int x)) l))
                       (map Fin (eye n ! i)))))
               [0..<n])))
                   (gen_l_vec_list 0 (int n))))))
                    (fmul (fdiv (Fin 1) (euler_beta gammaln (fvec_add (map Fin k) (map Fin prior))))
           (fsum (map (\<lambda>l. fmul (multinomial l)
              (fsum (map (\<lambda>i. fmul
                 (Fin (C ! i ! np_argmin (map (\<lambda>j. fsum (map (\<lambda>i.
                       fmul (fvec_add (map Fin k) (map (\<lambda>x. Fin (real_of_int x)) l) ! i) (Fin (C ! i ! j)))
                         [0..<n])) [0..<n_cols C])))
                 (euler_beta gammaln
                    (fvec_add (fvec_add (fvec_add (map Fin k) (map Fin prior))
                                 (map (\<lambda>x. Fin (real_of_int x)) l))
                       (map Fin (eye n ! i)))))
               [0..<n])))
                   (gen_l_vec_list m (int n))))))
                 (Fin (real_of_int m)))
          [1..m_max]
       = map Fin (map (\<lambda>m. (?ec 0 - ?ec m) / real_of_int m) [1..m_max])"
    unfolding map_map comp_def by (rule map_cong[OF refl]) (rule g)
  have nonempty: "map (\<lambda>m. (?ec 0 - ?ec m) / real_of_int m) [1..m_max] \<noteq> []"
    using m by simp
  show ?thesis
    unfolding gains
    by (simp only: np_max_exact[OF nonempty] max_normalized_gain_def set_map set_upto)
qed

text \<open>
  Claim C1, on the floating-point range. \<open>_cost_reduction\<close> computes in floats, and a
  result that leaves their range makes the utility \<open>nan\<close> (the factorial of \<open>171\<close>
  and more is \<open>inf\<close>; an exponential below \<open>2^-1075\<close> is \<open>0\<close>, whose inverse
  is \<open>inf\<close>). For a non-empty list of class-frequency vectors over \<open>n \<ge> 1\<close> classes,
  a cost matrix \<open>C\<close> (with \<open>n\<close> rows; \<open>1 - I\<close> when none is given), a prior and
  \<open>m_max \<ge> 1\<close> such that every intermediate result of the evaluation stays in the
  range (\<open>cost_reduction_in_range\<close>, which includes \<open>m_max \<le> 170\<close>), and with the rounding
  inside the range idealised, \<open>_cost_reduction\<close> returns, for each candidate \<open>k\<close>, the
  maximum over \<open>m \<in> {1, ..., m_max}\<close> of (expected cost at \<open>m = 0\<close> minus expected cost at
  depth \<open>m\<close>) divided by \<open>m\<close>, where the expected cost at a depth is the sum over all
  label vectors \<open>l\<close> summing to \<open>m\<close> of
  \<open>1 / B(k + prior) * Multinomial(l) * (\<Sum>j. C[j, y_hat] * B(k + prior + l + e\<^sub>j))\<close> with
  \<open>y_hat = argmin\<^sub>j (k + l) \<cdot> C[:, j]\<close>.
\<close>

theorem cost_reduction_closed_form_in_range:
  assumes ne: "k_vec_list \<noteq> []"
    and rect: "list_all (\<lambda>k. length k = n) k_vec_list" and n: "0 < n"
    and C: "C = (case C_arg of None \<Rightarrow> one_minus_eye n | Some C' \<Rightarrow> C')"
    and lC: "length C = n" and cC: "0 < n_cols C"
    and m: "1 \<le> m_max"
    and pr: "broadcast_prior prior_arg n = Inr prior"
    and rng: "\<forall>k\<in>set k_vec_list. cost_reduction_in_range gammaln lg C k prior m_max"
  shows "cost_reduction gammaln k_vec_list C_arg m_max prior_arg =
           Inr (map (\<lambda>k. Fin (max_normalized_gain (beta_fn lg) C k prior m_max)) k_vec_list)"
proof -
  have lp: "length prior = n" using pr by (rule broadcast_prior_length)
  have u: "np_max (map (\<lambda>m.
            fdiv (fsub (fadd (Fin 0)
                    (fmul (fdiv (Fin 1) (euler_beta gammaln (fvec_add (map Fin k) (map Fin prior))))
           (fsum (map (\<lambda>l. fmul (multinomial l)
              (fsum (map (\<lambda>i. fmul
                 (Fin (C ! i ! np_argmin (map (\<lambda>j. fsum (map (\<lambda>i.
                       fmul (fvec_add (map Fin k) (map (\<lambda>x. Fin (real_of_int x)) l) ! i) (Fin (C ! i ! j)))
                         [0..<n])) [0..<n_cols C])))
                 (euler_beta gammaln
                    (fvec_add (fvec_add (fvec_add (map Fin k) (map Fin prior))
                                 (map (\<lambda>x. Fin (real_of_int x)) l))
                       (map Fin (eye n ! i)))))
               [0..<n])))
                   (gen_l_vec_list 0 (int n))))))
                    (fmul (fdiv (Fin 1) (euler_beta gammaln (fvec_add (map Fin k) (map Fin prior))))
           (fsum (map (\<lambda>l. fmul (multinomial l)
              (fsum (map (\<lambda>i. fmul
                 (Fin (C ! i ! np_argmin (map (\<lambda>j. fsum (map (\<lambda>i.
                       fmul (fvec_add (map Fin k) (map (\<lambda>x. Fin (real_of_int x)) l) ! i) (Fin (C ! i ! j)))
                         [0..<n])) [0..<n_cols C])))
                 (euler_beta gammaln
                    (fvec_add (fvec_add (fvec_add (map Fin k) (map Fin prior))
                                 (map (\<lambda>x. Fin (real_of_int x)) l))
                       (map Fin (eye n ! i)))))
               [0..<n])))
                   (gen_l_vec_list m (int n))))))
                 (Fin (real_of_int m)))
          [1..m_max])
       = Fin (max_normalized_gain (beta_fn lg) C k prior m_max)"
    if "k \<in> set k_vec_list" for k
  proof -
    from that rect have lk: "length k = n" by (simp add: list_all_iff)
    from that rng have r: "cost_reduction_in_range gammaln lg C k prior m_max" by blast
    show ?thesis by (rule utility_exact[OF lk lp n m r])
  qed
  show ?thesis
    unfolding cost_reduction_rows[OF ne rect n C lC cC m pr]
    by (rule arg_cong[where f = Inr], rule map_cong[OF refl]) (rule u)
qed

text \<open>
  The evaluations below take log-gamma at the positive integers, \<open>ln ((x - 1)!)\<close>. For
  one candidate without labelled neighbours, two classes, the prior \<open>1\<close> and
  \<open>m_max = 1\<close> the expected cost falls from \<open>1/2\<close> to \<open>1/3\<close>, and the utility is
  \<open>1/6\<close>.
\<close>

lemma small_in_range: "\<bar>x\<bar> \<le> 1024 \<Longrightarrow> in_range x"
  unfolding in_range_def float_max_def by simp

lemma small_normal: "1 / 1024 \<le> \<bar>x\<bar> \<Longrightarrow> \<bar>x\<bar> \<le> 1024 \<Longrightarrow> normal_or_zero x"
  unfolding normal_or_zero_def float_max_def min_normal_def by simp

lemma zero_normal: "normal_or_zero 0"
  by (simp add: normal_or_zero_def)

lemma lgamma_int_values:
  "lgamma_int 1 = 0" "lgamma_int 2 = 0" "lgamma_int 3 = ln 2" "lgamma_int 4 = ln 6"
  by (simp_all add: lgamma_int_def fact_numeral)

lemma label_vecs_small:
  "label_vecs 0 2 = {[0, 0]}" "label_vecs 1 2 = {[0, 1], [1, 0]}"
proof -
  have a: "gen_l_vec_list 0 2 = [[0, 0]]" by code_simp
  have b: "gen_l_vec_list 1 2 = [[0, 1], [1, 0]]" by code_simp
  show "label_vecs 0 2 = {[0, 0]}" using gen_l_vec_list_set[of 0 2] by (simp add: a)
  show "label_vecs 1 2 = {[0, 1], [1, 0]}" using gen_l_vec_list_set[of 1 2] by (simp add: b)
qed

lemma depth_cases: "(\<forall>m\<in>{0..1::int}. P m) \<longleftrightarrow> P 0 \<and> P 1"
proof -
  have "{0..1::int} = {0, 1}" by auto
  then show ?thesis by simp
qed

lemma beta_values:
  "beta_fn lgamma_int [1, 1] = 1" "beta_fn lgamma_int [2, 1] = 1 / 2"
  "beta_fn lgamma_int [1, 2] = 1 / 2" "beta_fn lgamma_int [3, 1] = 1 / 3"
  "beta_fn lgamma_int [1, 3] = 1 / 3" "beta_fn lgamma_int [2, 2] = 1 / 6"
  by (simp_all add: beta_fn_def lgamma_int_values exp_minus inverse_eq_divide exp_diff)

lemma one_minus_eye_2: "one_minus_eye 2 = [[0, 1], [1, 0]]"
  by code_simp

lemma ln_bounds: "0 \<le> ln (2::real)" "ln (2::real) \<le> 1" "0 \<le> ln (6::real)" "ln (6::real) \<le> 5"
proof -
  show "0 \<le> ln (2::real)" by simp
  show "0 \<le> ln (6::real)" by simp
  have "ln (2::real) \<le> 2 - 1" by (rule ln_le_minus_one) simp
  then show "ln (2::real) \<le> 1" by simp
  have "ln (6::real) \<le> 6 - 1" by (rule ln_le_minus_one) simp
  then show "ln (6::real) \<le> 5" by simp
qed

lemma in_rangeI: "- 1024 \<le> x \<Longrightarrow> x \<le> 1024 \<Longrightarrow> in_range x"
  by (rule small_in_range) (simp add: abs_le_iff)

lemma sum_in_range_small: "sum_list (map abs xs) \<le> 1024 \<Longrightarrow> sum_in_range xs"
  unfolding sum_in_range_def float_max_def by simp

lemma ln_ranges: "in_range (- ln 2)" "in_range (ln 2 - ln 6)" "in_range (- ln 6)" "in_range 0"
  by (rule in_rangeI; use ln_bounds in linarith)+

lemma sum_lessThan_2: "(\<Sum>j<2. f j) = f 0 + f (Suc 0)"
  by (simp add: lessThan_Suc numeral_2_eq_2 add.commute)

lemma beta_ranges:
  "beta_in_range gammaln_int lgamma_int [1, 1]" "beta_in_range gammaln_int lgamma_int [2, 1]"
  "beta_in_range gammaln_int lgamma_int [1, 2]" "beta_in_range gammaln_int lgamma_int [3, 1]"
  "beta_in_range gammaln_int lgamma_int [1, 3]" "beta_in_range gammaln_int lgamma_int [2, 2]"
  using ln_bounds
  by (simp_all add: beta_in_range_def gammaln_int_def beta_values lgamma_int_values
        sum_in_range_small ln_ranges small_normal)

lemma y_hat_values:
  "y_hat [[0, 1], [1, 0]] [0, 0] [0, 0] = 0"
  "y_hat [[0, 1], [1, 0]] [0, 0] [1, 0] = 0"
  "y_hat [[0, 1], [1, 0]] [0, 0] [0, 1] = 1"
  by (simp_all add: y_hat_def n_cols_def argmin_def sum_lessThan_2 upt_rec)

lemma posterior_values:
  "posterior [0, 0] [1, 1] [0, 0] 0 = [2, 1]" "posterior [0, 0] [1, 1] [0, 0] (Suc 0) = [1, 2]"
  "posterior [0, 0] [1, 1] [1, 0] 0 = [3, 1]" "posterior [0, 0] [1, 1] [1, 0] (Suc 0) = [2, 2]"
  "posterior [0, 0] [1, 1] [0, 1] 0 = [2, 2]" "posterior [0, 0] [1, 1] [0, 1] (Suc 0) = [1, 3]"
  by (simp_all add: posterior_def vec_add_def unit_vec_def upt_rec)

lemma outcome_values:
  "outcome_cost (beta_fn lgamma_int) [[0, 1], [1, 0]] [0, 0] [1, 1] [0, 0] = 1 / 2"
  "outcome_cost (beta_fn lgamma_int) [[0, 1], [1, 0]] [0, 0] [1, 1] [1, 0] = 1 / 6"
  "outcome_cost (beta_fn lgamma_int) [[0, 1], [1, 0]] [0, 0] [1, 1] [0, 1] = 1 / 6"
  by (simp_all add: outcome_cost_def multinomial_coeff_def y_hat_values posterior_values
        beta_values sum_lessThan_2)

lemma expected_values:
  "expected_cost (beta_fn lgamma_int) [[0, 1], [1, 0]] [0, 0] [1, 1] 0 = 1 / 2"
  "expected_cost (beta_fn lgamma_int) [[0, 1], [1, 0]] [0, 0] [1, 1] 1 = 1 / 3"
  by (simp_all add: expected_cost_def label_vecs_small[unfolded numeral_2_eq_2] outcome_values
        beta_values vec_add_def)

lemma all_less_2: "(\<forall>i<2. P i) \<longleftrightarrow> P 0 \<and> P (Suc 0)"
  by (auto simp: numeral_2_eq_2 less_Suc_eq)

lemma all_less_2': "(\<forall>i<Suc (Suc 0). P i) \<longleftrightarrow> P 0 \<and> P (Suc 0)"
  by (auto simp: less_Suc_eq)

lemma small_values:
  "normal_or_zero 0" "normal_or_zero 1" "normal_or_zero (1 / 2)" "normal_or_zero (1 / 3)"
  "normal_or_zero (1 / 6)" "normal_or_zero 6"
  "in_range 0" "in_range 1" "in_range 2" "in_range 3" "in_range (1 / 6)"
  by (simp add: zero_normal, (rule small_normal; simp)+, (rule in_rangeI; simp)+)

lemma decision_ranges:
  "decision_in_range [[0, 1], [1, 0]] [0, 0] [0, 0]"
  "decision_in_range [[0, 1], [1, 0]] [0, 0] [1, 0]"
  "decision_in_range [[0, 1], [1, 0]] [0, 0] [0, 1]"
  by (simp_all add: decision_in_range_def n_cols_def all_less_2' small_values sum_in_range_small
        upt_rec)

lemma outcome_ranges:
  "outcome_in_range gammaln_int lgamma_int [[0, 1], [1, 0]] [0, 0] [1, 1] [0, 0]"
  "outcome_in_range gammaln_int lgamma_int [[0, 1], [1, 0]] [0, 0] [1, 1] [1, 0]"
  "outcome_in_range gammaln_int lgamma_int [[0, 1], [1, 0]] [0, 0] [1, 1] [0, 1]"
  by (simp_all add: outcome_in_range_def all_less_2' small_values sum_in_range_small upt_rec
        vec_add_def posterior_values beta_values beta_ranges y_hat_values outcome_values)

lemma example_in_range:
  "cost_reduction_in_range gammaln_int lgamma_int [[0, 1], [1, 0]] [0, 0] [1, 1] 1"
  unfolding cost_reduction_in_range_def
  by (simp add: all_less_2' depth_cases small_values vec_add_def beta_values beta_ranges
        label_vecs_small[unfolded numeral_2_eq_2] decision_ranges outcome_ranges outcome_values
        expected_values float_max_def)

theorem cost_reduction_closed_form_in_range_witness:
  "cost_reduction gammaln_int [[0, 0]] None 1 (PriorScalar 1)
     = Inr (map (\<lambda>k. Fin (max_normalized_gain (beta_fn lgamma_int) (one_minus_eye 2) k [1, 1] 1))
              [[0, 0]])
   \<and> max_normalized_gain (beta_fn lgamma_int) (one_minus_eye 2) [0, 0] [1, 1] 1 = 1 / 6"
proof -
  have o: "one_minus_eye 2 = [[0, 1], [1, 0]]" by code_simp
  have h1: "[[0, 0]] \<noteq> ([] :: matrix)" by simp
  have h2: "list_all (\<lambda>k. length k = 2) [[0, 0 :: real]]" by simp
  have h3: "one_minus_eye 2 = (case None of None \<Rightarrow> one_minus_eye 2 | Some C' \<Rightarrow> C')" by simp
  have h4: "length (one_minus_eye 2) = 2" unfolding o by simp
  have h5: "0 < n_cols (one_minus_eye 2)" unfolding o by (simp add: n_cols_def)
  have h6: "broadcast_prior (PriorScalar 1) 2 = Inr [1, 1]"
    by (simp add: broadcast_prior_def numeral_2_eq_2)
  have h7: "\<forall>k\<in>set [[0, 0]].
              cost_reduction_in_range gammaln_int lgamma_int (one_minus_eye 2) k [1, 1] 1"
    unfolding o by (simp add: example_in_range)
  have v: "max_normalized_gain (beta_fn lgamma_int) (one_minus_eye 2) [0, 0] [1, 1] 1 = 1 / 6"
    unfolding o by (simp add: max_normalized_gain_def expected_values)
  have "cost_reduction gammaln_int [[0, 0]] None 1 (PriorScalar 1)
     = Inr (map (\<lambda>k. Fin (max_normalized_gain (beta_fn lgamma_int) (one_minus_eye 2) k [1, 1] 1))
              [[0, 0]])"
    by (rule cost_reduction_closed_form_in_range[OF h1 h2 _ h3 h4 h5 _ h6 h7]) simp_all
  with v show ?thesis by blast
qed

text \<open>
  For the frequencies \<open>(5, 5)\<close>, the prior \<open>1\<close> and \<open>m_max = 171\<close> the utility is
  \<open>nan\<close>, not the closed form.
\<close>

theorem cost_reduction_closed_form_counterexample:
  "cost_reduction gammaln_int [[5, 5]] None 171 (PriorScalar 1) = Inr [NaN]
   \<and> cost_reduction gammaln_int [[5, 5]] None 171 (PriorScalar 1)
       \<noteq> Inr [Fin (max_normalized_gain (beta_fn lgamma_int) (one_minus_eye 2) [5, 5] [1, 1] 171)]"
proof -
  have o: "one_minus_eye 2 = [[0, 1], [1, 0]]" by code_simp
  have h1: "[[5, 5]] \<noteq> ([] :: matrix)" by simp
  have h2: "list_all (\<lambda>k. length k = 2) [[5, 5 :: real]]" by simp
  have h3: "one_minus_eye 2 = (case None of None \<Rightarrow> one_minus_eye 2 | Some C' \<Rightarrow> C')" by simp
  have h4: "length (one_minus_eye 2) = 2" unfolding o by simp
  have h5: "0 < n_cols (one_minus_eye 2)" unfolding o by (simp add: n_cols_def)
  have h6: "broadcast_prior (PriorScalar 1) 2 = Inr [1, 1]"
    by (simp add: broadcast_prior_def numeral_2_eq_2)
  have "cost_reduction gammaln_int [[5, 5]] None 171 (PriorScalar 1)
          = Inr (replicate (length [[5, 5 :: real]]) NaN)"
    by (rule cost_reduction_overflow[OF h1 h2 _ h3 h4 h5 _ h6]) simp_all
  then show ?thesis by simp
qed

subsection \<open>Errors of the query before the selection\<close>

lemma transform_metric_cost_vector:
  "transform_metric chk ''cost-vector'' cm cv pf n = Inl ValueError"
  by (simp add: transform_metric_def shape_def split: option.splits ndarray.splits)

text \<open>
  Claim C6 (the code deviates). With the metric \<open>cost-vector\<close> the transform never
  resolves a cost matrix: the test \<^verbatim>\<open>cost_vector.shape != (n_classes)\<close> compares a
  tuple with an integer and holds for every array, so \<open>_transform_metric\<close> raises
  \<open>ValueError\<close> for every cost vector, also one of shape \<open>(n_classes,)\<close>; and so
  does every query with this metric.
\<close>

theorem query_cost_vector_raises:
  "transform_metric check_cost_matrix ''cost-vector'' cost_matrix cost_vector perf_func n_classes
     = Inl ValueError
   \<and> (self_metric self = ''cost-vector'' \<longrightarrow>
        query env self X_cand X y X_eval batch_size sample_weight = Inl ValueError)"
  by (simp add: transform_metric_cost_vector query_def query_setup_def py_bind_def)

theorem query_cost_vector_raises_witness:
  "transform_metric (\<lambda>_ _. Inr ()) ''cost-vector'' None (Some (Arr1 [1, 2])) None 2
     = Inl ValueError
   \<and> self_metric (example_xpal\<lparr>self_metric := ''cost-vector'',
                                  self_cost_vector := Some (Arr1 [1, 2])\<rparr>) = ''cost-vector''
   \<and> query example_env
         (example_xpal\<lparr>self_metric := ''cost-vector'', self_cost_vector := Some (Arr1 [1, 2])\<rparr>)
         [10, 11] [20, 21] [Some 0, Some 1] (Some [30, 31]) 1 None = Inl ValueError"
  using query_cost_vector_raises
    [of "\<lambda>_ _. Inr ()" None "Some (Arr1 [1, 2])" None 2
        "example_xpal\<lparr>self_metric := ''cost-vector'', self_cost_vector := Some (Arr1 [1, 2])\<rparr>"
        example_env "[10, 11]" "[20, 21]" "[Some 0, Some 1]" "Some [30, 31]" 1 None]
  by simp

subsection \<open>The mode \<open>full\<close> with a look-ahead\<close>

lemma query_full_lookahead:
  assumes "self_batch_mode self = ''full''" and "1 < self_nonmyopic_look_ahead self"
  shows "query env self X_cand X y X_eval batch_size sample_weight =
           (case query_setup env self X_cand X y X_eval batch_size sample_weight of
              Inl e \<Rightarrow> Inl e | Inr p \<Rightarrow> Inl NotImplementedError)"
  using assms by (simp add: query_def query_select_def py_bind_def split: sum.splits)

lemma raised_py_bind:
  "raised (py_bind m f) = (case m of Inl e \<Rightarrow> Some e | Inr a \<Rightarrow> raised (f a))"
  by (cases m) (simp_all add: py_bind_def raised_def)

lemma raised_Inr: "raised (Inr a) = None"
  by (simp add: raised_def)

lemma query_setup_raised_independent:
  "raised (query_setup (env\<lparr>env_clf := clf', env_pwc := pwc', env_rand_argmax := rand_argmax',
                         env_np_empty := np_empty'\<rparr>)
            self X_cand X y X_eval batch_size sample_weight)
   = raised (query_setup env self X_cand X y X_eval batch_size sample_weight)"
proof -
  let ?env' = "env\<lparr>env_clf := clf', env_pwc := pwc', env_rand_argmax := rand_argmax',
                     env_np_empty := np_empty'\<rparr>"
  have sel: "env_check_cost_matrix ?env' = env_check_cost_matrix env"
    "env_n_classes ?env' = env_n_classes env"
    "env_linalg_inv ?env' = env_linalg_inv env"
    "env_pairwise_kernels ?env' = env_pairwise_kernels env"
    "env_nan ?env' = env_nan env"
    by simp_all
  show ?thesis
    unfolding query_setup_def Let_def sel
    by (simp only: raised_py_bind raised_Inr case_prod_beta)
qed

lemma unsupported_by_raised:
  "(case r of Inl e \<Rightarrow> Inl e | Inr p \<Rightarrow> Inl NotImplementedError)
     = (case raised r of Some e \<Rightarrow> Inl e | None \<Rightarrow> Inl NotImplementedError)"
  by (cases r) (simp_all add: raised_def)

text \<open>
  Claim C7, as stated, fails: the test of the mode stands at the dispatch on
  \<open>batch_mode\<close> (line 378), after the metric transform, the prior derivation and the
  kernel matrices. With the metric \<open>macro-accuracy\<close> the prior derivation raises
  \<open>TypeError\<close> first; with a single class the inversion of the cost matrix \<open>[[0]]\<close>
  raises \<open>LinAlgError\<close> first.
\<close>

theorem query_full_lookahead_counterexample:
  "query example_env
     (example_xpal\<lparr>self_metric := ''macro-accuracy'', self_batch_mode := ''full'',
                     self_nonmyopic_look_ahead := 2\<rparr>)
     [10, 11] [20, 21] [Some 0, Some 1] (Some [30, 31]) 1 None = Inl TypeError
   \<and> query (example_env\<lparr>env_n_classes := 1\<rparr>)
       (example_xpal\<lparr>self_batch_mode := ''full'', self_nonmyopic_look_ahead := 2\<rparr>)
       [10, 11] [20, 21] [Some 0, Some 0] (Some [30, 31]) 1 None = Inl LinAlgError"
  by code_simp

text \<open>
  Claim C7, amended. For every call with \<open>batch_mode = full\<close> and
  \<open>nonmyopic_look_ahead > 1\<close> the query returns no selection and evaluates no
  utility: its outcome is the error of the preparation (metric transform, prior
  derivation, selection of the labeled data, kernel matrices) when that raises, and the
  unsupported-mode error otherwise; the outcome does not depend on the classifier, on
  the estimators, on the tie-break or on uninitialised memory.
\<close>

theorem query_full_lookahead_unsupported:
  assumes "self_batch_mode self = ''full''" and "1 < self_nonmyopic_look_ahead self"
  shows "query env self X_cand X y X_eval batch_size sample_weight =
           (case query_setup env self X_cand X y X_eval batch_size sample_weight of
              Inl e \<Rightarrow> Inl e | Inr p \<Rightarrow> Inl NotImplementedError)
       \<and> query (env\<lparr>env_clf := clf', env_pwc := pwc', env_rand_argmax := rand_argmax',
                     env_np_empty := np_empty'\<rparr>) self X_cand X y X_eval batch_size sample_weight
           = query env self X_cand X y X_eval batch_size sample_weight"
proof -
  have a: "self_batch_mode self = ''full''" "1 < self_nonmyopic_look_ahead self"
    using assms by simp_all
  show ?thesis
    unfolding query_full_lookahead[OF a]
    by (simp only: unsupported_by_raised query_setup_raised_independent simp_thms)
qed

theorem query_full_lookahead_unsupported_witness:
  "self_batch_mode (example_xpal\<lparr>self_batch_mode := ''full'', self_nonmyopic_look_ahead := 2\<rparr>)
     = ''full''
   \<and> 1 < self_nonmyopic_look_ahead
           (example_xpal\<lparr>self_batch_mode := ''full'', self_nonmyopic_look_ahead := 2\<rparr>)
   \<and> query example_env
         (example_xpal\<lparr>self_batch_mode := ''full'', self_nonmyopic_look_ahead := 2\<rparr>)
         [10, 11] [20, 21] [Some 0, Some 1] (Some [30, 31]) 1 None = Inl NotImplementedError"
proof -
  let ?self = "example_xpal\<lparr>self_batch_mode := ''full'', self_nonmyopic_look_ahead := 2\<rparr>"
  have h1: "self_batch_mode ?self = ''full''" by simp
  have h2: "1 < self_nonmyopic_look_ahead ?self" by simp
  have r: "raised (query_setup example_env ?self [10, 11] [20, 21] [Some 0, Some 1]
                     (Some [30, 31]) 1 None) = None"
    by code_simp
  from query_full_lookahead_unsupported[OF h1 h2, of example_env "[10, 11]" "[20, 21]"
      "[Some 0, Some 1]" "Some [30, 31]" 1 None]
  have "query example_env ?self [10, 11] [20, 21] [Some 0, Some 1] (Some [30, 31]) 1 None
          = Inl NotImplementedError"
    by (simp only: unsupported_by_raised r option.case)
  with h1 h2 show ?thesis by blast
qed

subsection \<open>The greedy selection\<close>

text \<open>
  Claim C2 (the code deviates). \<open>best_indices\<close> is created anew at the start of
  every greedy step, so a step does not depend on what earlier steps selected: the
  candidates it evaluates are all candidates except the fill value. With three
  candidates, a batch of two and the fill value of x86-64, the second step evaluates
  the candidates \<open>0, 1, 2\<close> again and the query raises \<open>IndexError\<close>, as the fill
  value is used as an index; where the fill value is \<open>0\<close> (and the neighbours are
  \<open>same\<close>), candidate \<open>0\<close> is never evaluated and the query returns \<open>[0, 1]\<close>, whose
  first entry is the fill value and not a selection.
\<close>

theorem greedy_step_forgets_selection:
  "greedy_step env self p X_cand X_eval batch_size i_greedy previous
     = greedy_step env self p X_cand X_eval batch_size i_greedy None
   \<and> unlabeled_cand_idx_of 3 (fresh_best_indices (env_nan_as_int example_env) 2) = [0, 1, 2]
   \<and> query example_env example_xpal [10, 11, 12] [20, 21] [Some 0, Some 1] (Some [30, 31]) 2 None
       = Inl IndexError
   \<and> query (example_env\<lparr>env_nan_as_int := 0\<rparr>)
       (example_xpal\<lparr>self_nonmyopic_neighbors := ''same''\<rparr>)
       [10, 11, 12] [20, 21] [Some 0, Some 1] (Some [30, 31]) 2 None
       = Inr (IArr1 [0, 1],
              [[None, None, None], [None, Some (500 / 3001), Some (500 / 3001)]])"
proof (intro conjI)
  show "greedy_step env self p X_cand X_eval batch_size i_greedy previous
          = greedy_step env self p X_cand X_eval batch_size i_greedy None"
    by (simp add: greedy_step_def)
  show "unlabeled_cand_idx_of 3 (fresh_best_indices (env_nan_as_int example_env) 2) = [0, 1, 2]"
    by code_simp
  show "query example_env example_xpal [10, 11, 12] [20, 21] [Some 0, Some 1] (Some [30, 31]) 2 None
          = Inl IndexError"
    by code_simp
  show "query (example_env\<lparr>env_nan_as_int := 0\<rparr>)
       (example_xpal\<lparr>self_nonmyopic_neighbors := ''same''\<rparr>)
       [10, 11, 12] [20, 21] [Some 0, Some 1] (Some [30, 31]) 2 None
       = Inr (IArr1 [0, 1],
              [[None, None, None], [None, Some (500 / 3001), Some (500 / 3001)]])"
    by code_simp
qed

subsection \<open>More labels requested than candidates\<close>

text \<open>
  Claim C8 (the code deviates). The clamping of the batch size and its warning are in
  \<open>_validate_input\<close>, which \<open>query\<close> does not call. With one candidate and a batch
  size of two, the statements of the validation on the batch size give the batch size
  one and a warning; the query uses the batch size two, issues no warning and raises
  \<open>IndexError\<close>, in the mode \<open>greedy\<close> and in the mode \<open>full\<close>.
\<close>

theorem query_batch_size_not_clamped:
  "validate_batch_size 1 2 = Inr (1, [BatchSizeLargerThanCandidates 2 1])
   \<and> query example_env example_xpal [10] [20, 21] [Some 0, Some 1] (Some [30, 31]) 2 None
       = Inl IndexError
   \<and> query example_env (example_xpal\<lparr>self_batch_mode := ''full''\<rparr>)
       [10] [20, 21] [Some 0, Some 1] (Some [30, 31]) 2 None
       = Inl IndexError"
  by code_simp

subsection \<open>The normalisation by the depth\<close>

lemma py_bind_assoc: "py_bind (py_bind m f) g = py_bind m (\<lambda>x. py_bind (f x) g)"
  by (cases m) (simp_all add: py_bind_def)

lemma py_bind_Inr: "py_bind (Inr a) f = f a"
  by (simp add: py_bind_def)

lemma py_bind_Inl: "py_bind (Inl e) f = Inl e"
  by (simp add: py_bind_def)

text \<open>A loop whose body computes a value and stores it.\<close>

lemma for_each_values:
  "for_each xs (\<lambda>x s. py_bind (val x) (\<lambda>u. Inr (upd x u s))) s
     = py_bind (py_all (map val xs))
         (\<lambda>us. Inr (foldl (\<lambda>s (x, u). upd x u s) s (zip xs us)))"
proof (induction xs arbitrary: s)
  case Nil
  show ?case by (simp add: py_bind_Inr)
next
  case (Cons x xs)
  show ?case
  proof (cases "val x")
    case (Inl e)
    then show ?thesis by (simp add: py_bind_Inl)
  next
    case (Inr u)
    show ?thesis
    proof (cases "py_all (map val xs)")
      case (Inl e)
      with Inr Cons show ?thesis by (simp add: py_bind_Inr py_bind_Inl)
    next
      case (Inr us)
      with \<open>val x = Inr u\<close> Cons show ?thesis by (simp add: py_bind_Inr)
    qed
  qed
qed

lemma py_all_Inr_iff: "py_all rs = Inr xs \<longleftrightarrow> rs = map Inr xs"
proof (induction rs arbitrary: xs)
  case Nil
  show ?case by auto
next
  case (Cons r rs)
  show ?case
  proof (cases r)
    case (Inl e)
    then show ?thesis by (auto simp: py_bind_def)
  next
    case (Inr a)
    show ?thesis
    proof (cases "py_all rs")
      case (Inl e)
      with Inr Cons show ?thesis by (auto simp: py_bind_def)
    next
      case (Inr as)
      with \<open>r = Inr a\<close> Cons[of as] Cons[of "tl xs"] show ?thesis
        by (cases xs) (auto simp: py_bind_def)
    qed
  qed
qed

text \<open>Storing the values of one row, entry by entry.\<close>

lemma fill_row:
  fixes T :: matrix
  assumes "i < length T" "k + length us \<le> length (T ! i)" "length cs = length us"
  shows "foldl (\<lambda>s ((j, c), u). s[i := (s ! i)[j := u]]) T (zip (enumerate k cs) us)
           = T[i := take k (T ! i) @ us @ drop (k + length us) (T ! i)]"
  using assms
proof (induction us arbitrary: k cs T)
  case Nil
  then show ?case by simp
next
  case (Cons u us)
  then obtain c cs' where cs: "cs = c # cs'" by (cases cs) auto
  let ?T = "T[i := (T ! i)[k := u]]"
  have i: "i < length ?T" using Cons.prems(1) by simp
  have row: "?T ! i = (T ! i)[k := u]" using Cons.prems(1) by simp
  have len: "Suc k + length us \<le> length (?T ! i)" using Cons.prems(2) row by simp
  have "foldl (\<lambda>s ((j, c), u). s[i := (s ! i)[j := u]]) T (zip (enumerate k cs) (u # us))
      = foldl (\<lambda>s ((j, c), u). s[i := (s ! i)[j := u]]) ?T (zip (enumerate (Suc k) cs') us)"
    by (simp add: cs)
  also have "\<dots> = ?T[i := take (Suc k) (?T ! i) @ us @ drop (Suc k + length us) (?T ! i)]"
    using Cons.prems(3) cs by (intro Cons.IH[OF i len]) simp
  also have "\<dots> = T[i := take k (T ! i) @ (u # us) @ drop (k + length (u # us)) (T ! i)]"
  proof -
    have k: "k < length (T ! i)" using Cons.prems(2) by simp
    have "take (Suc k) ((T ! i)[k := u]) = take k (T ! i) @ [u]"
      using k by (simp add: take_Suc_conv_app_nth)
    moreover have "drop (Suc k + length us) ((T ! i)[k := u]) = drop (Suc k + length us) (T ! i)"
      by simp
    ultimately show ?thesis by (simp add: row)
  qed
  finally show ?case .
qed



lemma length_by_depth: "length (by_depth row) = length row"
  by (simp add: by_depth_def)

lemma length_by_depth_pow: "length ((by_depth ^^ n) row) = length row"
  by (induction n) (simp_all add: length_by_depth)

lemma by_depth_nth: "j < length row \<Longrightarrow> by_depth row ! j = row ! j / real (j + 1)"
  by (simp add: by_depth_def nth_enumerate_eq)

lemma by_depth_pow_nth:
  "j < length row \<Longrightarrow> (by_depth ^^ n) row ! j = row ! j / real (j + 1) ^ n"
proof (induction n)
  case 0
  show ?case by simp
next
  case (Suc n)
  have "(by_depth ^^ Suc n) row ! j = by_depth ((by_depth ^^ n) row) ! j" by simp
  also have "\<dots> = (by_depth ^^ n) row ! j / real (j + 1)"
    using Suc.prems by (simp add: by_depth_nth length_by_depth_pow)
  also have "\<dots> = row ! j / real (j + 1) ^ Suc n"
    using Suc by simp
  finally show ?case .
qed

lemma rounds_Nil: "rounds k [] T = T"
  by (simp add: rounds_def)

lemma rounds_Cons: "rounds k (us # uss) T = rounds (Suc k) uss (map by_depth (T[k := us]))"
proof -
  have "k < k + length (us # uss)" by simp
  then have "[k..<k + length (us # uss)] = k # [Suc k..<k + length (us # uss)]"
    by (rule upt_conv_Cons)
  then have "[k..<k + length (us # uss)] = k # [Suc k..<Suc k + length uss]"
    by simp
  then show ?thesis by (simp add: rounds_def)
qed

lemma length_rounds: "length (rounds k uss T) = length T"
  by (induction uss arbitrary: k T) (simp_all add: rounds_Nil rounds_Cons)

lemma rounds_nth:
  assumes "i < length T"
  shows "rounds k uss T ! i =
           (if k \<le> i \<and> i < k + length uss
            then (by_depth ^^ (k + length uss - i)) (uss ! (i - k))
            else (by_depth ^^ length uss) (T ! i))"
  using assms
proof (induction uss arbitrary: k T)
  case Nil
  show ?case by (auto simp: rounds_Nil)
next
  case (Cons us uss)
  let ?T = "map by_depth (T[k := us])"
  have l: "i < length ?T" using Cons.prems by simp
  note IH = Cons.IH[OF l, of "Suc k"]
  show ?case
  proof (cases "i = k")
    case True
    have "rounds k (us # uss) T ! i = (by_depth ^^ length uss) (?T ! i)"
      using IH True by (simp add: rounds_Cons)
    also have "?T ! i = by_depth us" using True Cons.prems by simp
    also have "(by_depth ^^ length uss) (by_depth us) = (by_depth ^^ Suc (length uss)) us"
      by (simp add: funpow_swap1)
    finally show ?thesis using True by simp
  next
    case False
    have Ti: "?T ! i = by_depth (T ! i)" using False Cons.prems by simp
    show ?thesis
    proof (cases "Suc k \<le> i \<and> i < Suc k + length uss")
      case True
      then have "rounds k (us # uss) T ! i = (by_depth ^^ (Suc k + length uss - i)) (uss ! (i - Suc k))"
        using IH by (simp add: rounds_Cons)
      moreover have "(us # uss) ! (i - k) = uss ! (i - Suc k)"
        using True by (simp add: nth_Cons')
      ultimately show ?thesis using True by simp
    next
      case F2: False
      have "rounds (Suc k) uss ?T ! i = (by_depth ^^ length uss) (?T ! i)"
        unfolding IH using F2 by (rule if_not_P)
      then have "rounds k (us # uss) T ! i = (by_depth ^^ length uss) (by_depth (T ! i))"
        by (simp only: rounds_Cons Ti)
      also have "\<dots> = (by_depth ^^ Suc (length uss)) (T ! i)"
        by (simp add: funpow_swap1)
      finally show ?thesis using F2 False by auto
    qed
  qed
qed


lemma py_all_length: "py_all rs = Inr xs \<Longrightarrow> length xs = length rs"
  by (simp add: py_all_Inr_iff)

lemma by_depth_fun: "(\<lambda>row. map (\<lambda>(j, u). u / real (j + 1)) (enumerate 0 row)) = by_depth"
  by (rule ext) (simp add: by_depth_def)

lemma row_body:
  fixes st :: "int list \<Rightarrow> py_error + real list" and T :: matrix
  defines "val \<equiv> \<lambda>c. py_bind (st c) (\<lambda>terms. Inr (sum_list terms))"
  assumes "k < length T" "length (T ! k) = length ps"
  shows "py_bind
           (for_each (enumerate 0 ps)
              (\<lambda>(i_cand_idx, cand_idx) tmp_utilities.
                 py_bind (st cand_idx)
                   (\<lambda>terms. Inr (tmp_utilities[k := (tmp_utilities ! k)[i_cand_idx := sum_list terms]])))
              T)
           (\<lambda>tmp_utilities. Inr (map by_depth tmp_utilities))
       = py_bind (py_all (map val ps)) (\<lambda>us. Inr (map by_depth (T[k := us])))"
proof -
  have body: "(\<lambda>(i_cand_idx, cand_idx) tmp_utilities.
                 py_bind (st cand_idx)
                   (\<lambda>terms. Inr (tmp_utilities[k := (tmp_utilities ! k)[i_cand_idx := sum_list terms]])))
            = (\<lambda>x s. py_bind (val (snd x)) (\<lambda>u. Inr (s[k := (s ! k)[fst x := u]])))"
    by (intro ext) (simp add: val_def py_bind_assoc py_bind_Inr case_prod_beta)
  have vals: "map (\<lambda>x. val (snd x)) (enumerate 0 ps) = map val ps"
    by (rule nth_equalityI) (simp_all add: nth_enumerate_eq)
  have loop: "for_each (enumerate 0 ps)
              (\<lambda>x s. py_bind (val (snd x)) (\<lambda>u. Inr (s[k := (s ! k)[fst x := u]]))) T
        = py_bind (py_all (map val ps))
            (\<lambda>us. Inr (foldl (\<lambda>s (x, u). s[k := (s ! k)[fst x := u]]) T (zip (enumerate 0 ps) us)))"
    by (simp only: for_each_values vals)
  show ?thesis
  proof (cases "py_all (map val ps)")
    case (Inl e)
    then show ?thesis by (simp only: body loop py_bind_Inl)
  next
    case (Inr us)
    then have len: "length us = length ps" by (simp add: py_all_length)
    have f: "(\<lambda>s (x, u). s[k := (s ! k)[fst x := u]]) = (\<lambda>s ((j, c), u). s[k := (s ! k)[j := u]])"
      by (intro ext) (simp add: case_prod_beta)
    have "foldl (\<lambda>s (x, u). s[k := (s ! k)[fst x := u]]) T (zip (enumerate 0 ps) us)
            = T[k := take 0 (T ! k) @ us @ drop (0 + length us) (T ! k)]"
      unfolding f using assms(2,3) len by (intro fill_row) simp_all
    also have "\<dots> = T[k := us]" using assms(3) len by simp
    finally show ?thesis by (simp only: body loop Inr py_bind_Inr)
  qed
qed

lemma gain_rows_loop:
  fixes st :: "int list \<Rightarrow> py_error + real list" and T :: matrix
  defines "val \<equiv> \<lambda>c. py_bind (st c) (\<lambda>terms. Inr (sum_list terms))"
  assumes "list_all (\<lambda>r. length r = M) rows" "list_all (\<lambda>r. length r = M) T"
    and "k + length rows \<le> length T"
  shows "for_each (enumerate k rows)
           (\<lambda>(i_org_cand_idx, org_cand_idx) tmp_utilities.
              py_bind
                (for_each (enumerate 0 (map (\<lambda>i. take (i + 1) org_cand_idx)
                                          [0..<length org_cand_idx]))
                   (\<lambda>(i_cand_idx, cand_idx) tmp_utilities.
                      py_bind (st cand_idx)
                        (\<lambda>terms. Inr (tmp_utilities[i_org_cand_idx :=
                            (tmp_utilities ! i_org_cand_idx)[i_cand_idx := sum_list terms]])))
                   tmp_utilities)
                (\<lambda>tmp_utilities. Inr (map by_depth tmp_utilities)))
           T
       = py_bind (py_all (map (\<lambda>org. py_all (map val (map (\<lambda>i. take (i + 1) org)
                                                          [0..<length org]))) rows))
           (\<lambda>uss. Inr (rounds k uss T))"
  using assms(2-)
proof (induction rows arbitrary: k T)
  case Nil
  show ?case by (simp add: py_bind_Inr rounds_Nil)
next
  case (Cons org rows)
  let ?ps = "map (\<lambda>i. take (i + 1) org) [0..<length org]"
  let ?A = "py_all (map val ?ps)"
  have k: "k < length T" using Cons.prems(3) by simp
  have lorg: "length org = M" using Cons.prems(1) by simp
  have lrow: "length (T ! k) = length ?ps"
    using Cons.prems(2) k lorg by (simp add: list_all_length)
  note rb = row_body[of k T ?ps st, OF k lrow, folded val_def]
  show ?case
  proof (cases ?A)
    case (Inl e)
    show ?thesis
      by (simp only: enumerate_simps for_each.simps prod.case rb list.map py_all.simps
            Inl py_bind_Inl)
  next
    case (Inr us)
    then have lus: "length us = M" using lorg by (simp add: py_all_length)
    let ?T = "map by_depth (T[k := us])"
    have shape: "list_all (\<lambda>r. length r = M) ?T"
      using Cons.prems(2) lus
      by (auto simp: list_all_iff length_by_depth dest!: set_update_subset_insert[THEN subsetD])
    have room: "Suc k + length rows \<le> length ?T" using Cons.prems(3) by simp
    have rest: "list_all (\<lambda>r. length r = M) rows" using Cons.prems(1) by simp
    note IH = Cons.IH[OF rest shape room]
    show ?thesis
      apply (simp only: enumerate_simps for_each.simps prod.case rb list.map py_all.simps
            Inr py_bind_Inr)
      apply (simp only: IH)
      apply (cases "py_all (map (\<lambda>org. py_all (map val (map (\<lambda>i. take (i + 1) org)
                                                          [0..<length org]))) rows)")
       apply (simp_all only: py_bind_Inl py_bind_Inr rounds_Cons)
      done
  qed
qed


lemma nonmyopic_gain_rows_form:
  assumes "cand_idx_set \<noteq> []" "list_all (\<lambda>r. length r = M) cand_idx_set"
  shows "nonmyopic_gain np_empty clf X_c cand_idx_set X y sample_weight_arg
       prob_estimator_cand K_c_x K_c_c prob_estimator_eval K_e_x K_e_c X_eval n_classes
       metric cost_matrix perf_func Nonmyopic nonmyopic_independence all_sim_labels_equal
     = py_bind (if nonmyopic_independence
               then prob_estimator_cand X y
                      (case sample_weight_arg of None \<Rightarrow> replicate (length X) 1 | Some w \<Rightarrow> w)
                      K_c_x
               else Inr []) (\<lambda>prob_cand_X.
       py_bind (hconcat K_c_c K_c_x) (\<lambda>K_c_cx_all.
       py_bind (hconcat K_e_c K_e_x) (\<lambda>K_e_cx_all.
         py_bind
           (py_all (map (\<lambda>org. py_all (map
              (\<lambda>c. py_bind
                 (subset_terms clf X_c X y
                    (case sample_weight_arg of None \<Rightarrow> replicate (length X) 1 | Some w \<Rightarrow> w)
                    prob_estimator_cand K_c_x K_c_c prob_estimator_eval X_eval cost_matrix
                    perf_func nonmyopic_independence prob_cand_X
                    (map (\<lambda>n. get_y_sim_list n_classes n all_sim_labels_equal) [1..<M + 1])
                    (X_c @ X) K_e_cx_all
                    (replicate (length X_c) 1 @
                       (case sample_weight_arg of None \<Rightarrow> replicate (length X) 1 | Some w \<Rightarrow> w))
                    (map int [length X_c..<length X_c + length X])
                    (case X_eval of
                       None \<Rightarrow> clf X y sample_weight_arg X_c
                     | Some X_e \<Rightarrow> clf X y sample_weight_arg X_e)
                    (metric = ''misclassification-loss'') c)
                 (\<lambda>terms. Inr (sum_list terms)))
              (map (\<lambda>i. take (i + 1) org) [0..<length org]))) cand_idx_set))
           (\<lambda>uss. Inr (rounds 0 uss
                         (map (\<lambda>i. map (np_empty i) [0..<M]) [0..<length cand_idx_set]))))))"
proof -
  obtain r rs where rs: "cand_idx_set = r # rs" using assms(1) by (cases cand_idx_set) auto
  have lr: "length r = M" using assms(2) rs by simp
  have ncol: "(case cand_idx_set of [] \<Rightarrow> 0 | r # x \<Rightarrow> length r) = M"
    using rs lr by simp
  have shape: "list_all (\<lambda>r. length r = M)
                 (map (\<lambda>i. map (np_empty i) [0..<M]) [0..<length cand_idx_set])"
    by (simp add: list_all_iff)
  have room: "0 + length cand_idx_set
                \<le> length (map (\<lambda>i. map (np_empty i) [0..<M]) [0..<length cand_idx_set])"
    by simp
  note loop = gain_rows_loop[OF assms(2) shape room]
  show ?thesis
    unfolding nonmyopic_gain_def Let_def
    apply (simp only: gain_mode.case by_depth_fun ncol assms(1) if_False py_bind_Inr)
    apply (simp only: loop)
    done
qed


lemma py_bind_Inr_D: "py_bind m f = Inr b \<Longrightarrow> \<exists>a. m = Inr a \<and> f a = Inr b"
  by (cases m) (simp_all add: py_bind_def)

text \<open>
  Claim C3 (the code deviates). The division by the depth is executed once per row
  of \<open>cand_idx_set\<close> and divides the whole array. Whenever \<open>nonmyopic_gain\<close> returns
  in the mode \<open>nonmyopic\<close>, the utilities of row \<open>i\<close> of \<open>N\<close> rows are those that
  the same sequence gets when it is evaluated alone (the probability-weighted sum,
  divided once by the depth), divided by the depth another \<open>N - 1 - i\<close> times: only
  the last row is divided exactly once.
\<close>

theorem nonmyopic_gain_divided_per_later_row:
  assumes rows: "list_all (\<lambda>r. length r = M) cand_idx_set"
    and res: "nonmyopic_gain np_empty clf X_c cand_idx_set X y sample_weight_arg
       prob_estimator_cand K_c_x K_c_c prob_estimator_eval K_e_x K_e_c X_eval n_classes
       metric cost_matrix perf_func Nonmyopic nonmyopic_independence all_sim_labels_equal = Inr U"
    and i: "i < length cand_idx_set"
  shows "\<exists>u. nonmyopic_gain np_empty' clf X_c [cand_idx_set ! i] X y sample_weight_arg
       prob_estimator_cand K_c_x K_c_c prob_estimator_eval K_e_x K_e_c X_eval n_classes
       metric cost_matrix perf_func Nonmyopic nonmyopic_independence all_sim_labels_equal = Inr [u]
     \<and> length u = M
     \<and> (\<forall>j<M. U ! i ! j = u ! j / real (j + 1) ^ (length cand_idx_set - 1 - i))"
proof -
  let ?N = "length cand_idx_set"
  let ?sw = "case sample_weight_arg of None \<Rightarrow> replicate (length X) 1 | Some w \<Rightarrow> w"
  define row_values where "row_values prob_cand_X K_e_cx_all org = (py_all (map
              (\<lambda>c. py_bind
                 (subset_terms clf X_c X y ?sw
                    prob_estimator_cand K_c_x K_c_c prob_estimator_eval X_eval cost_matrix
                    perf_func nonmyopic_independence prob_cand_X
                    (map (\<lambda>n. get_y_sim_list n_classes n all_sim_labels_equal) [1..<M + 1])
                    (X_c @ X) K_e_cx_all
                    (replicate (length X_c) 1 @ ?sw)
                    (map int [length X_c..<length X_c + length X])
                    (case X_eval of
                       None \<Rightarrow> clf X y sample_weight_arg X_c
                     | Some X_e \<Rightarrow> clf X y sample_weight_arg X_e)
                    (metric = ''misclassification-loss'') c)
                 (\<lambda>terms. Inr (sum_list terms)))
              (map (\<lambda>i. take (i + 1) org) [0..<length org])))"
    for prob_cand_X K_e_cx_all org
  have ne: "cand_idx_set \<noteq> []" using i by auto
  have ne1: "[cand_idx_set ! i] \<noteq> []" by simp
  have rows1: "list_all (\<lambda>r. length r = M) [cand_idx_set ! i]"
    using rows i by (simp add: list_all_length)
  have multi: "nonmyopic_gain np_empty clf X_c cand_idx_set X y sample_weight_arg
       prob_estimator_cand K_c_x K_c_c prob_estimator_eval K_e_x K_e_c X_eval n_classes
       metric cost_matrix perf_func Nonmyopic nonmyopic_independence all_sim_labels_equal
     = py_bind (if nonmyopic_independence then prob_estimator_cand X y ?sw K_c_x else Inr [])
        (\<lambda>prob_cand_X.
       py_bind (hconcat K_c_c K_c_x) (\<lambda>K_c_cx_all.
       py_bind (hconcat K_e_c K_e_x) (\<lambda>K_e_cx_all.
         py_bind (py_all (map (row_values prob_cand_X K_e_cx_all) cand_idx_set))
           (\<lambda>uss. Inr (rounds 0 uss
                         (map (\<lambda>i. map (np_empty i) [0..<M]) [0..<?N]))))))"
    unfolding row_values_def by (rule nonmyopic_gain_rows_form[OF ne rows])
  have single: "nonmyopic_gain np_empty' clf X_c [cand_idx_set ! i] X y sample_weight_arg
       prob_estimator_cand K_c_x K_c_c prob_estimator_eval K_e_x K_e_c X_eval n_classes
       metric cost_matrix perf_func Nonmyopic nonmyopic_independence all_sim_labels_equal
     = py_bind (if nonmyopic_independence then prob_estimator_cand X y ?sw K_c_x else Inr [])
        (\<lambda>prob_cand_X.
       py_bind (hconcat K_c_c K_c_x) (\<lambda>K_c_cx_all.
       py_bind (hconcat K_e_c K_e_x) (\<lambda>K_e_cx_all.
         py_bind (py_all (map (row_values prob_cand_X K_e_cx_all) [cand_idx_set ! i]))
           (\<lambda>uss. Inr (rounds 0 uss
                         (map (\<lambda>i. map (np_empty' i) [0..<M])
                            [0..<length [cand_idx_set ! i]]))))))"
    unfolding row_values_def by (rule nonmyopic_gain_rows_form[OF ne1 rows1])
  from py_bind_Inr_D[OF res[unfolded multi]] obtain pcx where
    p1: "(if nonmyopic_independence then prob_estimator_cand X y ?sw K_c_x else Inr []) = Inr pcx"
    and r1: "py_bind (hconcat K_c_c K_c_x) (\<lambda>K_c_cx_all.
       py_bind (hconcat K_e_c K_e_x) (\<lambda>K_e_cx_all.
         py_bind (py_all (map (row_values pcx K_e_cx_all) cand_idx_set))
           (\<lambda>uss. Inr (rounds 0 uss
                         (map (\<lambda>i. map (np_empty i) [0..<M]) [0..<?N]))))) = Inr U"
    by (elim exE conjE)
  from py_bind_Inr_D[OF r1] obtain kc where p3: "hconcat K_c_c K_c_x = Inr kc"
    and r2: "py_bind (hconcat K_e_c K_e_x) (\<lambda>K_e_cx_all.
         py_bind (py_all (map (row_values pcx K_e_cx_all) cand_idx_set))
           (\<lambda>uss. Inr (rounds 0 uss
                         (map (\<lambda>i. map (np_empty i) [0..<M]) [0..<?N])))) = Inr U"
    by (elim exE conjE)
  from py_bind_Inr_D[OF r2] obtain ke where p4: "hconcat K_e_c K_e_x = Inr ke"
    and r3: "py_bind (py_all (map (row_values pcx ke) cand_idx_set))
           (\<lambda>uss. Inr (rounds 0 uss
                         (map (\<lambda>i. map (np_empty i) [0..<M]) [0..<?N]))) = Inr U"
    by (elim exE conjE)
  from py_bind_Inr_D[OF r3] obtain uss where vals: "py_all (map (row_values pcx ke) cand_idx_set) = Inr uss"
    and U: "U = rounds 0 uss (map (\<lambda>i. map (np_empty i) [0..<M]) [0..<?N])"
    by (elim exE conjE) simp
  have luss: "length uss = ?N" using vals by (simp add: py_all_length)
  have "map (row_values pcx ke) cand_idx_set = map Inr uss"
    using vals by (simp only: py_all_Inr_iff)
  then have "map (row_values pcx ke) cand_idx_set ! i = map Inr uss ! i" by simp
  then have vi: "row_values pcx ke (cand_idx_set ! i) = Inr (uss ! i)"
    using i luss by simp
  have lvi: "length (uss ! i) = M"
  proof -
    have "length (cand_idx_set ! i) = M" using rows i by (simp add: list_all_length)
    then show ?thesis using vi unfolding row_values_def by (auto dest: py_all_length)
  qed
  let ?u = "by_depth (uss ! i)"
  have one: "nonmyopic_gain np_empty' clf X_c [cand_idx_set ! i] X y sample_weight_arg
       prob_estimator_cand K_c_x K_c_c prob_estimator_eval K_e_x K_e_c X_eval n_classes
       metric cost_matrix perf_func Nonmyopic nonmyopic_independence all_sim_labels_equal = Inr [?u]"
    unfolding single
    apply (simp only: p1 p3 p4 py_bind_Inr list.map vi py_all.simps)
    apply (simp add: rounds_Cons rounds_Nil)
    done
  have Ui: "U ! i = (by_depth ^^ (?N - i)) (uss ! i)"
    unfolding U using i luss by (simp add: rounds_nth)
  have "?N - i = Suc (?N - 1 - i)" using i by simp
  then have "(by_depth ^^ (?N - i)) (uss ! i) = (by_depth ^^ (?N - 1 - i)) ?u"
    by (simp add: funpow_swap1)
  then have "U ! i ! j = ?u ! j / real (j + 1) ^ (?N - 1 - i)" if "j < M" for j
    using that Ui lvi by (simp add: by_depth_pow_nth length_by_depth)
  with one lvi show ?thesis by (auto simp: length_by_depth)
qed


text \<open>
  Evaluated alone, the sequence \<open>[0, 1]\<close> has the utilities \<open>500/3001\<close> (depth one)
  and \<open>250/4001\<close> (depth two, the sum \<open>500/4001\<close> divided by two); evaluated twice
  in one call, its first copy gets \<open>125/4001\<close> at depth two, its second copy
  \<open>250/4001\<close>.
\<close>

theorem nonmyopic_gain_divided_per_later_row_witness:
  "nonmyopic_gain (\<lambda>_ _. 0) example_clf [10, 11] [[0, 1]] [20, 21] [Some 0, Some 1]
         (Some [1, 1]) example_est (ones_matrix 2 2) (ones_matrix 2 2) example_est
         (ones_matrix 2 2) (ones_matrix 2 2) (Some [30, 31]) 2 ''misclassification-loss''
         (Some [[0, 1], [1, 0]]) None Nonmyopic True True
       = Inr [[500 / 3001, 250 / 4001]]
   \<and> nonmyopic_gain (\<lambda>_ _. 0) example_clf [10, 11] [[0, 1], [0, 1]] [20, 21] [Some 0, Some 1]
         (Some [1, 1]) example_est (ones_matrix 2 2) (ones_matrix 2 2) example_est
         (ones_matrix 2 2) (ones_matrix 2 2) (Some [30, 31]) 2 ''misclassification-loss''
         (Some [[0, 1], [1, 0]]) None Nonmyopic True True
       = Inr [[500 / 3001, 125 / 4001], [500 / 3001, 250 / 4001]]
   \<and> (\<exists>u. nonmyopic_gain (\<lambda>_ _. 0) example_clf [10, 11] [[[0, 1], [0, 1]] ! 0] [20, 21]
             [Some 0, Some 1] (Some [1, 1]) example_est (ones_matrix 2 2) (ones_matrix 2 2)
             example_est (ones_matrix 2 2) (ones_matrix 2 2) (Some [30, 31]) 2
             ''misclassification-loss'' (Some [[0, 1], [1, 0]]) None Nonmyopic True True
           = Inr [u]
         \<and> length u = 2
         \<and> (\<forall>j<2. [[500 / 3001, 125 / 4001], [500 / 3001, 250 / 4001 :: real]] ! 0 ! j
                     = u ! j / real (j + 1) ^ (length [[0, 1], [0, 1 :: int]] - 1 - 0)))"
proof -
  have a: "nonmyopic_gain (\<lambda>_ _. 0) example_clf [10, 11] [[0, 1]] [20, 21] [Some 0, Some 1]
         (Some [1, 1]) example_est (ones_matrix 2 2) (ones_matrix 2 2) example_est
         (ones_matrix 2 2) (ones_matrix 2 2) (Some [30, 31]) 2 ''misclassification-loss''
         (Some [[0, 1], [1, 0]]) None Nonmyopic True True
       = Inr [[500 / 3001, 250 / 4001]]"
    by code_simp
  have b: "nonmyopic_gain (\<lambda>_ _. 0) example_clf [10, 11] [[0, 1], [0, 1]] [20, 21] [Some 0, Some 1]
         (Some [1, 1]) example_est (ones_matrix 2 2) (ones_matrix 2 2) example_est
         (ones_matrix 2 2) (ones_matrix 2 2) (Some [30, 31]) 2 ''misclassification-loss''
         (Some [[0, 1], [1, 0]]) None Nonmyopic True True
       = Inr [[500 / 3001, 125 / 4001], [500 / 3001, 250 / 4001]]"
    by code_simp
  have h1: "list_all (\<lambda>r. length r = 2) [[0, 1], [0, 1 :: int]]" by simp
  have h3: "0 < length [[0, 1], [0, 1 :: int]]" by simp
  note c = nonmyopic_gain_divided_per_later_row[OF h1 b h3, of "\<lambda>_ _. 0"]
  from a b c show ?thesis by blast
qed

subsection \<open>The dependent joint probability\<close>

lemma py_bind_is_error:
  "(\<And>a. \<exists>e. f a = Inl e) \<Longrightarrow> \<exists>e. py_bind m f = Inl e"
  by (cases m) (simp_all add: py_bind_def)

lemma py_bind_error_first:
  "\<exists>e. m = Inl e \<Longrightarrow> \<exists>e. py_bind m f = Inl e"
  by (auto simp: py_bind_def)

lemma for_each_error_first:
  "\<exists>e. body x s = Inl e \<Longrightarrow> \<exists>e. for_each (x # xs) body s = Inl e"
  by (auto simp: py_bind_def)

text \<open>
  Claim C5 (the code deviates). With the independence flag false, \<open>nonmyopic_gain\<close>
  uses no joint probability at all: the call of \<open>dependent_cand_prob\<close> passes ten
  arguments to nine parameters and raises, so the function returns for no candidate
  index set with a subset to evaluate (a first row that is not empty, or the mode
  \<open>batch\<close>).
\<close>

theorem nonmyopic_gain_dependent_never_returns:
  assumes "\<not> nonmyopic_independence"
    and "cand_idx_set = r # rs" and "r \<noteq> [] \<or> gain_mode = Batch"
  shows "\<exists>e. nonmyopic_gain np_empty clf X_c cand_idx_set X y sample_weight_arg
       prob_estimator_cand K_c_x K_c_c prob_estimator_eval K_e_x K_e_c X_eval n_classes
       metric cost_matrix perf_func gain_mode nonmyopic_independence all_sim_labels_equal = Inl e"
proof -
  obtain s ss where sub: "(case gain_mode of
                   Nonmyopic \<Rightarrow> map (\<lambda>i. take (i + 1) r) [0..<length r]
                 | Batch \<Rightarrow> [r]) = s # ss"
  proof (cases gain_mode)
    case Nonmyopic
    with assms(3) obtain a as where "r = a # as" by (cases r) auto
    then have "map (\<lambda>i. take (i + 1) r) [0..<length r]
                 = take 1 r # map (\<lambda>i. take (i + 1) r) [1..<length r]"
      by (simp add: upt_conv_Cons del: upt_Suc)
    with Nonmyopic that show ?thesis by simp
  next
    case Batch
    with that show ?thesis by simp
  qed
  show ?thesis
    unfolding nonmyopic_gain_def Let_def
    apply (rule py_bind_is_error)
    apply (rule py_bind_is_error)
    apply (rule py_bind_is_error)
    apply (rule py_bind_is_error)
    apply (simp only: assms(2) enumerate_simps)
    apply (rule for_each_error_first)
    apply (simp only: prod.case sub)
    apply (rule py_bind_error_first)
    apply (simp only: enumerate_simps)
    apply (rule for_each_error_first)
    apply (simp only: prod.case)
    apply (rule py_bind_error_first)
    unfolding subset_terms_def Let_def
    apply (rule py_bind_is_error)
    apply (rule py_bind_is_error)
    apply (rule py_bind_is_error)
    apply (rule py_bind_is_error)
    apply (rule py_bind_error_first)
    apply (simp add: assms(1) call_positional_def)
    done
qed

theorem nonmyopic_gain_dependent_never_returns_witness:
  "(\<exists>e. nonmyopic_gain (\<lambda>_ _. 0) example_clf [10, 11] [[0, 1]] [20, 21] [Some 0, Some 1]
         (Some [1, 1]) example_est (ones_matrix 2 2) (ones_matrix 2 2) example_est
         (ones_matrix 2 2) (ones_matrix 2 2) (Some [30, 31]) 2 ''misclassification-loss''
         (Some [[0, 1], [1, 0]]) None Nonmyopic False True = Inl e)
   \<and> nonmyopic_gain (\<lambda>_ _. 0) example_clf [10, 11] [[0, 1]] [20, 21] [Some 0, Some 1]
         (Some [1, 1]) example_est (ones_matrix 2 2) (ones_matrix 2 2) example_est
         (ones_matrix 2 2) (ones_matrix 2 2) (Some [30, 31]) 2 ''misclassification-loss''
         (Some [[0, 1], [1, 0]]) None Nonmyopic False True = Inl TypeError
   \<and> dependent_cand_prob [10, 11] [0, 1] [[0, 0], [1, 1]] [20, 21] [Some 0, Some 1] [1, 1]
         example_est (ones_matrix 2 2) (ones_matrix 2 2)
       = Inr [1 / 2 * (4001 / 6002), 1 / 2 * (4001 / 6002)]"
proof -
  have a: "\<exists>e. nonmyopic_gain (\<lambda>_ _. 0) example_clf [10, 11] [[0, 1]] [20, 21] [Some 0, Some 1]
         (Some [1, 1]) example_est (ones_matrix 2 2) (ones_matrix 2 2) example_est
         (ones_matrix 2 2) (ones_matrix 2 2) (Some [30, 31]) 2 ''misclassification-loss''
         (Some [[0, 1], [1, 0]]) None Nonmyopic False True = Inl e"
    by (rule nonmyopic_gain_dependent_never_returns[where r = "[0, 1]" and rs = "[]"]) simp_all
  have b: "nonmyopic_gain (\<lambda>_ _. 0) example_clf [10, 11] [[0, 1]] [20, 21] [Some 0, Some 1]
         (Some [1, 1]) example_est (ones_matrix 2 2) (ones_matrix 2 2) example_est
         (ones_matrix 2 2) (ones_matrix 2 2) (Some [30, 31]) 2 ''misclassification-loss''
         (Some [[0, 1], [1, 0]]) None Nonmyopic False True = Inl TypeError"
    by code_simp
  have c: "dependent_cand_prob [10, 11] [0, 1] [[0, 0], [1, 1]] [20, 21] [Some 0, Some 1] [1, 1]
         example_est (ones_matrix 2 2) (ones_matrix 2 2)
       = Inr [1 / 2 * (4001 / 6002), 1 / 2 * (4001 / 6002)]"
    by code_simp
  from a b c show ?thesis by blast
qed

end
